(* ===== verification/PyValue.thy ===== *)
theory PyValue
  imports Prelude "HOL-Library.AList"
begin

text \<open>
  The values the sources move around: what \<^verbatim>\<open>json.loads\<close> yields (dict, list, str,
  int, float, bool, None), Python's truthiness, \<^verbatim>\<open>dict.get\<close>, \<^verbatim>\<open>str(...)\<close>,
  \<^verbatim>\<open>str.strip\<close> and \<^verbatim>\<open>str.lower\<close>.

  A string is a list of characters, read as the code points 0 to 255, the first page of
  Unicode; \<open>py_space\<close> and \<open>py_lower_char\<close> are Python's tables on that page.
  A float is its value together with the text \<^verbatim>\<open>repr\<close> prints for it: the model
  never computes a shortest decimal, it carries the one the document's float has.
  A dict is its items in insertion order.
\<close>

datatype json =
    JNull
  | JBool bool
  | JInt int
  | JFloat rat string
  | JStr string
  | JList "json list"
  | JObj "(string \<times> json) list"

type_synonym dict = "(string \<times> json) list"

fun is_dict :: "json \<Rightarrow> bool" where
  "is_dict (JObj d) = True"
| "is_dict _ = False"

fun is_str :: "json \<Rightarrow> bool" where
  "is_str (JStr s) = True"
| "is_str _ = False"

subsection \<open>Truthiness and \<^verbatim>\<open>or\<close>\<close>

fun truthy :: "json \<Rightarrow> bool" where
  "truthy JNull = False"
| "truthy (JBool b) = b"
| "truthy (JInt n) = (n \<noteq> 0)"
| "truthy (JFloat x _) = (x \<noteq> 0)"
| "truthy (JStr s) = (s \<noteq> [])"
| "truthy (JList xs) = (xs \<noteq> [])"
| "truthy (JObj d) = (d \<noteq> [])"

definition opt_string :: "json \<Rightarrow> bool" where
  "opt_string v = (case v of JNull \<Rightarrow> True | JStr s \<Rightarrow> True | _ \<Rightarrow> False)"

lemma opt_string_simps [simp]: "opt_string JNull" "opt_string (JStr s)"
  by (simp_all add: opt_string_def)

definition py_or :: "json \<Rightarrow> json \<Rightarrow> json" where
  "py_or a b = (if truthy a then a else b)"

definition str_or :: "string \<Rightarrow> string \<Rightarrow> string" where
  "str_or a b = (if a \<noteq> [] then a else b)"

lemma py_or_simps [simp]:
  "truthy a \<Longrightarrow> py_or a b = a"
  "\<not> truthy a \<Longrightarrow> py_or a b = b"
  by (simp_all add: py_or_def)

lemma truthy_py_or [simp]: "truthy (py_or a b) \<longleftrightarrow> truthy a \<or> truthy b"
  by (simp add: py_or_def)

subsection \<open>Dictionaries\<close>

definition dget :: "dict \<Rightarrow> string \<Rightarrow> json" where
  \<comment> \<open>\<^verbatim>\<open>d.get(k)\<close>: \<^verbatim>\<open>None\<close> for a missing key\<close>
  "dget d k = (case map_of d k of None \<Rightarrow> JNull | Some v \<Rightarrow> v)"

definition dget_or :: "dict \<Rightarrow> string \<Rightarrow> json \<Rightarrow> json" where
  \<comment> \<open>\<^verbatim>\<open>d.get(k, default)\<close>\<close>
  "dget_or d k v0 = (case map_of d k of None \<Rightarrow> v0 | Some v \<Rightarrow> v)"

definition dhas :: "dict \<Rightarrow> string \<Rightarrow> bool" where
  "dhas d k \<longleftrightarrow> map_of d k \<noteq> None"

definition dindex :: "dict \<Rightarrow> string \<Rightarrow> json result" where
  \<comment> \<open>\<^verbatim>\<open>d[k]\<close>\<close>
  "dindex d k = (case map_of d k of None \<Rightarrow> Inl (KeyError k) | Some v \<Rightarrow> Inr v)"

definition dset :: "dict \<Rightarrow> string \<Rightarrow> json \<Rightarrow> dict" where
  \<comment> \<open>\<^verbatim>\<open>d[k] = v\<close>: in place for a present key, else appended\<close>
  "dset d k v = AList.update k v d"

lemma dget_dset [simp]: "dget (dset d k v) k' = (if k' = k then v else dget d k')"
  by (simp add: dget_def dset_def update_conv')

lemma dhas_dset [simp]: "dhas (dset d k v) k' \<longleftrightarrow> k' = k \<or> dhas d k'"
  by (simp add: dhas_def dset_def update_conv')

lemma dget_Nil [simp]: "dget [] k = JNull"
  by (simp add: dget_def)

lemma dget_Cons [simp]: "dget ((k', v) # d) k = (if k = k' then v else dget d k)"
  by (simp add: dget_def)

lemma dget_or_simps [simp]:
  "dget_or [] k v0 = v0"
  "dget_or ((k', v) # d) k v0 = (if k = k' then v else dget_or d k v0)"
  by (simp_all add: dget_or_def)

lemma dhas_simps [simp]:
  "\<not> dhas [] k"
  "dhas ((k', v) # d) k \<longleftrightarrow> k = k' \<or> dhas d k"
  by (simp_all add: dhas_def)

lemma dindex_simps [simp]:
  "dindex [] k = Inl (KeyError k)"
  "dindex ((k', v) # d) k = (if k = k' then Inr v else dindex d k)"
  by (simp_all add: dindex_def)

lemma dindex_dhas: "dhas d k \<Longrightarrow> dindex d k = Inr (dget d k)"
  by (auto simp: dhas_def dindex_def dget_def)

lemma dget_no_key: "\<not> dhas d k \<Longrightarrow> dget d k = JNull"
  by (simp add: dhas_def dget_def)

lemma dict_merge_get:
  \<comment> \<open>the items of \<^verbatim>\<open>{**a, **b}\<close> read through \<^verbatim>\<open>get\<close>\<close>
  "dget (fold (\<lambda>(k, v) d. dset d k v) ys d) k = (case map_of (rev ys) k of None \<Rightarrow> dget d k | Some v \<Rightarrow> v)"
  by (induction ys arbitrary: d) (auto simp: map_add_def split: option.splits)

subsection \<open>Characters and strings\<close>

definition codept :: "char \<Rightarrow> nat" where
  "codept c = of_char c"

definition py_space :: "char \<Rightarrow> bool" where
  "py_space c \<longleftrightarrow> (let n = codept c in (9 \<le> n \<and> n \<le> 13) \<or> (28 \<le> n \<and> n \<le> 32) \<or> n = 133 \<or> n = 160)"

definition py_lower_char :: "char \<Rightarrow> char" where
  "py_lower_char c =
     (let n = codept c
      in if (65 \<le> n \<and> n \<le> 90) \<or> (192 \<le> n \<and> n \<le> 222 \<and> n \<noteq> 215) then char_of (n + 32) else c)"

definition strip :: "string \<Rightarrow> string" where
  "strip s = rev (dropWhile py_space (rev (dropWhile py_space s)))"

definition lower :: "string \<Rightarrow> string" where
  "lower s = map py_lower_char s"

definition rstrip_of :: "char \<Rightarrow> string \<Rightarrow> string" where
  \<comment> \<open>\<^verbatim>\<open>s.rstrip(c)\<close> of one character\<close>
  "rstrip_of ch s = rev (dropWhile (\<lambda>c. c = ch) (rev s))"

abbreviation rstrip_slash :: "string \<Rightarrow> string" where
  "rstrip_slash \<equiv> rstrip_of CHR ''/''"

lemma py_lower_idem: "py_lower_char (py_lower_char c) = py_lower_char c"
proof -
  have "codept c < 256" by (simp add: codept_def)
  then show ?thesis by (auto simp: py_lower_char_def codept_def Let_def)
qed

lemma lower_idem [simp]: "lower (lower s) = lower s"
  by (simp add: lower_def py_lower_idem)

subsection \<open>Decimal and hexadecimal digits\<close>

definition digit_char :: "nat \<Rightarrow> char" where
  "digit_char d = (if d < 10 then char_of (48 + d) else char_of (87 + d))"

fun nat_digits :: "nat \<Rightarrow> string" where
  "nat_digits n = (if n < 10 then [digit_char n] else nat_digits (n div 10) @ [digit_char (n mod 10)])"

declare nat_digits.simps [simp del]

definition int_str :: "int \<Rightarrow> string" where
  "int_str n = (if n < 0 then CHR ''-'' # nat_digits (nat (- n)) else nat_digits (nat n))"

lemma digit_char_inj: "a < 10 \<Longrightarrow> b < 10 \<Longrightarrow> digit_char a = digit_char b \<Longrightarrow> a = b"
proof -
  assume ab: "a < 10" "b < 10" and "digit_char a = digit_char b"
  then have "(of_char (char_of (48 + a)) :: nat) = of_char (char_of (48 + b))"
    by (simp add: digit_char_def)
  with ab show ?thesis by simp
qed

lemma nat_digits_inj: "nat_digits m = nat_digits n \<Longrightarrow> m = n"
proof (induction m arbitrary: n rule: nat_digits.induct)
  case (1 m)
  have nonempty: "nat_digits k \<noteq> []" for k by (subst nat_digits.simps) simp
  show ?case
  proof (cases "m < 10")
    case True
    show ?thesis
    proof (cases "n < 10")
      case True
      with \<open>m < 10\<close> "1.prems" show ?thesis
        by (auto simp: nat_digits.simps[of m] nat_digits.simps[of n] dest: digit_char_inj)
    next
      case False
      with \<open>m < 10\<close> "1.prems" nonempty[of "n div 10"] show ?thesis
        by (simp add: nat_digits.simps[of m] nat_digits.simps[of n])
    qed
  next
    case False
    show ?thesis
    proof (cases "n < 10")
      case True
      with False "1.prems" nonempty[of "m div 10"] show ?thesis
        by (auto simp: nat_digits.simps[of m] nat_digits.simps[of n])
    next
      case False
      with \<open>\<not> m < 10\<close> "1.prems" have eq: "nat_digits (m div 10) = nat_digits (n div 10)"
        and last: "digit_char (m mod 10) = digit_char (n mod 10)"
        by (simp_all add: nat_digits.simps[of m] nat_digits.simps[of n])
      from \<open>\<not> m < 10\<close> eq have "m div 10 = n div 10" by (rule "1.IH")
      moreover have "m mod 10 = n mod 10" by (rule digit_char_inj [OF _ _ last]) simp_all
      ultimately show ?thesis by (metis div_mult_mod_eq)
    qed
  qed
qed

lemma nat_digits_chars: "c \<in> set (nat_digits n) \<Longrightarrow> \<exists>d < 10. c = digit_char d"
proof (induction n rule: nat_digits.induct)
  case (1 n)
  then show ?case
    by (cases "n < 10") (auto simp: nat_digits.simps[of n] intro: exI[of _ "n mod 10"])
qed

subsection \<open>\<^verbatim>\<open>str(...)\<close> and \<^verbatim>\<open>repr(...)\<close>\<close>

definition hex_escape :: "nat \<Rightarrow> string" where
  "hex_escape n = [CHR 0x5C, CHR ''x'', digit_char (n div 16), digit_char (n mod 16)]"

definition repr_char :: "char \<Rightarrow> char \<Rightarrow> string" where
  "repr_char q c =
     (let n = codept c in
      if c = q \<or> c = CHR 0x5C then [CHR 0x5C, c]
      else if n = 10 then [CHR 0x5C, CHR ''n'']
      else if n = 13 then [CHR 0x5C, CHR ''r'']
      else if n = 9 then [CHR 0x5C, CHR ''t'']
      else if n < 32 \<or> (127 \<le> n \<and> n \<le> 160) \<or> n = 173 then hex_escape n
      else [c])"

definition repr_str :: "string \<Rightarrow> string" where
  "repr_str s =
     (let q = (if CHR 0x27 \<in> set s \<and> CHR 0x22 \<notin> set s then CHR 0x22 else CHR 0x27)
      in q # concat (map (repr_char q) s) @ [q])"

fun join :: "string \<Rightarrow> string list \<Rightarrow> string" where
  "join sep [] = []"
| "join sep [x] = x"
| "join sep (x # xs) = x @ sep @ join sep xs"

fun py_repr :: "json \<Rightarrow> string" where
  "py_repr JNull = ''None''"
| "py_repr (JBool b) = (if b then ''True'' else ''False'')"
| "py_repr (JInt n) = int_str n"
| "py_repr (JFloat x t) = t"
| "py_repr (JStr s) = repr_str s"
| "py_repr (JList xs) = ''['' @ join '', '' (map py_repr xs) @ '']''"
| "py_repr (JObj d) = ''{'' @ join '', '' (map (\<lambda>(k, v). repr_str k @ '': '' @ py_repr v) d) @ ''}''"

definition py_str :: "json \<Rightarrow> string" where
  "py_str v = (case v of JStr s \<Rightarrow> s | _ \<Rightarrow> py_repr v)"

lemma py_str_JStr [simp]: "py_str (JStr s) = s"
  by (simp add: py_str_def)

subsection \<open>\<^verbatim>\<open>len\<close> and iteration\<close>

fun py_len :: "json \<Rightarrow> nat result" where
  "py_len (JList xs) = Inr (length xs)"
| "py_len (JObj d) = Inr (length d)"
| "py_len (JStr s) = Inr (length s)"
| "py_len _ = Inl (TypeError [])"

fun py_iter :: "json \<Rightarrow> json list result" where
  "py_iter (JList xs) = Inr xs"
| "py_iter (JObj d) = Inr (map (\<lambda>(k, v). JStr k) d)"
| "py_iter (JStr s) = Inr (map (\<lambda>c. JStr [c]) s)"
| "py_iter _ = Inl (TypeError [])"

lemma py_iter_len: "py_iter v = Inr xs \<Longrightarrow> py_len v = Inr (length xs)"
  by (cases v) auto

end
