(* ===== verification/RunStatus.thy ===== *)
theory RunStatus
  imports PyValue
begin

text \<open>
  The status vocabulary of \<^verbatim>\<open>orchestrator/functions/fanout/__init__.py\<close>: the
  normalisation of a status value, which statuses end a run, the summary of an
  application's runs and the kind of live event a result produces.
\<close>

definition status_key :: "json \<Rightarrow> string" where
  "status_key v = lower (strip (py_str (py_or v (JStr ''''))))"

definition terminal_keys :: "string list" where
  "terminal_keys = [''succeeded'', ''completed'', ''failed'', ''cancelled'', ''canceled'']"

definition is_terminal_run_status :: "json \<Rightarrow> bool" where
  "is_terminal_run_status v \<longleftrightarrow> status_key v \<in> set terminal_keys"

definition terminal_run_event_type :: "json \<Rightarrow> string" where
  "terminal_run_event_type v =
     (let k = status_key v in
      if k = ''failed'' then ''run.failed''
      else if k \<in> set [''cancelled'', ''canceled''] then ''run.cancelled''
      else ''run.completed'')"

text \<open>
  The body of \<^verbatim>\<open>_summarize_application_status\<close> after its first line, over the
  normalised statuses.
\<close>

definition active_keys :: "string list" where
  "active_keys = [''queued'', ''dispatched'', ''running'', '''']"

definition summarize_keys :: "string list \<Rightarrow> string" where
  "summarize_keys statuses =
     (if \<exists>s \<in> set statuses. s \<in> set active_keys
      then (if \<exists>s \<in> set statuses. s \<noteq> ''queued'' then ''running'' else ''queued'')
      else if set statuses \<subseteq> set [''succeeded'', ''completed''] then ''completed''
      else if set statuses \<subseteq> set [''failed''] then ''failed''
      else if set statuses \<subseteq> set [''cancelled'', ''canceled''] then ''cancelled''
      else ''partial'')"

subsection \<open>Facts about the vocabulary\<close>

lemma status_key_literals [simp]:
  "status_key (JStr ''queued'') = ''queued''"
  "status_key (JStr ''dispatched'') = ''dispatched''"
  "status_key (JStr ''running'') = ''running''"
  "status_key (JStr ''Succeeded'') = ''succeeded''"
  "status_key (JStr ''Failed'') = ''failed''"
  "status_key (JStr ''Partial'') = ''partial''"
  "status_key JNull = ''''"
  by code_simp+

lemma not_terminal_literals [simp]:
  "\<not> is_terminal_run_status (JStr ''queued'')"
  "\<not> is_terminal_run_status (JStr ''dispatched'')"
  "\<not> is_terminal_run_status (JStr ''Partial'')"
  "\<not> is_terminal_run_status JNull"
  by (simp_all add: is_terminal_run_status_def terminal_keys_def)

lemma terminal_literals [simp]:
  "is_terminal_run_status (JStr ''Succeeded'')"
  "is_terminal_run_status (JStr ''Failed'')"
  by (simp_all add: is_terminal_run_status_def terminal_keys_def)

text \<open>Python's normalisation is idempotent: a status that has been normalised stays as it is.\<close>

lemma strip_ends:
  assumes "strip s = c # cs"
  shows "\<not> py_space c \<and> \<not> py_space (last (c # cs))"
proof -
  define d where "d = dropWhile py_space s"
  define r where "r = dropWhile py_space (rev d)"
  have r: "rev r = c # cs" using assms by (simp add: strip_def r_def d_def)
  then have ne: "r \<noteq> []" by auto
  then have d_ne: "d \<noteq> []" by (auto simp: r_def)
  have "last (c # cs) = hd r" using r ne by (metis last_rev)
  moreover have "\<not> py_space (hd r)" using ne unfolding r_def by (rule hd_dropWhile)
  moreover have "last r = last (rev d)"
    using ne unfolding r_def by (metis last_appendR takeWhile_dropWhile_id)
  moreover have "last r = c" using r ne by (metis hd_rev list.sel(1))
  moreover have "last (rev d) = hd d" using d_ne by (simp add: last_rev)
  moreover have "\<not> py_space (hd d)" using d_ne unfolding d_def by (rule hd_dropWhile)
  ultimately show ?thesis by metis
qed

lemma strip_fixed:
  assumes "\<not> py_space c" and "\<not> py_space (last (c # cs))"
  shows "strip (c # cs) = c # cs"
proof -
  have "\<not> py_space (hd (rev (c # cs)))" using assms(2) by (metis hd_rev)
  then have "dropWhile py_space (rev (c # cs)) = rev (c # cs)"
    by (metis dropWhile_eq_self_iff)
  with assms(1) show ?thesis by (simp add: strip_def)
qed

lemma strip_Nil [simp]: "strip [] = []"
  by (simp add: strip_def)

lemma strip_idem [simp]: "strip (strip s) = strip s"
proof (cases "strip s")
  case Nil
  then show ?thesis by simp
next
  case (Cons c cs)
  with strip_ends have "\<not> py_space c" "\<not> py_space (last (c # cs))" by blast+
  with Cons show ?thesis by (metis strip_fixed)
qed

lemma py_space_lower [simp]: "py_space (py_lower_char c) = py_space c"
proof -
  have "codept c < 256" by (simp add: codept_def)
  then show ?thesis by (auto simp: py_lower_char_def py_space_def codept_def Let_def)
qed

lemma dropWhile_lower: "dropWhile py_space (lower s) = lower (dropWhile py_space s)"
  by (induction s) (simp_all add: lower_def)

lemma rev_lower: "rev (lower s) = lower (rev s)"
  by (simp add: lower_def rev_map)

lemma strip_lower: "strip (lower s) = lower (strip s)"
  by (simp add: strip_def dropWhile_lower rev_lower)

lemma lower_Nil [simp]: "lower [] = []"
  by (simp add: lower_def)

lemma py_str_or_empty [simp]: "py_str (py_or (JStr s) (JStr [])) = s"
  by (cases "s = []") simp_all

lemma status_key_idem: "status_key (JStr (status_key v)) = status_key v"
  by (simp add: status_key_def strip_lower)

lemma summarize_keys_running:
  "summarize_keys ks \<in> {''queued'', ''running''} \<longleftrightarrow> (\<exists>k \<in> set ks. k \<in> set active_keys)"
  by (simp add: summarize_keys_def)

lemma terminal_not_active: "k \<in> set terminal_keys \<Longrightarrow> k \<notin> set active_keys"
  unfolding terminal_keys_def active_keys_def
  by (simp only: list.set insert_iff empty_iff) (elim disjE; simp)

lemma summarize_keys_terminal:
  assumes "\<forall>k \<in> set ks. k \<in> set terminal_keys"
  shows "summarize_keys ks =
     (if set ks \<subseteq> {''succeeded'', ''completed''} then ''completed''
      else if set ks \<subseteq> {''failed''} then ''failed''
      else if set ks \<subseteq> {''cancelled'', ''canceled''} then ''cancelled''
      else ''partial'')"
proof -
  have no_active: "(\<exists>s \<in> set ks. s \<in> set active_keys) = False"
    using assms terminal_not_active by blast
  show ?thesis
    unfolding summarize_keys_def no_active by (simp only: if_False list.set)
qed

end
