(* ===== verification/Progress.thy ===== *)
theory Progress
  imports RunStatus
begin

text \<open>
  The progress document of a batch (\<^verbatim>\<open>orchestrator/functions/fanout/__init__.py\<close>,
  \<^verbatim>\<open>_build_initial_progress\<close> to \<^verbatim>\<open>_next_event_sequence\<close>): counters for the
  batch, one block per application, one block per run. The sources keep it as nested dicts
  which they update in place; here each dict is a record, a key that only a result writes is
  an \<open>option\<close>, and an update returns the new document. A result is the dict the external
  event carries, so every \<^verbatim>\<open>run_result.get(...)\<close> stays a lookup.
\<close>

subsection \<open>Data\<close>

record cv_ref =
  cv_applicationId :: string
  cv_documentId :: string
  cv_fileName :: string
  cv_mimeType :: string
  cv_blobUri :: string
  cv_sha256 :: string

record run_state =
  r_runId :: string
  r_runIndex :: nat
  r_status :: json
  r_dispatchedAt :: "string option"
  r_completedAt :: "string option"
  r_artifactCount :: nat
  r_artifactNames :: "json list"
  r_errorMessage :: json
  r_durationMs :: "json option"
  r_tokensPrompt :: "json option"
  r_tokensCompletion :: "json option"
  r_correlationId :: "json option"
  r_traceparent :: "json option"
  r_artifacts :: "json option"

record application =
  a_applicationId :: string
  a_documentId :: string
  a_status :: string
  a_runsCompleted :: nat
  a_runsTotal :: nat
  a_lastUpdatedAt :: string
  a_runs :: "run_state list"

record progress =
  p_submissionId :: string
  p_batchId :: string
  p_jobId :: "string option"
  p_status :: string
  p_cvsCompleted :: nat
  p_cvsTotal :: nat
  p_runsCompleted :: nat
  p_runsDispatched :: nat
  p_runsTotal :: nat
  p_lastUpdatedAt :: string
  p_applications :: "application list"

subsection \<open>Run identifiers\<close>

text \<open>
  \<^verbatim>\<open>_mint_run_id\<close> hashes \<^verbatim>\<open>"{batch_id}:{application_id}:{run_index}"\<close>. The
  version 5 UUID of the fixed namespace is the parameter \<open>uuid5\<close>; the name it hashes is
  \<open>run_name\<close>.
\<close>

definition run_name :: "string \<Rightarrow> string \<Rightarrow> nat \<Rightarrow> string" where
  "run_name b a i = b @ '':'' @ a @ '':'' @ nat_digits i"

definition mint_run_id :: "(string \<Rightarrow> string) \<Rightarrow> string \<Rightarrow> string \<Rightarrow> nat \<Rightarrow> string" where
  "mint_run_id uuid5 b a i = uuid5 (run_name b a i)"

subsection \<open>The initial document\<close>

definition initial_run :: "(string \<Rightarrow> string) \<Rightarrow> string \<Rightarrow> cv_ref \<Rightarrow> nat \<Rightarrow> run_state" where
  "initial_run uuid5 b cv i =
     \<lparr>r_runId = mint_run_id uuid5 b (cv_applicationId cv) i, r_runIndex = i,
      r_status = JStr ''queued'', r_dispatchedAt = None, r_completedAt = None,
      r_artifactCount = 0, r_artifactNames = [], r_errorMessage = JNull,
      r_durationMs = None, r_tokensPrompt = None, r_tokensCompletion = None,
      r_correlationId = None, r_traceparent = None, r_artifacts = None\<rparr>"

definition initial_application ::
  "(string \<Rightarrow> string) \<Rightarrow> string \<Rightarrow> nat \<Rightarrow> string \<Rightarrow> cv_ref \<Rightarrow> application" where
  "initial_application uuid5 b n t cv =
     \<lparr>a_applicationId = cv_applicationId cv, a_documentId = cv_documentId cv,
      a_status = ''queued'', a_runsCompleted = 0, a_runsTotal = n, a_lastUpdatedAt = t,
      a_runs = map (initial_run uuid5 b cv) [0..<n]\<rparr>"

definition build_initial_progress ::
  "(string \<Rightarrow> string) \<Rightarrow> string \<Rightarrow> string \<Rightarrow> cv_ref list \<Rightarrow> nat \<Rightarrow> string \<Rightarrow> progress" where
  "build_initial_progress uuid5 b job cvs n t =
     \<lparr>p_submissionId = b, p_batchId = b, p_jobId = Some job, p_status = ''queued'',
      p_cvsCompleted = 0, p_cvsTotal = length cvs, p_runsCompleted = 0, p_runsDispatched = 0,
      p_runsTotal = length cvs * n, p_lastUpdatedAt = t,
      p_applications = map (initial_application uuid5 b n t) cvs\<rparr>"

subsection \<open>Looking a run up\<close>

text \<open>
  \<^verbatim>\<open>_find_application_run\<close> returns references into the document; here it returns the
  two positions, the first match in document order.
\<close>

fun find_application_run :: "application list \<Rightarrow> json \<Rightarrow> (nat \<times> nat) option" where
  "find_application_run [] v = None"
| "find_application_run (a # as) v =
     (case first_index (\<lambda>r. JStr (r_runId r) = v) (a_runs a) of
        Some j \<Rightarrow> Some (0, j)
      | None \<Rightarrow> map_option (\<lambda>(i, j). (Suc i, j)) (find_application_run as v))"

definition find_application :: "progress \<Rightarrow> string \<Rightarrow> application option" where
  "find_application p app_id = List.find (\<lambda>a. a_applicationId a = app_id) (p_applications p)"

definition is_application_terminal :: "application \<Rightarrow> bool" where
  "is_application_terminal a \<longleftrightarrow> (\<forall>r \<in> set (a_runs a). is_terminal_run_status (r_status r))"

definition summarize_application_status :: "run_state list \<Rightarrow> string" where
  "summarize_application_status runs = summarize_keys (map (\<lambda>r. status_key (r_status r)) runs)"

definition is_cancelled_batch :: "progress \<Rightarrow> bool" where
  "is_cancelled_batch p \<longleftrightarrow>
     p_applications p \<noteq> [] \<and>
     (\<forall>a \<in> set (p_applications p). status_key (JStr (a_status a)) \<in> set [''cancelled'', ''canceled''])"

definition next_event_sequence :: "progress \<Rightarrow> nat" where
  "next_event_sequence p =
     p_runsDispatched p + p_runsCompleted p
     + length (filter is_application_terminal (p_applications p)) + 1"

subsection \<open>Recording a dispatch and a result\<close>

definition record_dispatched_run :: "progress \<Rightarrow> string \<Rightarrow> string \<Rightarrow> progress" where
  "record_dispatched_run p run_id t =
     (case find_application_run (p_applications p) (JStr run_id) of
        None \<Rightarrow> p
      | Some (i, j) \<Rightarrow>
          (let app = p_applications p ! i; run = a_runs app ! j;
               run' = run\<lparr>r_status := JStr ''dispatched'', r_dispatchedAt := Some t\<rparr>;
               app' = app\<lparr>a_runs := (a_runs app)[j := run'], a_status := ''running'',
                          a_lastUpdatedAt := t\<rparr>
           in p\<lparr>p_runsDispatched := (if r_status run = JStr ''queued'' then Suc (p_runsDispatched p)
                                     else p_runsDispatched p),
                p_applications := (p_applications p)[i := app'],
                p_status := ''running'', p_lastUpdatedAt := t\<rparr>))"

text \<open>\<^verbatim>\<open>[artifact.get("name") for artifact in artifacts if artifact.get("name")]\<close>\<close>

fun artifact_names :: "json list \<Rightarrow> json list result" where
  "artifact_names [] = Inr []"
| "artifact_names (JObj d # xs) =
     bind_res (artifact_names xs)
       (\<lambda>ns. Inr (if truthy (dget d ''name'') then dget d ''name'' # ns else ns))"
| "artifact_names (_ # xs) = Inl AttributeError"

text \<open>The names of a result's artifacts can be read: what recording the result needs.\<close>

definition artifacts_ok :: "dict \<Rightarrow> bool" where
  "artifacts_ok rr =
     (case py_iter (py_or (dget rr ''artifacts'') (JList [])) of
        Inl e \<Rightarrow> False
      | Inr items \<Rightarrow> (case artifact_names items of Inl e \<Rightarrow> False | Inr ns \<Rightarrow> True))"

definition completed_run :: "run_state \<Rightarrow> dict \<Rightarrow> json \<Rightarrow> nat \<Rightarrow> json list \<Rightarrow> string \<Rightarrow> run_state" where
  "completed_run run rr artifacts n names t =
     run\<lparr>r_status := dget rr ''status'',
         r_durationMs := Some (dget rr ''duration_ms''),
         r_tokensPrompt := Some (dget rr ''tokens_prompt''),
         r_tokensCompletion := Some (dget rr ''tokens_completion''),
         r_correlationId := Some (dget rr ''correlation_id''),
         r_traceparent := Some (dget rr ''traceparent''),
         r_artifacts := Some artifacts,
         r_artifactCount := n,
         r_artifactNames := names,
         r_errorMessage := dget rr ''error_message'',
         r_completedAt := Some t\<rparr>"

definition terminal_ids :: "application list \<Rightarrow> string list" where
  "terminal_ids apps = remdups (map a_applicationId (filter is_application_terminal apps))"

definition put_completed_run :: "progress \<Rightarrow> nat \<Rightarrow> nat \<Rightarrow> run_state \<Rightarrow> string \<Rightarrow> progress" where
  "put_completed_run p i j run' t =
     (let app = p_applications p ! i;
          runs' = (a_runs app)[j := run'];
          app' = app\<lparr>a_runs := runs', a_runsCompleted := Suc (a_runsCompleted app),
                     a_status := summarize_application_status runs', a_lastUpdatedAt := t\<rparr>;
          apps' = (p_applications p)[i := app']
      in p\<lparr>p_runsCompleted := Suc (p_runsCompleted p),
           p_applications := apps',
           p_cvsCompleted := (if is_application_terminal app' then length (terminal_ids apps')
                              else p_cvsCompleted p),
           p_status := ''running'', p_lastUpdatedAt := t\<rparr>)"

definition record_run_result :: "progress \<Rightarrow> dict \<Rightarrow> string \<Rightarrow> progress result" where
  "record_run_result p rr t =
     (let run_id = dget rr ''run_id'' in
      if \<not> truthy run_id then Inr p
      else case find_application_run (p_applications p) run_id of
        None \<Rightarrow> Inr p
      | Some (i, j) \<Rightarrow>
          (let run = a_runs (p_applications p ! i) ! j in
           if is_terminal_run_status (r_status run) then Inr p
           else
             (let artifacts = py_or (dget rr ''artifacts'') (JList []) in
              bind_res (py_len artifacts) (\<lambda>n.
              bind_res (py_iter artifacts) (\<lambda>items.
              bind_res (artifact_names items) (\<lambda>names.
                Inr (put_completed_run p i j (completed_run run rr artifacts n names t) t)))))))"

end
