(* ===== verification/ProgressLaws.thy ===== *)
theory ProgressLaws
  imports Progress
begin

text \<open>
  What the operations on the progress document keep: the lineage of applications and runs
  never changes, the counters are the counts they stand for, a terminal run is never touched
  again.
\<close>

subsection \<open>Looking a run up\<close>

definition run_ids :: "application list \<Rightarrow> string list" where
  "run_ids apps = concat (map (\<lambda>a. map r_runId (a_runs a)) apps)"

definition id_table :: "application list \<Rightarrow> string list list" where
  "id_table apps = map (\<lambda>a. map r_runId (a_runs a)) apps"

lemma run_ids_table: "run_ids apps = concat (id_table apps)"
  by (simp add: run_ids_def id_table_def)

lemma find_application_run_SomeD:
  "find_application_run apps v = Some (i, j) \<Longrightarrow>
     i < length apps \<and> j < length (a_runs (apps ! i)) \<and> JStr (r_runId (a_runs (apps ! i) ! j)) = v"
  by (induction apps arbitrary: i)
     (auto split: option.splits dest: first_index_SomeD)

lemma find_application_run_None:
  "find_application_run apps (JStr x) = None \<longleftrightarrow> x \<notin> set (run_ids apps)"
  by (induction apps) (auto simp: run_ids_def split: option.splits dest: first_index_SomeD)

lemma find_application_run_nonstring:
  "\<not> is_str v \<Longrightarrow> find_application_run apps v = None"
  by (cases v; induction apps) (auto split: option.splits)

lemma first_index_ids:
  "first_index (\<lambda>r. JStr (r_runId r) = v) rs = first_index (\<lambda>x. JStr x = v) (map r_runId rs)"
  by (simp add: first_index_map comp_def)

lemma find_application_run_cong:
  "id_table as = id_table bs \<Longrightarrow> find_application_run as v = find_application_run bs v"
proof (induction as arbitrary: bs)
  case Nil
  then show ?case by (simp add: id_table_def)
next
  case (Cons a as)
  then obtain b bs' where bs: "bs = b # bs'" by (cases bs) (simp_all add: id_table_def)
  with Cons.prems have eq: "map r_runId (a_runs a) = map r_runId (a_runs b)" "id_table as = id_table bs'"
    by (simp_all add: id_table_def)
  show ?case by (simp only: bs find_application_run.simps first_index_ids eq(1) Cons.IH[OF eq(2)])
qed

lemma find_application_run_distinct:
  assumes "distinct (run_ids apps)" and "i < length apps" and "j < length (a_runs (apps ! i))"
  shows "find_application_run apps (JStr (r_runId (a_runs (apps ! i) ! j))) = Some (i, j)"
  using assms
proof (induction apps arbitrary: i)
  case Nil
  then show ?case by simp
next
  case (Cons a as)
  from Cons.prems(1) have d: "distinct (map r_runId (a_runs a))" "distinct (run_ids as)"
    and disj: "set (map r_runId (a_runs a)) \<inter> set (run_ids as) = {}"
    by (auto simp: run_ids_def)
  show ?case
  proof (cases i)
    case 0
    with Cons.prems d(1) show ?thesis by (simp add: first_index_unique)
  next
    case (Suc k)
    let ?x = "r_runId (a_runs (as ! k) ! j)"
    from Suc Cons.prems have k: "k < length as" "j < length (a_runs (as ! k))" by simp_all
    then have "as ! k \<in> set as" "a_runs (as ! k) ! j \<in> set (a_runs (as ! k))" by simp_all
    then have "?x \<in> set (run_ids as)" unfolding run_ids_def by auto
    with disj have "?x \<notin> set (map r_runId (a_runs a))" by blast
    then have "\<forall>r \<in> set (a_runs a). r_runId r \<noteq> ?x" by (metis imageI list.set_map)
    then have "first_index (\<lambda>r. r_runId r = ?x) (a_runs a) = None" by simp
    with Suc Cons.IH[OF d(2) k] show ?thesis by (simp del: first_index_None)
  qed
qed

subsection \<open>Lineage\<close>

type_synonym lineage = "(string \<times> string \<times> (string \<times> nat) list) list"

definition lineage :: "progress \<Rightarrow> lineage" where
  "lineage p = map (\<lambda>a. (a_applicationId a, a_documentId a,
                         map (\<lambda>r. (r_runId r, r_runIndex r)) (a_runs a))) (p_applications p)"

lemma id_table_lineage: "id_table (p_applications p) = map (map fst \<circ> snd \<circ> snd) (lineage p)"
  by (simp add: id_table_def lineage_def comp_def)

lemma completed_run_frame [frame_simps, simp]:
  "r_runId (completed_run r rr as n ns t) = r_runId r"
  "r_runIndex (completed_run r rr as n ns t) = r_runIndex r"
  "r_status (completed_run r rr as n ns t) = dget rr ''status''"
  "r_dispatchedAt (completed_run r rr as n ns t) = r_dispatchedAt r"
  "r_completedAt (completed_run r rr as n ns t) = Some t"
  by (simp_all add: completed_run_def)

lemma record_run_result_cases:
  assumes "record_run_result p rr t = Inr p'"
  obtains (skip) "p' = p"
  | (put) i j n names artifacts where
      "find_application_run (p_applications p) (dget rr ''run_id'') = Some (i, j)"
      "\<not> is_terminal_run_status (r_status (a_runs (p_applications p ! i) ! j))"
      "p' = put_completed_run p i j
              (completed_run (a_runs (p_applications p ! i) ! j) rr artifacts n names t) t"
proof -
  consider (n) "find_application_run (p_applications p) (dget rr ''run_id'') = None"
    | (s) i j where "find_application_run (p_applications p) (dget rr ''run_id'') = Some (i, j)"
    by (cases "find_application_run (p_applications p) (dget rr ''run_id'')") auto
  then show thesis
  proof cases
    case n
    with assms have "p' = p" by (simp add: record_run_result_def Let_def split: if_splits)
    then show ?thesis by (rule skip)
  next
    case s
    show ?thesis
    proof (cases "is_terminal_run_status (r_status (a_runs (p_applications p ! i) ! j)) \<or> \<not> truthy (dget rr ''run_id'')")
      case True
      with assms s have "p' = p" by (simp add: record_run_result_def Let_def split: if_splits)
      then show ?thesis by (rule skip)
    next
      case False
      then have nt: "\<not> is_terminal_run_status (r_status (a_runs (p_applications p ! i) ! j))" by blast
      from assms s False obtain n items names where
        "p' = put_completed_run p i j (completed_run (a_runs (p_applications p ! i) ! j) rr
           (py_or (dget rr ''artifacts'') (JList [])) n names t) t"
        by (simp add: record_run_result_def Let_def) blast
      then show ?thesis by (rule put[OF s nt])
    qed
  qed
qed

lemma lineage_put:
  assumes "i < length (p_applications p)" and "j < length (a_runs (p_applications p ! i))"
    and "r_runId r' = r_runId (a_runs (p_applications p ! i) ! j)"
    and "r_runIndex r' = r_runIndex (a_runs (p_applications p ! i) ! j)"
  shows "lineage (put_completed_run p i j r' t) = lineage p"
  unfolding lineage_def put_completed_run_def Let_def
  using assms by (simp add: map_list_update_same)

lemma lineage_result [frame_simps]:
  assumes "record_run_result p rr t = Inr p'"
  shows "lineage p' = lineage p"
  using assms
proof (cases rule: record_run_result_cases)
  case skip
  then show ?thesis by simp
next
  case (put i j n names artifacts)
  with find_application_run_SomeD[OF put(1)] show ?thesis by (simp add: lineage_put)
qed

lemma lineage_dispatch [frame_simps]: "lineage (record_dispatched_run p x t) = lineage p"
proof (cases "find_application_run (p_applications p) (JStr x)")
  case None
  then show ?thesis by (simp add: record_dispatched_run_def)
next
  case (Some ij)
  then obtain i j where ij: "find_application_run (p_applications p) (JStr x) = Some (i, j)"
    by (cases ij) simp
  with find_application_run_SomeD[OF ij] show ?thesis
    by (simp add: record_dispatched_run_def Let_def lineage_def map_list_update_same)
qed

lemma find_same_lineage:
  "lineage p = lineage q \<Longrightarrow>
     find_application_run (p_applications p) v = find_application_run (p_applications q) v"
  by (rule find_application_run_cong) (simp add: id_table_lineage)

lemma run_ids_same_lineage:
  "lineage p = lineage q \<Longrightarrow> run_ids (p_applications p) = run_ids (p_applications q)"
  by (simp add: run_ids_table id_table_lineage)

subsection \<open>Counters\<close>

definition completed_in :: "application \<Rightarrow> nat" where
  "completed_in a = length (filter (\<lambda>r. r_completedAt r \<noteq> None) (a_runs a))"

definition dispatched_in :: "application \<Rightarrow> nat" where
  "dispatched_in a = length (filter (\<lambda>r. r_dispatchedAt r \<noteq> None) (a_runs a))"

definition counters_ok :: "progress \<Rightarrow> bool" where
  "counters_ok p \<longleftrightarrow>
     p_cvsTotal p = length (p_applications p) \<and>
     p_runsTotal p = sum_list (map (\<lambda>a. length (a_runs a)) (p_applications p)) \<and>
     (\<forall>a \<in> set (p_applications p). a_runsTotal a = length (a_runs a) \<and> a_runsCompleted a = completed_in a) \<and>
     p_runsCompleted p = sum_list (map completed_in (p_applications p)) \<and>
     p_runsDispatched p = sum_list (map dispatched_in (p_applications p)) \<and>
     p_cvsCompleted p = length (terminal_ids (p_applications p))"

definition run_at :: "progress \<Rightarrow> nat \<Rightarrow> nat \<Rightarrow> run_state" where
  "run_at p i j = a_runs (p_applications p ! i) ! j"

lemma terminal_ids_nonterminal_update:
  assumes "i < length apps" and "\<not> is_application_terminal (apps ! i)" and "\<not> is_application_terminal a'"
  shows "terminal_ids (apps[i := a']) = terminal_ids apps"
proof -
  have "filter is_application_terminal (apps[i := a']) = filter is_application_terminal apps"
    using assms by (induction apps arbitrary: i) (auto split: nat.splits)
  then show ?thesis by (simp add: terminal_ids_def)
qed

lemma counters_put [inv_intros]:
  assumes inv: "counters_ok p"
    and i: "i < length (p_applications p)" and j: "j < length (a_runs (p_applications p ! i))"
    and nt: "\<not> is_terminal_run_status (r_status (run_at p i j))"
    and fresh: "r_completedAt (run_at p i j) = None"
    and r': "r_completedAt r' = Some t'" "r_dispatchedAt r' = r_dispatchedAt (run_at p i j)"
  shows "counters_ok (put_completed_run p i j r' t)"
proof -
  let ?a = "p_applications p ! i"
  let ?runs = "(a_runs ?a)[j := r']"
  let ?a' = "?a\<lparr>a_runs := ?runs, a_runsCompleted := Suc (a_runsCompleted ?a),
               a_status := summarize_application_status ?runs, a_lastUpdatedAt := t\<rparr>"
  have c: "completed_in ?a' = Suc (completed_in ?a)"
    using length_filter_list_update[OF j, of "\<lambda>r. r_completedAt r \<noteq> None" r'] fresh r'(1)
    by (simp add: completed_in_def run_at_def)
  have d: "dispatched_in ?a' = dispatched_in ?a"
    using length_filter_list_update[OF j, of "\<lambda>r. r_dispatchedAt r \<noteq> None" r'] r'(2)
    by (simp add: dispatched_in_def run_at_def split: if_splits)
  have nta: "\<not> is_application_terminal ?a"
    using nt j by (auto simp: is_application_terminal_def run_at_def)
  have mem: "?a \<in> set (p_applications p)" using i by simp
  have sums: "sum_list (map completed_in ((p_applications p)[i := ?a'])) = Suc (sum_list (map completed_in (p_applications p)))"
    "sum_list (map dispatched_in ((p_applications p)[i := ?a'])) = sum_list (map dispatched_in (p_applications p))"
    "sum_list (map (\<lambda>a. length (a_runs a)) ((p_applications p)[i := ?a'])) = sum_list (map (\<lambda>a. length (a_runs a)) (p_applications p))"
    using sum_list_update_nat[OF i, of completed_in ?a'] sum_list_update_nat[OF i, of dispatched_in ?a']
      sum_list_update_nat[OF i, of "\<lambda>a. length (a_runs a)" ?a'] c d by simp_all
  have each: "\<forall>a \<in> set ((p_applications p)[i := ?a']). a_runsTotal a = length (a_runs a) \<and> a_runsCompleted a = completed_in a"
    using inv mem c by (auto simp: counters_ok_def dest!: subsetD[OF set_update_subset_insert])
  have cvs: "(if is_application_terminal ?a' then length (terminal_ids ((p_applications p)[i := ?a'])) else p_cvsCompleted p)
     = length (terminal_ids ((p_applications p)[i := ?a']))"
    using inv terminal_ids_nonterminal_update[OF i nta, of ?a'] by (auto simp: counters_ok_def)
  show ?thesis
    using inv sums each cvs unfolding put_completed_run_def Let_def counters_ok_def by simp
qed

lemma counters_result [inv_intros]:
  assumes inv: "counters_ok p" and res: "record_run_result p rr t = Inr p'"
    and fresh: "\<And>i j. find_application_run (p_applications p) (dget rr ''run_id'') = Some (i, j) \<Longrightarrow>
      is_terminal_run_status (r_status (run_at p i j)) \<or> r_completedAt (run_at p i j) = None"
  shows "counters_ok p'"
  using res
proof (cases rule: record_run_result_cases)
  case skip
  with inv show ?thesis by simp
next
  case (put i j n names artifacts)
  with fresh[OF put(1)] have "r_completedAt (run_at p i j) = None" by (simp add: run_at_def)
  with put find_application_run_SomeD[OF put(1)] inv show ?thesis
    by (simp add: run_at_def counters_put)
qed

lemma counters_dispatch [inv_intros]:
  assumes inv: "counters_ok p"
    and fresh: "\<And>i j. find_application_run (p_applications p) (JStr x) = Some (i, j) \<Longrightarrow>
      \<not> is_terminal_run_status (r_status (run_at p i j)) \<and>
      (r_status (run_at p i j) = JStr ''queued'' \<longleftrightarrow> r_dispatchedAt (run_at p i j) = None)"
  shows "counters_ok (record_dispatched_run p x t)"
proof (cases "find_application_run (p_applications p) (JStr x)")
  case None
  with inv show ?thesis by (simp add: record_dispatched_run_def)
next
  case (Some ij)
  then obtain i j where ij: "find_application_run (p_applications p) (JStr x) = Some (i, j)"
    by (cases ij) simp
  let ?a = "p_applications p ! i"
  let ?r = "a_runs ?a ! j"
  let ?r' = "?r\<lparr>r_status := JStr ''dispatched'', r_dispatchedAt := Some t\<rparr>"
  let ?a' = "?a\<lparr>a_runs := (a_runs ?a)[j := ?r'], a_status := ''running'', a_lastUpdatedAt := t\<rparr>"
  from find_application_run_SomeD[OF ij] have i: "i < length (p_applications p)"
    and j: "j < length (a_runs ?a)" by blast+
  have c: "completed_in ?a' = completed_in ?a"
    using length_filter_list_update[OF j, of "\<lambda>r. r_completedAt r \<noteq> None" ?r']
    by (simp add: completed_in_def split: if_splits)
  have d: "dispatched_in ?a' = dispatched_in ?a + (if r_status ?r = JStr ''queued'' then 1 else 0)"
    using length_filter_list_update[OF j, of "\<lambda>r. r_dispatchedAt r \<noteq> None" ?r'] fresh[OF ij]
    by (auto simp: dispatched_in_def run_at_def)
  have nta: "\<not> is_application_terminal ?a"
    using fresh[OF ij] j by (auto simp: is_application_terminal_def run_at_def)
  have nta': "\<not> is_application_terminal ?a'"
  proof -
    have "?r' \<in> set ((a_runs ?a)[j := ?r'])" using j by (rule set_update_memI)
    then have "?r' \<in> set (a_runs ?a')" by simp
    moreover have "\<not> is_terminal_run_status (r_status ?r')" by simp
    ultimately show ?thesis unfolding is_application_terminal_def by (intro notI) (drule (1) bspec, simp)
  qed
  have mem: "?a \<in> set (p_applications p)" using i by simp
  have sums: "sum_list (map completed_in ((p_applications p)[i := ?a'])) = sum_list (map completed_in (p_applications p))"
    "sum_list (map dispatched_in ((p_applications p)[i := ?a'])) =
       sum_list (map dispatched_in (p_applications p)) + (if r_status ?r = JStr ''queued'' then 1 else 0)"
    "sum_list (map (\<lambda>a. length (a_runs a)) ((p_applications p)[i := ?a'])) = sum_list (map (\<lambda>a. length (a_runs a)) (p_applications p))"
    using sum_list_update_nat[OF i, of completed_in ?a'] sum_list_update_nat[OF i, of dispatched_in ?a']
      sum_list_update_nat[OF i, of "\<lambda>a. length (a_runs a)" ?a'] c d by simp_all
  have each: "\<forall>a \<in> set ((p_applications p)[i := ?a']). a_runsTotal a = length (a_runs a) \<and> a_runsCompleted a = completed_in a"
    using inv mem c by (auto simp: counters_ok_def dest!: subsetD[OF set_update_subset_insert])
  show ?thesis
    using inv sums each terminal_ids_nonterminal_update[OF i nta nta']
    unfolding record_dispatched_run_def Let_def ij counters_ok_def by simp
qed

subsection \<open>The initial document\<close>

lemma initial_lineage:
  "lineage (build_initial_progress uuid5 b job cvs n t) =
     map (\<lambda>cv. (cv_applicationId cv, cv_documentId cv,
               map (\<lambda>i. (mint_run_id uuid5 b (cv_applicationId cv) i, i)) [0..<n])) cvs"
  by (simp add: lineage_def build_initial_progress_def initial_application_def initial_run_def comp_def)

lemma initial_runs_fresh:
  assumes "a \<in> set (p_applications (build_initial_progress uuid5 b job cvs n t))" "r \<in> set (a_runs a)"
  shows "r_status r = JStr ''queued''" "r_dispatchedAt r = None" "r_completedAt r = None"
  using assms by (auto simp: build_initial_progress_def initial_application_def initial_run_def)

lemma initial_not_terminal:
  assumes "0 < n" and "a \<in> set (p_applications (build_initial_progress uuid5 b job cvs n t))"
  shows "\<not> is_application_terminal a"
proof -
  from assms have "a_runs a \<noteq> []"
    by (auto simp: build_initial_progress_def initial_application_def)
  then obtain r where r: "r \<in> set (a_runs a)" by (cases "a_runs a") auto
  with initial_runs_fresh(1)[OF assms(2)] have "\<not> is_terminal_run_status (r_status r)" by simp
  with r show ?thesis by (auto simp: is_application_terminal_def)
qed

lemma counters_initial:
  assumes "0 < n"
  shows "counters_ok (build_initial_progress uuid5 b job cvs n t)"
proof -
  let ?p = "build_initial_progress uuid5 b job cvs n t"
  have fields: "p_cvsTotal ?p = length (p_applications ?p)" "p_runsTotal ?p = length cvs * n"
    "p_runsCompleted ?p = 0" "p_runsDispatched ?p = 0" "p_cvsCompleted ?p = 0"
    by (simp_all add: build_initial_progress_def)
  have ids: "terminal_ids (p_applications ?p) = []"
    using initial_not_terminal[OF assms] by (simp add: terminal_ids_def filter_empty_conv)
  have zero: "completed_in a = 0" "dispatched_in a = 0" if "a \<in> set (p_applications ?p)" for a
    using initial_runs_fresh[OF that] by (simp_all add: completed_in_def dispatched_in_def)
  then have sums: "sum_list (map completed_in (p_applications ?p)) = 0"
    "sum_list (map dispatched_in (p_applications ?p)) = 0"
    by (simp_all add: sum_list_0)
  have total: "sum_list (map (\<lambda>a. length (a_runs a)) (p_applications ?p)) = length cvs * n"
    by (simp add: build_initial_progress_def initial_application_def comp_def sum_list_triv)
  have each: "\<forall>a \<in> set (p_applications ?p). a_runsTotal a = length (a_runs a) \<and> a_runsCompleted a = completed_in a"
  proof
    fix a
    assume a: "a \<in> set (p_applications ?p)"
    then have "a_runsTotal a = length (a_runs a) \<and> a_runsCompleted a = 0"
      by (auto simp: build_initial_progress_def initial_application_def)
    with zero(1)[OF a] show "a_runsTotal a = length (a_runs a) \<and> a_runsCompleted a = completed_in a" by simp
  qed
  show ?thesis unfolding counters_ok_def fields sums ids total using each by simp
qed

subsection \<open>Bounds the counters satisfy\<close>

lemma completed_in_le: "completed_in a \<le> length (a_runs a)"
  by (simp add: completed_in_def)

lemma dispatched_in_le: "dispatched_in a \<le> length (a_runs a)"
  by (simp add: dispatched_in_def)

lemma terminal_ids_le: "length (terminal_ids apps) \<le> length apps"
  unfolding terminal_ids_def
  by (metis length_filter_le length_map length_remdups_leq order_trans)

lemma counters_bounds:
  assumes "counters_ok p"
  shows "p_runsCompleted p \<le> p_runsTotal p" "p_runsDispatched p \<le> p_runsTotal p"
    "p_cvsCompleted p \<le> p_cvsTotal p"
  using assms terminal_ids_le
  by (auto simp: counters_ok_def intro: sum_list_le_pointwise completed_in_le dispatched_in_le)

lemma terminal_ids_all:
  assumes "\<forall>a \<in> set apps. is_application_terminal a" and "distinct (map a_applicationId apps)"
  shows "length (terminal_ids apps) = length apps"
  using assms by (simp add: terminal_ids_def distinct_remdups_id)

end
