(* ===== verification/LiveEvents.thy ===== *)
theory LiveEvents
  imports ProgressLaws
begin

text \<open>
  Live progress events: \<^verbatim>\<open>build_live_progress_event\<close> of
  \<^verbatim>\<open>runtime/events.py\<close>, the event builders of
  \<^verbatim>\<open>orchestrator/functions/fanout/__init__.py\<close>, and the projection to SignalR with
  its fallbacks. Metrics, spans and log lines are left out. An event dict is a record; the
  nested dicts of the event are records too.
\<close>

subsection \<open>The event document\<close>

record submission_ref =
  sr_submissionId :: string
  sr_batchId :: string
  sr_jobId :: "string option"
  sr_status :: string

record application_ref =
  ar_applicationId :: string
  ar_documentId :: string
  ar_status :: string

record run_ref =
  rr_runId :: json
  rr_runIndex :: nat
  rr_status :: json
  rr_artifactCount :: nat

record progress_ref =
  pr_status :: string
  pr_cvsCompleted :: nat
  pr_cvsTotal :: nat
  pr_runsCompleted :: nat
  pr_runsDispatched :: nat
  pr_runsTotal :: nat
  pr_lastUpdatedAt :: string

record live_event =
  ev_specVersion :: string
  ev_eventType :: string
  ev_sequence :: nat
  ev_occurredAt :: string
  ev_submission :: submission_ref
  ev_application :: "application_ref option"
  ev_run :: "run_ref option"
  ev_progress :: progress_ref
  ev_artifacts :: json
  ev_correlationId :: json
  ev_traceparent :: json
  ev_fallbackMode :: string
  ev_pollUrl :: string

text \<open>
  \<^verbatim>\<open>_find_application_run\<close> of \<^verbatim>\<open>runtime/events.py\<close>: the pair of blocks, or
  nothing for a falsy or unknown run id.
\<close>

definition event_application_run :: "progress \<Rightarrow> json \<Rightarrow> (application \<times> run_state) option" where
  "event_application_run p run_id =
     (if \<not> truthy run_id then None
      else case find_application_run (p_applications p) run_id of
        None \<Rightarrow> None
      | Some (i, j) \<Rightarrow> Some (p_applications p ! i, a_runs (p_applications p ! i) ! j))"

definition build_live_progress_event ::
  "string \<Rightarrow> progress \<Rightarrow> string \<Rightarrow> nat \<Rightarrow> json \<Rightarrow> json \<Rightarrow> json \<Rightarrow> json option \<Rightarrow> live_event result" where
  "build_live_progress_event etype p t sq cid tp run_id arts =
     (let batch_id = str_or (p_batchId p) (p_submissionId p);
          found = event_application_run p run_id;
          event_artifacts = (case arts of Some v \<Rightarrow> v
            | None \<Rightarrow> py_or (case found of None \<Rightarrow> JNull
                             | Some (a, r) \<Rightarrow> (case r_artifacts r of None \<Rightarrow> JNull | Some v \<Rightarrow> v))
                            (JList []))
      in if found = None \<and> truthy run_id then Inl AttributeError
         else Inr
           \<lparr>ev_specVersion = ''awr.platform.progress.v1'', ev_eventType = etype,
            ev_sequence = sq, ev_occurredAt = t,
            ev_submission = \<lparr>sr_submissionId = str_or (p_submissionId p) batch_id,
              sr_batchId = batch_id, sr_jobId = p_jobId p, sr_status = p_status p\<rparr>,
            ev_application = map_option (\<lambda>(a, r). \<lparr>ar_applicationId = a_applicationId a,
              ar_documentId = a_documentId a, ar_status = a_status a\<rparr>) found,
            ev_run = map_option (\<lambda>(a, r). \<lparr>rr_runId = py_or (JStr (r_runId r)) run_id,
              rr_runIndex = r_runIndex r, rr_status = r_status r,
              rr_artifactCount = r_artifactCount r\<rparr>) found,
            ev_progress = \<lparr>pr_status = p_status p, pr_cvsCompleted = p_cvsCompleted p,
              pr_cvsTotal = p_cvsTotal p, pr_runsCompleted = p_runsCompleted p,
              pr_runsDispatched = p_runsDispatched p, pr_runsTotal = p_runsTotal p,
              pr_lastUpdatedAt = p_lastUpdatedAt p\<rparr>,
            ev_artifacts = event_artifacts, ev_correlationId = cid, ev_traceparent = tp,
            ev_fallbackMode = ''poll'',
            ev_pollUrl = ''/assess/batch/'' @ batch_id @ ''/status''\<rparr>)"

subsection \<open>The builders of the orchestrator\<close>

definition build_run_completed_live_event ::
  "progress \<Rightarrow> string \<Rightarrow> nat \<Rightarrow> json \<Rightarrow> json \<Rightarrow> dict \<Rightarrow> live_event result" where
  "build_run_completed_live_event p t sq cid tp rr =
     bind_res (dindex rr ''run_id'') (\<lambda>run_id.
       build_live_progress_event ''run.completed'' p t sq
         (JStr (py_str (py_or (dget rr ''correlation_id'') cid)))
         (JStr (py_str (py_or (dget rr ''traceparent'') tp)))
         run_id (Some (py_or (dget rr ''artifacts'') (JList []))))"

definition build_run_terminal_live_event ::
  "progress \<Rightarrow> string \<Rightarrow> nat \<Rightarrow> json \<Rightarrow> json \<Rightarrow> dict \<Rightarrow> live_event result" where
  "build_run_terminal_live_event p t sq cid tp rr =
     bind_res (dindex rr ''run_id'') (\<lambda>run_id.
       build_live_progress_event (terminal_run_event_type (dget rr ''status'')) p t sq
         (JStr (py_str (py_or (dget rr ''correlation_id'') cid)))
         (JStr (py_str (py_or (dget rr ''traceparent'') tp)))
         run_id (Some (py_or (dget rr ''artifacts'') (JList []))))"

definition build_application_terminal_live_event ::
  "progress \<Rightarrow> string \<Rightarrow> nat \<Rightarrow> json \<Rightarrow> json \<Rightarrow> string \<Rightarrow> live_event result" where
  "build_application_terminal_live_event p t sq cid tp app_id =
     (case find_application p app_id of
        None \<Rightarrow> Inl (KeyError (''application '' @ app_id @ '' not found''))
      | Some app \<Rightarrow>
          build_live_progress_event ''application.completed'' p t sq cid tp
            (case List.find (\<lambda>r. r_runId r \<noteq> []) (a_runs app) of
               None \<Rightarrow> JNull | Some r \<Rightarrow> JStr (r_runId r)) None)"

definition build_batch_terminal_live_event ::
  "progress \<Rightarrow> string \<Rightarrow> nat \<Rightarrow> json \<Rightarrow> json \<Rightarrow> live_event result" where
  "build_batch_terminal_live_event p t sq cid tp =
     build_live_progress_event
       (if is_cancelled_batch p then ''batch.cancelled'' else ''batch.completed'') p t sq cid tp JNull None"

text \<open>
  The custom status of an instance is the last progress document the orchestrator published,
  or nothing yet.
\<close>

definition progress_for_status_event :: "string \<Rightarrow> progress option \<Rightarrow> string \<Rightarrow> string \<Rightarrow> progress" where
  "progress_for_status_event instance_id custom status t =
     (let p = (case custom of Some q \<Rightarrow> q
        | None \<Rightarrow> \<lparr>p_submissionId = instance_id, p_batchId = instance_id, p_jobId = None,
            p_status = '''', p_cvsCompleted = 0, p_cvsTotal = 0, p_runsCompleted = 0,
            p_runsDispatched = 0, p_runsTotal = 0, p_lastUpdatedAt = '''', p_applications = []\<rparr>)
      in p\<lparr>p_submissionId := str_or (p_submissionId p) instance_id,
           p_batchId := str_or (p_batchId p) instance_id,
           p_status := status, p_lastUpdatedAt := t\<rparr>)"

definition build_batch_state_live_event ::
  "string \<Rightarrow> progress option \<Rightarrow> string \<Rightarrow> string \<Rightarrow> string \<Rightarrow> string \<Rightarrow> string \<Rightarrow> live_event result" where
  "build_batch_state_live_event instance_id custom status etype t cid tp =
     (let p = progress_for_status_event instance_id custom status t
      in build_live_progress_event etype p t (next_event_sequence p) (JStr cid) (JStr tp) JNull None)"

subsection \<open>Laws of the builders\<close>

lemma build_event_known_run:
  assumes "find_application_run (p_applications p) (JStr x) = Some (i, j)"
  shows "\<exists>ev. build_live_progress_event etype p t sq cid tp (JStr x) arts = Inr ev"
  using assms by (simp add: build_live_progress_event_def event_application_run_def Let_def)

lemma build_event_no_run:
  "\<exists>ev. build_live_progress_event etype p t sq cid tp JNull arts = Inr ev"
  by (simp add: build_live_progress_event_def event_application_run_def Let_def)

lemma build_event_unknown_run:
  assumes "truthy v" and "find_application_run (p_applications p) v = None"
  shows "build_live_progress_event etype p t sq cid tp v arts = Inl AttributeError"
  using assms by (simp add: build_live_progress_event_def event_application_run_def Let_def)

lemma build_event_fields:
  assumes "build_live_progress_event etype p t sq cid tp v arts = Inr ev"
  shows "ev_sequence ev = sq" "ev_eventType ev = etype" "ev_occurredAt ev = t"
    "ev_correlationId ev = cid" "ev_traceparent ev = tp"
    "pr_runsCompleted (ev_progress ev) = p_runsCompleted p"
    "pr_runsTotal (ev_progress ev) = p_runsTotal p"
  using assms by (auto simp: build_live_progress_event_def Let_def split: if_splits)

lemma build_event_lineage:
  assumes "build_live_progress_event etype p t sq cid tp (JStr x) arts = Inr ev" and "x \<noteq> []"
  shows "\<exists>i j. i < length (p_applications p) \<and> j < length (a_runs (p_applications p ! i)) \<and>
     r_runId (run_at p i j) = x \<and>
     map_option ar_applicationId (ev_application ev) = Some (a_applicationId (p_applications p ! i)) \<and>
     map_option rr_runId (ev_run ev) = Some (JStr x) \<and>
     map_option rr_runIndex (ev_run ev) = Some (r_runIndex (run_at p i j))"
proof (cases "find_application_run (p_applications p) (JStr x)")
  case None
  with assms show ?thesis by (simp add: build_event_unknown_run)
next
  case (Some ij)
  then obtain i j where ij: "find_application_run (p_applications p) (JStr x) = Some (i, j)"
    by (cases ij) simp
  with assms find_application_run_SomeD[OF ij] show ?thesis
    by (intro exI[of _ i] exI[of _ j])
       (auto simp: build_live_progress_event_def event_application_run_def Let_def run_at_def py_or_def)
qed

end
