(* ===== verification/JsonLaws.thy ===== *)
theory JsonLaws
  imports JsonText
begin

text \<open>
  Round trip of the JSON text: what \<^verbatim>\<open>json.dumps\<close> prints of a value without floats,
  whose objects have no repeated key, \<^verbatim>\<open>json.loads\<close> reads back. The scanner never
  needs more fuel than twice the length of the text.
\<close>

subsection \<open>Strings\<close>

lemma codept_digit: "d < 10 \<Longrightarrow> codept (digit_char d) = 48 + d" "\<not> d < 10 \<Longrightarrow> d < 16 \<Longrightarrow> codept (digit_char d) = 87 + d"
  by (simp_all add: digit_char_def codept_def)

lemma is_digit_char: "is_digit (digit_char d) \<longleftrightarrow> d < 10" if "d < 16"
  using that codept_digit[of d] by (cases "d < 10") (simp_all add: is_digit_def)

lemma hex_digit: "d < 16 \<Longrightarrow> hex_value (digit_char d) = Some d"
  using codept_digit[of d] is_digit_char[of d] by (cases "d < 10") (simp_all add: hex_value_def Let_def)

lemma codept_bound: "codept c < 256"
  by (simp add: codept_def)

lemma codept_char_of: "char_of (codept c) = c"
  by (simp add: codept_def)

lemma codept_eq_iff: "codept c = codept d \<longleftrightarrow> c = d"
  by (metis codept_char_of)

lemma scan_escape_hex:
  "scan_escape (CHR ''u'' # CHR ''0'' # CHR ''0'' # digit_char (codept c div 16) # digit_char (codept c mod 16) # t) = Some (c, t)"
proof -
  have "hex_value CHR ''0'' = Some 0" by (simp add: hex_value_def is_digit_def codept_def)
  moreover have "codept c div 16 < 16" using codept_bound[of c] by simp
  ultimately show ?thesis
    by (simp add: hex_digit codept_char_of)
qed

lemma scan_escaped: "scan_string (json_escape c @ t) = map_option (apfst ((#) c)) (scan_string t)"
proof (cases "c \<in> {CHR 0x22, CHR 0x5C, CHR 0x0A, CHR 0x0D, CHR 0x09, CHR 0x0C, CHR 0x08}")
  case True
  then show ?thesis by (auto simp: json_escape_def)
next
  case False
  show ?thesis
  proof (cases "32 \<le> codept c \<and> codept c \<le> 126")
    case True
    with False show ?thesis by (simp add: json_escape_def)
  next
    case esc: False
    with False have "json_escape c =
        CHR 0x5C # [CHR ''u'', CHR ''0'', CHR ''0'', digit_char (codept c div 16), digit_char (codept c mod 16)]"
      by (simp add: json_escape_def)
    with scan_escape_hex[of c t] show ?thesis by (simp del: scan_escape.simps)
  qed
qed

lemma scan_json_str: "scan_string (concat (map json_escape s) @ CHR 0x22 # t) = Some (s, t)"
  by (induction s) (simp_all add: scan_escaped)

subsection \<open>Numbers\<close>

lemma digits_value_snoc: "digits_value (ds @ [c]) = 10 * digits_value ds + (int (codept c) - 48)"
  by (simp add: digits_value_def)

lemma nat_digits_split: "\<not> n < 10 \<Longrightarrow> nat_digits n = nat_digits (n div 10) @ [digit_char (n mod 10)]"
  by (simp add: nat_digits.simps[of n])

lemma digits_value_nat: "digits_value (nat_digits n) = int n"
proof (induction n rule: nat_digits.induct)
  case (1 n)
  show ?case
  proof (cases "n < 10")
    case True
    then show ?thesis by (simp add: nat_digits.simps[of n] digits_value_def codept_digit)
  next
    case False
    have "10 * int (n div 10) + int (n mod 10) = int n" by presburger
    with 1 False show ?thesis by (simp add: nat_digits_split digits_value_snoc codept_digit)
  qed
qed

lemma nat_digits_digits: "c \<in> set (nat_digits n) \<Longrightarrow> is_digit c"
  using nat_digits_chars[of c n] is_digit_char by fastforce

lemma nat_digits_cons: "0 < n \<Longrightarrow> \<exists>c t. nat_digits n = c # t \<and> is_digit c \<and> c \<noteq> CHR ''0''"
proof (induction n rule: nat_digits.induct)
  case (1 n)
  show ?case
  proof (cases "n < 10")
    case True
    have "codept CHR ''0'' = 48" by (simp add: codept_def)
    with True 1 codept_digit(1)[OF True] have "digit_char n \<noteq> CHR ''0''" by force
    with True show ?thesis by (simp add: nat_digits.simps[of n] is_digit_char)
  next
    case False
    then have "0 < n div 10" by simp
    from 1(1)[OF False this] show ?thesis by (auto simp: nat_digits_split[OF False])
  qed
qed

text \<open>What may follow a value in printed text.\<close>

definition follows :: "string \<Rightarrow> bool" where
  "follows r \<longleftrightarrow> r = [] \<or> hd r \<in> {CHR '','', CHR '']'', CHR ''}''}"

lemma follows_number:
  assumes "follows r"
  shows "fraction r = ([], r)" "exponent r = ([], r)" "takeWhile is_digit r = []" "dropWhile is_digit r = r"
proof -
  have "\<not> is_digit CHR '',''" "\<not> is_digit CHR '']''" "\<not> is_digit CHR ''}''" by (simp_all add: is_digit_def codept_def)
  then show "fraction r = ([], r)" "exponent r = ([], r)" "takeWhile is_digit r = []" "dropWhile is_digit r = r"
    using assms by (cases r; auto simp: follows_def fraction_def exponent_def Let_def split: list.splits)+
qed

lemma finish_int: "follows r \<Longrightarrow> finish_number pf neg ds r = Some (JInt (if neg then - digits_value ds else digits_value ds), r)"
  by (simp add: finish_number_def follows_number)

lemma scan_nat:
  assumes "follows r"
  shows "scan_digits pf neg (nat_digits n @ r) = Some (JInt (if neg then - int n else int n), r)"
proof (cases "n = 0")
  case True
  have "codept (digit_char 0) = codept CHR ''0''" by (simp add: codept_digit) (simp add: codept_def)
  then have "digit_char 0 = CHR ''0''" by (simp only: codept_eq_iff)
  then show ?thesis
    using finish_int[OF assms, of pf neg "''0''"]
    by (simp add: True nat_digits.simps[of 0] scan_digits_def digits_value_def codept_def)
next
  case False
  then obtain c t where ct: "nat_digits n = c # t" "is_digit c" "c \<noteq> CHR ''0''" using nat_digits_cons[of n] by blast
  have "takeWhile is_digit (nat_digits n @ r) = nat_digits n" "dropWhile is_digit (nat_digits n @ r) = r"
    using follows_number(3,4)[OF assms] nat_digits_digits[of _ n]
    by (simp_all add: takeWhile_append dropWhile_append)
  then have "scan_digits pf neg (nat_digits n @ r) = finish_number pf neg (nat_digits n) r"
    using ct by (simp add: scan_digits_def)
  then show ?thesis by (simp add: finish_int[OF assms] digits_value_nat)
qed

lemma not_minus: "is_digit c \<Longrightarrow> c \<noteq> CHR ''-''"
  by (auto simp: is_digit_def codept_def)

lemma nat_digits_head: "\<exists>c t. nat_digits n = c # t \<and> is_digit c"
proof (cases "n = 0")
  case True
  have "nat_digits 0 = [digit_char 0]" by (simp add: nat_digits.simps[of 0])
  then show ?thesis using True is_digit_char[of 0] by simp
qed (use nat_digits_cons in blast)

lemma scan_int: "follows r \<Longrightarrow> scan_number pf (int_str n @ r) = Some (JInt n, r)"
proof (cases "n < 0")
  case False
  assume r: "follows r"
  obtain c t where ct: "nat_digits (nat n) = c # t" "is_digit c" using nat_digits_head[of "nat n"] by blast
  then have "scan_number pf (nat_digits (nat n) @ r) = scan_digits pf False (nat_digits (nat n) @ r)"
    using not_minus by (auto simp: scan_number_def)
  then show ?thesis using False scan_nat[OF r] by (simp add: int_str_def)
qed (simp add: scan_nat scan_number_def int_str_def)

lemma int_str_head: "\<exists>c t. int_str n = c # t \<and> (is_digit c \<or> c = CHR ''-'' \<and> (\<exists>d t'. t = d # t' \<and> is_digit d))"
  using nat_digits_head[of "nat n"] nat_digits_head[of "nat (- n)"] by (auto simp: int_str_def)

lemma digit_not: "is_digit c \<Longrightarrow> c \<notin> {CHR 0x22, CHR ''{'', CHR ''['', CHR ''n'', CHR ''t'', CHR ''f'', CHR ''N'', CHR ''I'', CHR ''-''}"
  by (auto simp: is_digit_def codept_def)

lemma scan_word_int: "follows r \<Longrightarrow> scan_word pf (int_str n @ r) = Some (JInt n, r)"
  using int_str_head[of n] digit_not scan_int[of r pf n] by (auto simp: scan_word_def word_at_def)

text \<open>The text of a float is a number literal with a fraction or an exponent.\<close>

definition float_text :: "string \<Rightarrow> bool" where
  "float_text t \<longleftrightarrow> scan_number (\<lambda>u. Some (JStr u)) t = Some (JStr t, [])"

lemma digits_before:
  assumes "follows r"
  shows "takeWhile is_digit (s @ r) = takeWhile is_digit s" "dropWhile is_digit (s @ r) = dropWhile is_digit s @ r"
  using follows_number(3,4)[OF assms] by (induction s) simp_all

lemma fraction_before: "follows r \<Longrightarrow> fraction (s @ r) = (fst (fraction s), snd (fraction s) @ r)"
  by (cases s) (simp_all add: fraction_def digits_before follows_number(1)[unfolded fraction_def])

lemma exponent_before:
  assumes "follows r"
  shows "exponent (s @ r) = (fst (exponent s), snd (exponent s) @ r)"
proof -
  have signs: "CHR ''+'' \<notin> {CHR '','', CHR '']'', CHR ''}''}" "CHR ''-'' \<notin> {CHR '','', CHR '']'', CHR ''}''}" by simp_all
  consider "s = []" | c where "s = [c]" | c x u where "s = c # x # u" by (cases s; cases "tl s") auto
  then show ?thesis
  proof cases
    case 1
    then show ?thesis using follows_number(2)[OF assms] by (simp add: exponent_def)
  next
    case 2
    have "exponent (c # r) = ([], c # r)"
      using assms signs follows_number(3)[OF assms] by (cases r) (auto simp: exponent_def follows_def)
    with 2 show ?thesis by (simp add: exponent_def)
  next
    case 3
    then show ?thesis
      using digits_before[OF assms, of u] digits_before[OF assms, of "x # u"] by (simp add: exponent_def Let_def)
  qed
qed

lemma finish_before:
  "follows r \<Longrightarrow> finish_number pf neg ds (s @ r) = map_option (apsnd (\<lambda>q. q @ r)) (finish_number pf neg ds s)"
  by (simp add: finish_number_def fraction_before exponent_before split_def Let_def option.map_comp comp_def)

lemma scan_number_before:
  assumes "follows r"
  shows "scan_number pf (s @ r) = map_option (apsnd (\<lambda>q. q @ r)) (scan_number pf s)"
proof -
  have h: "r = [] \<or> hd r \<noteq> CHR ''-'' \<and> hd r \<noteq> CHR ''0'' \<and> \<not> is_digit (hd r)"
    using assms by (auto simp: follows_def is_digit_def codept_def)
  have d: "scan_digits pf neg (u @ r) = map_option (apsnd (\<lambda>q. q @ r)) (scan_digits pf neg u)" for neg u
  proof (cases u)
    case Nil
    with h show ?thesis by (cases r) (simp_all add: scan_digits_def)
  next
    case (Cons c v)
    then show ?thesis using digits_before[OF assms, of v] by (simp add: scan_digits_def finish_before[OF assms])
  qed
  show ?thesis
  proof (cases s)
    case Nil
    with h d[of _ "[]"] show ?thesis by (cases r) (simp_all add: scan_number_def scan_digits_def)
  qed (use d[of True "tl s"] d[of False s] in \<open>simp add: scan_number_def\<close>)
qed

lemma finish_float: "finish_number (\<lambda>u. Some (JStr u)) neg ds s = Some (JStr t, r) \<Longrightarrow>
    finish_number pf neg ds s = map_option (\<lambda>v. (v, r)) (pf t)"
  by (auto simp: finish_number_def split_def Let_def split: if_splits)

lemma scan_float:
  assumes "scan_number (\<lambda>u. Some (JStr u)) s = Some (JStr t, r)"
  shows "scan_number pf s = map_option (\<lambda>v. (v, r)) (pf t)" and "\<exists>c u. s = c # u \<and> (is_digit c \<or> c = CHR ''-'' \<and> (\<exists>d u'. u = d # u' \<and> is_digit d))"
proof -
  have zero: "is_digit CHR ''0''" by (simp add: is_digit_def codept_def)
  have d: "scan_digits pf neg u = map_option (\<lambda>v. (v, r)) (pf t) \<and> (\<exists>c w. u = c # w \<and> is_digit c)"
    if "scan_digits (\<lambda>u. Some (JStr u)) neg u = Some (JStr t, r)" for neg u
    using that finish_float[of neg _ _ t r pf] zero by (cases u) (auto simp: scan_digits_def split: if_splits)
  from assms d show "scan_number pf s = map_option (\<lambda>v. (v, r)) (pf t)"
    by (auto simp: scan_number_def split: list.splits if_splits)
  from assms d show "\<exists>c u. s = c # u \<and> (is_digit c \<or> c = CHR ''-'' \<and> (\<exists>d u'. u = d # u' \<and> is_digit d))"
    by (fastforce simp: scan_number_def split: list.splits if_splits)
qed

lemma scan_word_float:
  assumes "float_text t" and "follows r"
  shows "scan_word pf (t @ r) = map_option (\<lambda>v. (v, r)) (pf t)"
proof -
  note f = scan_float[OF assms(1)[unfolded float_text_def]]
  from f(1)[of pf] have "scan_number pf (t @ r) = map_option (\<lambda>v. (v, r)) (pf t)"
    by (simp add: scan_number_before[OF assms(2)] option.map_comp comp_def)
  with f(2) digit_not show ?thesis by (auto simp: scan_word_def word_at_def)
qed

subsection \<open>Enough fuel\<close>

lemma scan_string_shrinks: "scan_string s = Some (x, r) \<Longrightarrow> length r < length s"
proof (induction s arbitrary: x r rule: scan_string.induct)
  case (2 c s)
  then show ?case
    by (auto split: if_splits option.splits dest!: scan_escape_shrinks) fastforce+
qed simp

lemma json_space_simps [simp]:
  "json_space CHR '' ''" "\<not> json_space CHR '',''" "\<not> json_space CHR '':''" "\<not> json_space CHR '']''" "\<not> json_space CHR ''}''"
  by (simp_all add: json_space_def)

lemma skip_ws_le: "length (skip_ws s) \<le> length s"
  by (rule length_dropWhile_le)

lemma fraction_le: "length (snd (fraction s)) \<le> length s"
  by (auto simp: fraction_def length_dropWhile_le le_SucI split: list.split)

lemma exponent_le: "length (snd (exponent s)) \<le> length s"
proof (cases s)
  case Nil
  then show ?thesis by (simp add: exponent_def)
next
  case (Cons c r)
  have "length (dropWhile is_digit r') \<le> length r'" for r' by (rule length_dropWhile_le)
  from this[of "tl r"] this[of r] show ?thesis
    by (cases r) (auto simp: Cons exponent_def Let_def)
qed

lemma finish_number_le: "finish_number pf neg ds s = Some (v, r) \<Longrightarrow> length r \<le> length s"
  using fraction_le[of s] exponent_le[of "snd (fraction s)"]
  by (auto simp: finish_number_def Let_def split: prod.splits if_splits)

lemma scan_number_shrinks:
  assumes "scan_number pf s = Some (v, r)"
  shows "length r < length s"
proof -
  have le: "length (dropWhile is_digit s') \<le> length s'" for s' by (rule length_dropWhile_le)
  have sd: "length r < length s'" if d: "scan_digits pf neg s' = Some (v, r)" for neg s'
  proof (cases s')
    case (Cons c t)
    show ?thesis
    proof (cases "c = CHR ''0''")
      case True
      with d Cons finish_number_le[of pf neg "''0''" t v r] show ?thesis by (simp add: scan_digits_def)
    next
      case False
      with d Cons have f: "is_digit c" "finish_number pf neg (takeWhile is_digit s') (dropWhile is_digit s') = Some (v, r)"
        by (simp_all add: scan_digits_def split: if_splits)
      then have "length r \<le> length (dropWhile is_digit s')" using finish_number_le by blast
      also have "\<dots> \<le> length t" using le[of t] f(1) by (simp add: Cons)
      finally show ?thesis by (simp add: Cons)
    qed
  qed (use d in \<open>simp add: scan_digits_def\<close>)
  from assms show ?thesis
    by (cases s) (auto simp: scan_number_def split: if_splits dest!: sd)
qed

lemma scan_word_shrinks: "scan_word pf s = Some (v, r) \<Longrightarrow> length r < length s"
  using scan_number_shrinks[of pf s v r]
  by (cases s) (auto simp: scan_word_def word_at_def split: if_splits)

lemma scan_key_shrinks: "scan_key s = Some (k, r) \<Longrightarrow> length r < length s"
proof -
  assume k: "scan_key s = Some (k, r)"
  then obtain c s1 r1 x r2 where r: "s = c # s1" "scan_string s1 = Some (k, r1)" "skip_ws r1 = x # r2" "r = skip_ws r2"
    by (auto simp: scan_key_def split: list.splits if_splits option.splits)
  from skip_ws_le[of r1] skip_ws_le[of r2] scan_string_shrinks[OF r(2)] show ?thesis by (simp add: r)
qed

lemma scan_shrinks:
  "scan_value pf n s = Some (v, r) \<Longrightarrow> length r < length s"
  "scan_items pf n s = Some (vs, r) \<Longrightarrow> length r < length s"
  "scan_pairs pf n s = Some (ps, r) \<Longrightarrow> length r < length s"
proof (induction pf n s and pf n s and pf n s arbitrary: v r and vs r and ps r rule: scan_value_scan_items_scan_pairs.induct)
  case (2 pf n s)
  then obtain c t where s: "s = c # t" by (cases s) auto
  consider "c = CHR 0x22" | "c = CHR ''{''" | "c = CHR ''[''" | "c \<notin> {CHR 0x22, CHR ''{'', CHR ''[''}" by blast
  then show ?case
  proof cases
    case 1
    with 2(3) show ?thesis by (auto simp: s dest!: scan_string_shrinks)
  next
    case c: 2
    from 2(3) obtain x t' where t: "skip_ws t = x # t'" by (auto simp: s c split: list.splits)
    from skip_ws_le[of t] 2(3) 2(1)[OF s _ c t] show ?thesis by (auto simp: s c t split: if_splits)
  next
    case 3
    from 2(3) obtain x t' where t: "skip_ws t = x # t'" by (auto simp: s 3 split: list.splits)
    from skip_ws_le[of t] 2(3) 2(2)[OF s _ _ 3 t] show ?thesis by (auto simp: s 3 t split: if_splits)
  next
    case 4
    with 2(3) show ?thesis by (auto simp: s dest: scan_word_shrinks)
  qed
next
  case (4 pf n s)
  then obtain v' r' x r'' where v: "scan_value pf n s = Some (v', r')" and x: "skip_ws r' = x # r''"
    by (auto split: option.splits list.splits)
  have "length r' < length s" using 4(1)[OF v] .
  then have r: "length r'' < length s" using skip_ws_le[of r'] by (simp add: x)
  from 4(3) consider "r = r''" | us where "x = CHR '',''" "scan_items pf n (skip_ws r'') = Some (us, r)"
    by (auto simp: v x split: if_splits)
  then show ?case
  proof cases
    case 2
    from 4(2)[OF v refl x _ 2] skip_ws_le[of r''] r show ?thesis by (simp add: 2)
  qed (use r in simp)
next
  case (6 pf n s)
  then obtain k s' v' r' x r'' where k: "scan_key s = Some (k, s')" and v: "scan_value pf n s' = Some (v', r')"
    and x: "skip_ws r' = x # r''" by (auto split: option.splits list.splits)
  have "length r' < length s'" using 6(1)[OF k refl v] .
  then have r: "length r'' < length s" using skip_ws_le[of r'] scan_key_shrinks[OF k] by (simp add: x)
  from 6(3) consider "r = r''" | us where "x = CHR '',''" "scan_pairs pf n (skip_ws r'') = Some (us, r)"
    by (auto simp: k v x split: if_splits)
  then show ?case
  proof cases
    case 2
    from 6(2)[OF k refl v refl x _ 2] skip_ws_le[of r''] r show ?thesis by (simp add: 2)
  qed (use r in simp)
qed simp_all

text \<open>If any fuel reads a value, twice the length of the text does.\<close>

lemma scan_enough:
  "scan_value pf n s = Some y \<Longrightarrow> 2 * length s \<le> Suc m \<Longrightarrow> scan_value pf m s = Some y"
  "scan_items pf n s = Some z \<Longrightarrow> 2 * length s \<le> m \<Longrightarrow> scan_items pf m s = Some z"
  "scan_pairs pf n s = Some w \<Longrightarrow> 2 * length s \<le> m \<Longrightarrow> scan_pairs pf m s = Some w"
proof (induction pf n s and pf n s and pf n s arbitrary: m y and m z and m w rule: scan_value_scan_items_scan_pairs.induct)
  case (2 pf n s)
  then obtain c t where s: "s = c # t" by (cases s) auto
  obtain m' where m: "m = Suc m'" "2 * length t \<le> m'" using 2(4) by (cases m) (simp_all add: s)
  show ?case
  proof (cases "c = CHR 0x22 \<or> c \<notin> {CHR ''{'', CHR ''[''}")
    case True
    with 2(3) show ?thesis by (auto simp: s m(1))
  next
    case False
    then have "skip_ws t \<noteq> []" using 2(3) by (auto simp: s simp del: dropWhile_eq_Nil_conv)
    then obtain x t' where t: "skip_ws t = x # t'" by (cases "skip_ws t") blast
    from skip_ws_le[of t] m(2) have le: "2 * length (x # t') \<le> m'" by (simp add: t)
    from False consider "c = CHR ''{''" | "c = CHR ''[''" by blast
    then show ?thesis
    proof cases
      case c: 1
      show ?thesis
      proof (cases "x = CHR ''}''")
        case False
        with 2(3) obtain ps where "scan_pairs pf n (x # t') = Some ps" "y = apfst (\<lambda>ps. JObj (dict_of ps)) ps"
          by (auto simp: s t c)
        with 2(1)[OF s _ c t False _ le] show ?thesis using False by (simp add: s m(1) t c)
      qed (use 2(3) in \<open>simp add: s m(1) t c\<close>)
    next
      case c: 2
      show ?thesis
      proof (cases "x = CHR '']''")
        case False
        with 2(3) obtain xs where "scan_items pf n (x # t') = Some xs" "y = apfst JList xs"
          by (auto simp: s t c)
        with 2(2)[OF s _ _ c t False _ le] show ?thesis using False by (simp add: s m(1) t c)
      qed (use 2(3) in \<open>simp add: s m(1) t c\<close>)
    qed
  qed
next
  case (4 pf n s)
  from 4(3) obtain v r x r' where v: "scan_value pf n s = Some (v, r)" and x: "skip_ws r = x # r'"
    by (auto split: option.splits list.splits)
  have "length r < length s" using scan_shrinks(1)[OF v] .
  then obtain m' where m: "m = Suc m'" "2 * length s \<le> Suc m'" "2 * length (skip_ws r') \<le> m'"
    using 4(4) skip_ws_le[of r] skip_ws_le[of r'] by (cases m) (simp_all add: x)
  note v' = 4(1)[OF v m(2)]
  from 4(3) consider "x = CHR '']''" | us where "x = CHR '',''" "scan_items pf n (skip_ws r') = Some us"
    by (auto simp: v x split: if_splits)
  then show ?case
  proof cases
    case 2
    from 4(2)[OF v refl x _ 2 m(3)] have "scan_items pf m' (skip_ws r') = Some us" by (simp add: 2(1))
    moreover have "z = apfst ((#) v) us" using 4(3) by (simp add: 2 v x)
    ultimately show ?thesis by (simp add: 2(1) v' x m(1))
  qed (use 4(3) v' in \<open>simp add: v x m(1)\<close>)
next
  case (6 pf n s)
  from 6(3) obtain k s' v r x r' where k: "scan_key s = Some (k, s')" and v: "scan_value pf n s' = Some (v, r)"
    and x: "skip_ws r = x # r'" by (auto split: option.splits list.splits)
  have "length r < length s'" "length s' < length s" using scan_shrinks(1)[OF v] scan_key_shrinks[OF k] by simp_all
  then obtain m' where m: "m = Suc m'" "2 * length s' \<le> Suc m'" "2 * length (skip_ws r') \<le> m'"
    using 6(4) skip_ws_le[of r] skip_ws_le[of r'] by (cases m) (simp_all add: x)
  note v' = 6(1)[OF k refl v m(2)]
  from 6(3) consider "x = CHR ''}''" | us where "x = CHR '',''" "scan_pairs pf n (skip_ws r') = Some us"
    by (auto simp: k v x split: if_splits)
  then show ?case
  proof cases
    case 2
    from 6(2)[OF k refl v refl x _ 2 m(3)] have "scan_pairs pf m' (skip_ws r') = Some us" by (simp add: 2(1))
    moreover have "w = apfst ((#) (k, v)) us" using 6(3) by (simp add: 2 k v x)
    ultimately show ?thesis by (simp add: 2(1) k v' x m(1))
  qed (use 6(3) v' in \<open>simp add: k v x m(1)\<close>)
qed simp_all

subsection \<open>Round trip\<close>

text \<open>Values without floats whose objects, like a Python dict, have no key twice.\<close>

fun plain :: "json \<Rightarrow> bool" where
  "plain (JFloat x t) = False"
| "plain (JList xs) = (\<forall>x \<in> set xs. plain x)"
| "plain (JObj d) = (distinct (map fst d) \<and> (\<forall>p \<in> set d. plain (snd p)))"
| "plain v = True"

text \<open>With floats: their texts are read back as those floats.\<close>

fun printed :: "(string \<Rightarrow> json option) \<Rightarrow> json \<Rightarrow> bool" where
  "printed pf (JFloat x t) = (float_text t \<and> pf t = Some (JFloat x t))"
| "printed pf (JList xs) = (\<forall>x \<in> set xs. printed pf x)"
| "printed pf (JObj d) = (distinct (map fst d) \<and> (\<forall>p \<in> set d. printed pf (snd p)))"
| "printed pf v = True"

lemma plain_printed: "plain v \<Longrightarrow> printed pf v"
  by (induction v) auto

lemma dict_of_distinct: "distinct (map fst (d @ e)) \<Longrightarrow> fold (\<lambda>(k, v) d. dset d k v) e d = d @ e"
proof (induction e arbitrary: d)
  case (Cons p e)
  obtain k v where p: "p = (k, v)" by (cases p)
  have "dset d k v = d @ [(k, v)]"
    using Cons.prems by (induction d) (auto simp: dset_def p)
  with Cons.IH[of "d @ [(k, v)]"] Cons.prems show ?case by (simp add: p)
qed simp

definition opens :: "string \<Rightarrow> bool" where
  "opens s \<longleftrightarrow> s \<noteq> [] \<and> \<not> json_space (hd s) \<and> hd s \<notin> {CHR '','', CHR '']'', CHR ''}''}"

lemma digit_opens: "is_digit c \<Longrightarrow> opens (c # s)"
  by (auto simp: opens_def json_space_def is_digit_def codept_def)

lemma dumps_opens: "printed pf v \<Longrightarrow> opens (json_dumps v @ r)"
proof (cases v)
  case (JInt n)
  have "opens (CHR ''-'' # s)" for s by (simp add: opens_def json_space_def)
  with int_str_head[of n] digit_opens show ?thesis by (auto simp: JInt)
next
  case (JFloat x t)
  assume "printed pf v"
  then have "float_text t" by (simp add: JFloat)
  moreover have "opens (CHR ''-'' # s)" for s by (simp add: opens_def json_space_def)
  ultimately show ?thesis using scan_float(2)[of t t "[]"] digit_opens by (auto simp: JFloat float_text_def)
qed (auto simp: opens_def json_space_def json_str_def)

lemma opens_skip: "opens s \<Longrightarrow> skip_ws s = s" "opens s \<Longrightarrow> skip_ws (CHR '' '' # s) = s"
  by (cases s; simp add: opens_def json_space_def)+

lemma scan_key_printed: "opens s \<Longrightarrow> scan_key (json_str k @ CHR '':'' # CHR '' '' # s) = Some (k, s)"
proof -
  assume s: "opens s"
  with s scan_json_str[of k "CHR '':'' # CHR '' '' # s"] show ?thesis
    by (simp add: scan_key_def json_str_def opens_skip)
qed

lemma join_Cons: "xs \<noteq> [] \<Longrightarrow> join sep (x # xs) = x @ sep @ join sep xs"
  by (cases xs) simp_all

lemma items_printed:
  assumes "xs \<noteq> []" and "\<forall>x \<in> set xs. printed pf x"
    and "\<And>x r. x \<in> set xs \<Longrightarrow> follows r \<Longrightarrow> \<exists>n. scan_value pf n (json_dumps x @ r) = Some (x, r)"
  shows "\<exists>n. scan_items pf n (join '', '' (map json_dumps xs) @ CHR '']'' # r) = Some (xs, r)"
  using assms
proof (induction xs)
  case (Cons x xs)
  have f: "follows (CHR '']'' # u)" "follows (CHR '','' # u)" for u by (simp_all add: follows_def)
  show ?case
  proof (cases "xs = []")
    case True
    from Cons.prems(3)[of x, OF _ f(1)] obtain n where "scan_value pf n (json_dumps x @ CHR '']'' # r) = Some (x, CHR '']'' # r)"
      by auto
    then have "scan_items pf (Suc n) (json_dumps x @ CHR '']'' # r) = Some ([x], r)" by simp
    then show ?thesis unfolding True by (auto simp del: scan_items.simps)
  next
    case False
    let ?u = "join '', '' (map json_dumps xs) @ CHR '']'' # r"
    from Cons.IH[OF False] Cons.prems(2,3) obtain n1 where n1: "scan_items pf n1 ?u = Some (xs, r)" by auto
    from Cons.prems(3)[of x, OF _ f(2)] obtain n2 where
      n2: "scan_value pf n2 (json_dumps x @ CHR '','' # CHR '' '' # ?u) = Some (x, CHR '','' # CHR '' '' # ?u)" by auto
    define n where "n = 2 * length (json_dumps x @ CHR '','' # CHR '' '' # ?u)"
    have "scan_value pf n (json_dumps x @ CHR '','' # CHR '' '' # ?u) = Some (x, CHR '','' # CHR '' '' # ?u)"
      by (rule scan_enough(1)[OF n2]) (simp add: n_def)
    moreover have "scan_items pf n ?u = Some (xs, r)" by (rule scan_enough(2)[OF n1]) (simp add: n_def)
    moreover have "opens ?u"
      using False Cons.prems(2) dumps_opens[of pf "hd xs"] by (cases xs rule: list.exhaust; cases "tl xs") (simp_all add: join_Cons)
    ultimately have "scan_items pf (Suc n) (json_dumps x @ CHR '','' # CHR '' '' # ?u) = Some (x # xs, r)"
      by (simp add: opens_skip)
    then show ?thesis using False by (intro exI[of _ "Suc n"]) (simp add: join_Cons del: scan_items.simps)
  qed
qed simp

abbreviation json_pair :: "string \<times> json \<Rightarrow> string" where
  "json_pair \<equiv> \<lambda>(k, v). json_str k @ '': '' @ json_dumps v"

lemma pairs_printed:
  assumes "d \<noteq> []" and "\<forall>p \<in> set d. printed pf (snd p)"
    and "\<And>p r. p \<in> set d \<Longrightarrow> follows r \<Longrightarrow> \<exists>n. scan_value pf n (json_dumps (snd p) @ r) = Some (snd p, r)"
  shows "\<exists>n. scan_pairs pf n (join '', '' (map json_pair d) @ CHR ''}'' # r) = Some (d, r)"
  using assms
proof (induction d)
  case (Cons p d)
  obtain k v where p: "p = (k, v)" by (cases p)
  have f: "follows (CHR ''}'' # u)" "follows (CHR '','' # u)" for u by (simp_all add: follows_def)
  have key: "scan_key (json_str k @ CHR '':'' # CHR '' '' # json_dumps v @ u) = Some (k, json_dumps v @ u)" for u
    using scan_key_printed[OF dumps_opens[of pf v]] Cons.prems(2) p by simp
  show ?case
  proof (cases "d = []")
    case True
    from Cons.prems(3)[of p, OF _ f(1)] obtain n where "scan_value pf n (json_dumps v @ CHR ''}'' # r) = Some (v, CHR ''}'' # r)"
      by (auto simp: p)
    then have "scan_pairs pf (Suc n) (json_str k @ CHR '':'' # CHR '' '' # json_dumps v @ CHR ''}'' # r) = Some ([(k, v)], r)"
      by (simp add: key)
    then show ?thesis unfolding True p by (intro exI[of _ "Suc n"]) (simp del: scan_pairs.simps)
  next
    case False
    let ?u = "join '', '' (map json_pair d) @ CHR ''}'' # r"
    let ?t = "json_dumps v @ CHR '','' # CHR '' '' # ?u"
    from Cons.IH[OF False] Cons.prems(2,3) obtain n1 where n1: "scan_pairs pf n1 ?u = Some (d, r)" by auto
    from Cons.prems(3)[of p, OF _ f(2)] obtain n2 where n2: "scan_value pf n2 ?t = Some (v, CHR '','' # CHR '' '' # ?u)"
      by (auto simp: p)
    define n where "n = 2 * length ?t"
    have "scan_value pf n ?t = Some (v, CHR '','' # CHR '' '' # ?u)"
      by (rule scan_enough(1)[OF n2]) (simp add: n_def)
    moreover have "scan_pairs pf n ?u = Some (d, r)" by (rule scan_enough(3)[OF n1]) (simp add: n_def)
    moreover have "opens ?u"
    proof -
      obtain k' v' d' where "d = (k', v') # d'" using False by (cases d) auto
      moreover have "opens (json_str k' @ u)" for u by (simp add: opens_def json_str_def json_space_def)
      ultimately show ?thesis by (cases d') (simp_all add: join_Cons)
    qed
    ultimately have "scan_pairs pf (Suc n) (json_str k @ CHR '':'' # CHR '' '' # ?t) = Some ((k, v) # d, r)"
      by (simp add: key opens_skip)
    then show ?thesis using False by (intro exI[of _ "Suc n"]) (simp add: join_Cons p del: scan_pairs.simps)
  qed
qed simp

lemma object_printed:
  assumes "printed pf (JObj d)" and "\<And>p r. p \<in> set d \<Longrightarrow> follows r \<Longrightarrow> \<exists>n. scan_value pf n (json_dumps (snd p) @ r) = Some (snd p, r)"
  shows "\<exists>n. scan_value pf n (json_dumps (JObj d) @ r) = Some (JObj d, r)"
proof (cases "d = []")
  case True
  have "scan_value pf (Suc 0) (''{}'' @ r) = Some (JObj [], r)" by simp
  then show ?thesis unfolding True by (intro exI[of _ "Suc 0"]) simp
next
  case False
  from pairs_printed[OF False _ assms(2), of r] assms(1) obtain n where
    n: "scan_pairs pf n (join '', '' (map json_pair d) @ CHR ''}'' # r) = Some (d, r)" by auto
  have "opens (join '', '' (map json_pair d) @ CHR ''}'' # r)"
    using False by (cases d; cases "tl d") (auto simp: join_Cons opens_def json_str_def json_space_def)
  with n dict_of_distinct[of "[]" d] assms(1) have "scan_value pf (Suc n) (json_dumps (JObj d) @ r) = Some (JObj d, r)"
    by (cases "join '', '' (map json_pair d) @ CHR ''}'' # r") (auto simp: opens_def dict_of_def)
  then show ?thesis by blast
qed

lemma json_roundtrip_at:
  "printed pf v \<Longrightarrow> follows r \<Longrightarrow> \<exists>n. scan_value pf n (json_dumps v @ r) = Some (v, r)"
proof (induction v arbitrary: r)
  case (JInt n)
  obtain c t where ct: "int_str n = c # t" "is_digit c \<or> c = CHR ''-''" using int_str_head[of n] by blast
  then have "c \<notin> {CHR 0x22, CHR ''{'', CHR ''[''}" using digit_not[of c] by auto
  with ct scan_word_int[OF JInt(2), of pf n] have "scan_value pf (Suc 0) (int_str n @ r) = Some (JInt n, r)" by simp
  then show ?case by (auto simp del: scan_value.simps)
next
  case (JFloat x t)
  then have t: "float_text t" "pf t = Some (JFloat x t)" by simp_all
  from scan_float(2)[OF t(1)[unfolded float_text_def]] obtain c u where ct: "t = c # u" "is_digit c \<or> c = CHR ''-''" by blast
  then have "c \<notin> {CHR 0x22, CHR ''{'', CHR ''[''}" using digit_not[of c] by auto
  with ct scan_word_float[OF t(1) JFloat(2), of pf] t(2) have "scan_value pf (Suc 0) (t @ r) = Some (JFloat x t, r)" by simp
  then show ?case by (auto simp del: scan_value.simps)
next
  case (JStr s)
  have "scan_value pf (Suc 0) (json_str s @ r) = Some (JStr s, r)"
    using scan_json_str[of s r] by (simp add: json_str_def)
  then show ?case by (auto simp del: scan_value.simps)
next
  case (JList xs)
  show ?case
  proof (cases "xs = []")
    case True
    have "scan_value pf (Suc 0) (''[]'' @ r) = Some (JList [], r)" by simp
    then show ?thesis unfolding True by (intro exI[of _ "Suc 0"]) simp
  next
    case False
    from items_printed[OF False, of pf r] JList obtain n where
      n: "scan_items pf n (join '', '' (map json_dumps xs) @ CHR '']'' # r) = Some (xs, r)" by auto
    have "opens (join '', '' (map json_dumps xs) @ CHR '']'' # r)"
      using False JList.prems(1) dumps_opens[of pf "hd xs"] by (cases xs; cases "tl xs") (simp_all add: join_Cons)
    with n have "scan_value pf (Suc n) (json_dumps (JList xs) @ r) = Some (JList xs, r)"
      by (cases "join '', '' (map json_dumps xs) @ CHR '']'' # r") (auto simp: opens_def)
    then show ?thesis by blast
  qed
next
  case (JObj d)
  have "\<exists>n. scan_value pf n (json_dumps (snd p) @ u) = Some (snd p, u)" if "p \<in> set d" "follows u" for p u
    using JObj that by (cases p) auto
  from object_printed[OF JObj.prems(1) this] show ?case .
next
  case JNull
  have "scan_value pf (Suc 0) (''null'' @ r) = Some (JNull, r)" by (simp add: scan_word_def word_at_def)
  then show ?case by (auto simp del: scan_value.simps)
next
  case (JBool b)
  have "scan_value pf (Suc 0) ((if b then ''true'' else ''false'') @ r) = Some (JBool b, r)"
    by (simp add: scan_word_def word_at_def)
  then show ?case by (auto simp del: scan_value.simps)
qed

lemma json_roundtrip_printed:
  assumes "printed pf v"
  shows "json_loads pf (json_dumps v) = Some v"
proof -
  from json_roundtrip_at[OF assms, of "[]"] obtain n where "scan_value pf n (json_dumps v) = Some (v, [])"
    by (auto simp: follows_def)
  from scan_enough(1)[OF this, of "2 * length (json_dumps v) + 1"] opens_skip(1) dumps_opens[OF assms, of "[]"]
  show ?thesis by (simp add: json_loads_def del: scan_value.simps)
qed

lemma json_roundtrip [simp]: "plain v \<Longrightarrow> json_loads pf (json_dumps v) = Some v"
  by (rule json_roundtrip_printed[OF plain_printed])

text \<open>An object at the start of a text is read whatever follows it.\<close>

lemma raw_decode_object:
  assumes "printed pf (JObj d)"
  shows "raw_decode pf (json_dumps (JObj d) @ r) = Some (JObj d)"
proof -
  have "\<exists>n. scan_value pf n (json_dumps (snd p) @ u) = Some (snd p, u)" if "p \<in> set d" "follows u" for p u
    using json_roundtrip_at[OF _ that(2)] assms that(1) by auto
  from object_printed[OF assms this] obtain n where "scan_value pf n (json_dumps (JObj d) @ r) = Some (JObj d, r)" by blast
  from scan_enough(1)[OF this, of "2 * length (json_dumps (JObj d) @ r) + 1"] show ?thesis
    unfolding raw_decode_def by (simp del: scan_value.simps)
qed

declare json_text.simps [simp del]

end
