(* ===== verification/Orchestrator.thy ===== *)
theory Orchestrator
  imports LiveEvents JsonLaws
begin

text \<open>
  \<^verbatim>\<open>batch_orchestrator\<close> of \<^verbatim>\<open>orchestrator/functions/fanout/__init__.py\<close>. A
  Durable orchestrator is a coroutine the runtime replays; what it computes is a function of
  its input and of what the runtime answers at each \<^verbatim>\<open>yield\<close>. Those answers (the
  outputs of the activities, the clock, which external event completes first) are the
  parameters here. The coroutine is cut at the loop that waits for results: the part before
  the loop is \<open>orch_start\<close>, one turn of the loop is \<open>handle_result\<close>, the part after
  the loop is \<open>orch_finish\<close>, and \<open>orch_step\<close> is the relation of one instance being
  driven by results in whatever order they arrive.
\<close>

subsection \<open>Input, plan and activity inputs\<close>

record orch_input =
  in_batch_id :: string
  in_job_id :: string
  in_run_count :: nat
  in_prompt :: dict
  in_cvs :: "cv_ref list"
  in_correlationId :: json
  in_correlation_id :: json
  in_traceparent :: json

record dispatch_input =
  di_batch_id :: string
  di_job_id :: string
  di_run_id :: string
  di_application_id :: string
  di_document_id :: string
  di_file_name :: string
  di_mime_type :: string
  di_blob_uri :: string
  di_sha256 :: string
  di_run_index :: nat
  di_prompt_blob_uri :: string
  di_correlation_id :: json
  di_traceparent :: json

text \<open>\<^verbatim>\<open>raw.get("correlationId") or raw.get("correlation_id") or ""\<close>, and the traceparent.\<close>

definition input_correlation :: "orch_input \<Rightarrow> json" where
  "input_correlation inp = py_or (py_or (in_correlationId inp) (in_correlation_id inp)) (JStr [])"

definition input_traceparent :: "orch_input \<Rightarrow> json" where
  "input_traceparent inp = py_or (in_traceparent inp) (JStr [])"

text \<open>The two nested loops that create the tasks: one entry per (CV, run), in task order.\<close>

definition run_plan :: "(string \<Rightarrow> string) \<Rightarrow> orch_input \<Rightarrow> (string \<times> cv_ref \<times> nat) list" where
  "run_plan uuid5 inp =
     concat (map (\<lambda>cv. map (\<lambda>i. (mint_run_id uuid5 (in_batch_id inp) (cv_applicationId cv) i, cv, i))
                       [0..<in_run_count inp]) (in_cvs inp))"

definition plan_tasks :: "(string \<times> cv_ref \<times> nat) list \<Rightarrow> string list" where
  "plan_tasks plan = map fst plan"

definition run_index_map :: "(string \<times> cv_ref \<times> nat) list \<Rightarrow> string \<rightharpoonup> string \<times> nat" where
  "run_index_map plan = map_of (rev (map (\<lambda>(x, cv, i). (x, (cv_applicationId cv, i))) plan))"

definition dispatch_input_of :: "orch_input \<Rightarrow> string \<Rightarrow> string \<times> cv_ref \<times> nat \<Rightarrow> dispatch_input" where
  "dispatch_input_of inp uri e =
     (case e of (x, cv, i) \<Rightarrow>
       \<lparr>di_batch_id = in_batch_id inp, di_job_id = in_job_id inp, di_run_id = x,
        di_application_id = cv_applicationId cv, di_document_id = cv_documentId cv,
        di_file_name = cv_fileName cv, di_mime_type = cv_mimeType cv,
        di_blob_uri = cv_blobUri cv, di_sha256 = cv_sha256 cv, di_run_index = i,
        di_prompt_blob_uri = uri, di_correlation_id = input_correlation inp,
        di_traceparent = input_traceparent inp\<rparr>)"

subsection \<open>The state of one instance\<close>

record ctx =
  c_corr :: json
  c_trace :: json
  c_map :: "string \<rightharpoonup> string \<times> nat"
  c_float :: "string \<Rightarrow> json option"
  c_project :: "live_event \<Rightarrow> unit result"

record orch =
  o_progress :: progress
  o_custom :: progress
  o_seq :: nat
  o_emitted :: "string list"
  o_pending :: "nat list"
  o_results :: "dict list"
  o_events :: "live_event list"

definition c_loads :: "ctx \<Rightarrow> string \<Rightarrow> json option" where
  "c_loads c = json_loads (c_float c)"

text \<open>Calling the \<^verbatim>\<open>project_live_progress\<close> activity with an event the builder may refuse.\<close>

definition emit :: "ctx \<Rightarrow> live_event result \<Rightarrow> orch \<Rightarrow> orch result" where
  "emit c ev o' =
     bind_res ev (\<lambda>e. bind_res (c_project c e) (\<lambda>_. Inr (o'\<lparr>o_events := o_events o' @ [e]\<rparr>)))"

definition coerce_run_result_payload :: "(string \<Rightarrow> json option) \<Rightarrow> json \<Rightarrow> dict result" where
  "coerce_run_result_payload loads v =
     (case v of
        JObj d \<Rightarrow> Inr d
      | JStr s \<Rightarrow> (case loads s of
            None \<Rightarrow> Inl (ValueError ''run result payload is not valid JSON'')
          | Some (JObj d) \<Rightarrow> Inr d
          | Some _ \<Rightarrow> Inl (TypeError ''run result payload must be a dict''))
      | _ \<Rightarrow> Inl (TypeError ''run result payload must be a dict''))"

text \<open>\<^verbatim>\<open>run_index_map[run_result["run_id"]]\<close>: a list or dict is not hashable.\<close>

definition lookup_run :: "(string \<rightharpoonup> string \<times> nat) \<Rightarrow> dict \<Rightarrow> (string \<times> nat) result" where
  "lookup_run m rr =
     bind_res (dindex rr ''run_id'') (\<lambda>v. case v of
         JStr x \<Rightarrow> (case m x of None \<Rightarrow> Inl (KeyError x) | Some e \<Rightarrow> Inr e)
       | JList _ \<Rightarrow> Inl (TypeError []) | JObj _ \<Rightarrow> Inl (TypeError [])
       | _ \<Rightarrow> Inl (KeyError (py_repr v)))"

subsection \<open>Before the loop\<close>

fun dispatch_loop :: "ctx \<Rightarrow> string \<Rightarrow> string list \<Rightarrow> orch \<Rightarrow> orch result" where
  "dispatch_loop c t [] o' = Inr o'"
| "dispatch_loop c t (x # xs) o' =
     (let p' = record_dispatched_run (o_progress o') x t;
          sq = Suc (o_seq o');
          o1 = o'\<lparr>o_progress := p', o_seq := sq\<rparr>
      in bind_res (emit c (build_live_progress_event ''run.dispatched'' p' t sq (c_corr c) (c_trace c)
                             (JStr x) None) o1)
           (dispatch_loop c t xs))"

definition initial_orch :: "progress \<Rightarrow> nat \<Rightarrow> orch" where
  "initial_orch p n =
     \<lparr>o_progress = p, o_custom = p, o_seq = 0, o_emitted = [], o_pending = [0..<n],
      o_results = [], o_events = []\<rparr>"

definition make_ctx ::
  "(string \<Rightarrow> string) \<Rightarrow> (string \<Rightarrow> json option) \<Rightarrow> (live_event \<Rightarrow> unit result) \<Rightarrow> orch_input \<Rightarrow> ctx" where
  "make_ctx uuid5 pf project inp =
     \<lparr>c_corr = input_correlation inp, c_trace = input_traceparent inp,
      c_map = run_index_map (run_plan uuid5 inp), c_float = pf, c_project = project\<rparr>"

text \<open>
  \<open>stage prompt\<close> is the answer of \<^verbatim>\<open>prepare_prompt_blob\<close> and \<open>dispatch i\<close> the
  \<^verbatim>\<open>run_id\<close> the activity \<^verbatim>\<open>dispatch_run\<close> returns; \<^verbatim>\<open>task_all\<close>
  fails when one of them does.
\<close>

definition orch_start ::
  "(string \<Rightarrow> string) \<Rightarrow> ctx \<Rightarrow> (json \<Rightarrow> string result) \<Rightarrow> (dispatch_input \<Rightarrow> string result) \<Rightarrow>
   string \<Rightarrow> string \<Rightarrow> orch_input \<Rightarrow> orch result" where
  "orch_start uuid5 c stage dispatch t0 t1 inp =
     (let p = build_initial_progress uuid5 (in_batch_id inp) (in_job_id inp) (in_cvs inp)
                (in_run_count inp) t0;
          plan = run_plan uuid5 inp
      in bind_res (stage (dget_or (in_prompt inp) ''text'' (JStr []))) (\<lambda>uri.
         bind_res (map_res (\<lambda>e. dispatch (dispatch_input_of inp uri e)) plan) (\<lambda>ids.
         bind_res (dispatch_loop c t1 ids (initial_orch p (length plan))) (\<lambda>o'.
           Inr (o'\<lparr>o_custom := o_progress o'\<rparr>)))))"

subsection \<open>One turn of the loop\<close>

definition app_event_due :: "orch \<Rightarrow> string \<Rightarrow> bool" where
  "app_event_due o' app_id =
     (case find_application (o_progress o') app_id of
        None \<Rightarrow> False
      | Some a \<Rightarrow> is_application_terminal a \<and> app_id \<notin> set (o_emitted o'))"

definition emit_application_event :: "ctx \<Rightarrow> dict \<Rightarrow> string \<Rightarrow> string \<Rightarrow> orch \<Rightarrow> orch result" where
  "emit_application_event c rr t app_id o' =
     (if \<not> app_event_due o' app_id then Inr o'
      else
        (let sq = Suc (o_seq o');
             o1 = o'\<lparr>o_emitted := app_id # o_emitted o', o_seq := sq\<rparr>
         in emit c (build_application_terminal_live_event (o_progress o1) t sq
                      (JStr (py_str (py_or (dget rr ''correlation_id'') (c_corr c))))
                      (JStr (py_str (py_or (dget rr ''traceparent'') (c_trace c)))) app_id) o1))"

definition handle_result :: "ctx \<Rightarrow> nat \<Rightarrow> json \<Rightarrow> string \<Rightarrow> orch \<Rightarrow> orch result" where
  "handle_result c k v t o' =
     bind_res (coerce_run_result_payload (c_loads c) v) (\<lambda>rr.
     bind_res (record_run_result (o_progress o') rr t) (\<lambda>p'.
       (let sq = Suc (o_seq o');
            o1 = o'\<lparr>o_pending := filter (\<lambda>k'. k' \<noteq> k) (o_pending o'),
                    o_results := o_results o' @ [rr],
                    o_progress := p', o_custom := p', o_seq := sq\<rparr>
        in bind_res (emit c (build_run_terminal_live_event p' t sq (c_corr c) (c_trace c) rr) o1)
             (\<lambda>o2. bind_res (lookup_run (c_map c) rr) (\<lambda>e.
               emit_application_event c rr t (fst e) o2)))))"

subsection \<open>After the loop\<close>

text \<open>
  The entries of \<^verbatim>\<open>run_results\<close> handed to \<^verbatim>\<open>finalize_batch\<close>: each result
  with the application and the run index it belongs to.
\<close>

record tagged_result =
  tr_application_id :: string
  tr_run_index :: nat
  tr_result :: dict

record finalize_input =
  fi_batch_id :: string
  fi_cvs :: "cv_ref list"
  fi_run_results :: "tagged_result list"

definition tag_results :: "(string \<rightharpoonup> string \<times> nat) \<Rightarrow> dict list \<Rightarrow> tagged_result list result" where
  "tag_results m rrs =
     map_res (\<lambda>rr. bind_res (lookup_run m rr) (\<lambda>e.
       Inr \<lparr>tr_application_id = fst e, tr_run_index = snd e, tr_result = rr\<rparr>)) rrs"

definition orch_finish ::
  "ctx \<Rightarrow> (finalize_input \<Rightarrow> 'd result) \<Rightarrow> string \<Rightarrow> string \<Rightarrow> orch_input \<Rightarrow> orch \<Rightarrow> (orch \<times> 'd) result" where
  "orch_finish c finalize t1 t2 inp o' =
     bind_res (tag_results (c_map c) (o_results o')) (\<lambda>trs.
     bind_res (finalize \<lparr>fi_batch_id = in_batch_id inp, fi_cvs = in_cvs inp, fi_run_results = trs\<rparr>) (\<lambda>doc.
       (let p = o_progress o';
            p' = p\<lparr>p_status := (if is_cancelled_batch p then ''cancelled'' else ''completed''),
                   p_lastUpdatedAt := t1\<rparr>;
            sq = Suc (o_seq o');
            o1 = o'\<lparr>o_progress := p', o_custom := p', o_seq := sq\<rparr>
        in bind_res (emit c (build_batch_terminal_live_event p' t2 sq (c_corr c) (c_trace c)) o1)
             (\<lambda>o2. Inr (o2, doc)))))"

subsection \<open>The loop and the whole coroutine\<close>

text \<open>
  \<open>collect\<close> is the \<^verbatim>\<open>while pending_events\<close> loop, driven by the completions the
  runtime delivers. It answers with the state when no task is pending; when the deliveries
  run out before that, the instance is still waiting.
\<close>

datatype progress_of_run = Waiting orch | Drained orch

type_synonym delivery = "nat \<times> json \<times> string"

fun collect :: "ctx \<Rightarrow> delivery list \<Rightarrow> orch \<Rightarrow> progress_of_run result" where
  "collect c [] o' = Inr (if o_pending o' = [] then Drained o' else Waiting o')"
| "collect c ((k, v, t) # ds) o' =
     (if o_pending o' = [] then Inr (Drained o')
      else if k \<notin> set (o_pending o') then collect c ds o'
      else bind_res (handle_result c k v t o') (collect c ds))"

datatype 'd outcome = Completed orch 'd | Failed pyerr | Running orch

definition batch_orchestrator ::
  "(string \<Rightarrow> string) \<Rightarrow> ctx \<Rightarrow> (json \<Rightarrow> string result) \<Rightarrow> (dispatch_input \<Rightarrow> string result) \<Rightarrow>
   (finalize_input \<Rightarrow> 'd result) \<Rightarrow> (nat \<Rightarrow> string) \<Rightarrow> orch_input \<Rightarrow> delivery list \<Rightarrow> 'd outcome" where
  "batch_orchestrator uuid5 c stage dispatch finalize clock inp ds =
     (case orch_start uuid5 c stage dispatch (clock 0) (clock 1) inp of
        Inl e \<Rightarrow> Failed e
      | Inr o0 \<Rightarrow>
          (case collect c ds o0 of
             Inl e \<Rightarrow> Failed e
           | Inr (Waiting o') \<Rightarrow> Running o'
           | Inr (Drained o') \<Rightarrow>
               (case orch_finish c finalize (clock 2) (clock 3) inp o' of
                  Inl e \<Rightarrow> Failed e
                | Inr (o2, doc) \<Rightarrow> Completed o2 doc)))"

text \<open>The same loop as a relation between the states in which the coroutine waits.\<close>

inductive orch_step :: "ctx \<Rightarrow> orch \<Rightarrow> orch \<Rightarrow> bool" for c where
  deliver: "k \<in> set (o_pending o1) \<Longrightarrow> handle_result c k v t o1 = Inr o2 \<Longrightarrow> orch_step c o1 o2"

inductive orch_reach :: "ctx \<Rightarrow> orch \<Rightarrow> orch \<Rightarrow> bool" for c o0 where
  start: "orch_reach c o0 o0"
| step: "orch_reach c o0 o1 \<Longrightarrow> orch_step c o1 o2 \<Longrightarrow> orch_reach c o0 o2"

inductive_cases orch_stepE: "orch_step c o1 o2"

end
