(* ===== verification/OrchestratorLaws.thy ===== *)
theory OrchestratorLaws
  imports Orchestrator
begin

text \<open>
  Invariants of a running instance. The first group holds whatever the runtime delivers: the
  live events are numbered without a gap, the published status is the current document, the
  lineage is the initial one. The second group is about results that carry the run id of the
  event they complete, which is what the result intake raises: every counter is exact, each
  task is answered once, an application is announced exactly when its last run ends.
\<close>

subsection \<open>What one turn of the loop does\<close>

lemma emit_Inr_iff:
  "emit c ev o1 = Inr o2 \<longleftrightarrow>
     (\<exists>e. ev = Inr e \<and> c_project c e = Inr () \<and> o2 = o1\<lparr>o_events := o_events o1 @ [e]\<rparr>)"
  by (auto simp: emit_def)

lemma emit_application_event_cases:
  assumes "emit_application_event c rr t app_id o1 = Inr o2"
  obtains (quiet) "\<not> app_event_due o1 app_id" "o2 = o1"
  | (due) ev cid tp where "app_event_due o1 app_id"
      "build_application_terminal_live_event (o_progress o1) t (Suc (o_seq o1)) cid tp app_id = Inr ev"
      "o2 = o1\<lparr>o_emitted := app_id # o_emitted o1, o_seq := Suc (o_seq o1),
               o_events := o_events o1 @ [ev]\<rparr>"
proof (cases "app_event_due o1 app_id")
  case False
  with assms have "o2 = o1" by (simp add: emit_application_event_def)
  with False show ?thesis by (rule quiet)
next
  case True
  with assms show ?thesis
    by (auto simp: emit_application_event_def Let_def emit_Inr_iff intro!: due)
qed

lemma handle_resultE:
  assumes "handle_result c k v t o1 = Inr o2"
  obtains rr p' ev e where
    "coerce_run_result_payload (c_loads c) v = Inr rr"
    "record_run_result (o_progress o1) rr t = Inr p'"
    "build_run_terminal_live_event p' t (Suc (o_seq o1)) (c_corr c) (c_trace c) rr = Inr ev"
    "lookup_run (c_map c) rr = Inr e"
    "emit_application_event c rr t (fst e)
       (o1\<lparr>o_pending := filter (\<lambda>k'. k' \<noteq> k) (o_pending o1), o_results := o_results o1 @ [rr],
           o_progress := p', o_custom := p', o_seq := Suc (o_seq o1),
           o_events := o_events o1 @ [ev]\<rparr>) = Inr o2"
proof -
  let ?o3 = "\<lambda>rr p'. o1\<lparr>o_pending := filter (\<lambda>k'. k' \<noteq> k) (o_pending o1),
    o_results := o_results o1 @ [rr], o_progress := p', o_custom := p', o_seq := Suc (o_seq o1)\<rparr>"
  from assms obtain rr p' where r: "coerce_run_result_payload (c_loads c) v = Inr rr"
    "record_run_result (o_progress o1) rr t = Inr p'"
    by (auto simp: handle_result_def)
  with assms obtain o4 e where
    em: "emit c (build_run_terminal_live_event p' t (Suc (o_seq o1)) (c_corr c) (c_trace c) rr) (?o3 rr p') = Inr o4"
    and lk: "lookup_run (c_map c) rr = Inr e"
    and app: "emit_application_event c rr t (fst e) o4 = Inr o2"
    by (auto simp: handle_result_def Let_def simp del: split_paired_Ex)
  from em obtain ev where
    ev: "build_run_terminal_live_event p' t (Suc (o_seq o1)) (c_corr c) (c_trace c) rr = Inr ev"
    and o4: "o4 = (?o3 rr p')\<lparr>o_events := o_events o1 @ [ev]\<rparr>"
    by (auto simp: emit_Inr_iff)
  from app o4 show thesis by (intro that[OF r ev lk]) simp
qed

lemma build_run_terminal_seq:
  "build_run_terminal_live_event p t sq cid tp rr = Inr ev \<Longrightarrow> ev_sequence ev = sq"
  by (auto simp: build_run_terminal_live_event_def dest: build_event_fields)

lemma build_application_terminal_seq:
  "build_application_terminal_live_event p t sq cid tp a = Inr ev \<Longrightarrow>
     ev_sequence ev = sq \<and> ev_eventType ev = ''application.completed''"
  by (auto simp: build_application_terminal_live_event_def split: option.splits dest: build_event_fields)

subsection \<open>Whatever is delivered\<close>

definition events_numbered :: "orch \<Rightarrow> bool" where
  "events_numbered o1 \<longleftrightarrow> map ev_sequence (o_events o1) = [Suc 0..<Suc (o_seq o1)]"

definition base_inv :: "lineage \<Rightarrow> orch \<Rightarrow> bool" where
  "base_inv l o1 \<longleftrightarrow>
     events_numbered o1 \<and> o_custom o1 = o_progress o1 \<and> lineage (o_progress o1) = l \<and>
     distinct (o_emitted o1)"

lemma events_numbered_snoc:
  assumes "events_numbered o1" and "ev_sequence ev = Suc (o_seq o1)"
    and "o_events o2 = o_events o1 @ [ev]" and "o_seq o2 = Suc (o_seq o1)"
  shows "events_numbered o2"
  using assms by (simp add: events_numbered_def)

lemma emit_application_base:
  assumes "emit_application_event c rr t app_id o1 = Inr o2" and "base_inv l o1"
  shows "base_inv l o2"
  using assms(1)
proof (cases rule: emit_application_event_cases)
  case quiet
  with assms(2) show ?thesis by simp
next
  case (due ev cid tp)
  from due(2) have "ev_sequence ev = Suc (o_seq o1)" by (auto dest: build_application_terminal_seq)
  then have "events_numbered o2"
    using assms(2) due(3) by (intro events_numbered_snoc[of o1 ev o2]) (simp_all add: base_inv_def)
  moreover have "app_id \<notin> set (o_emitted o1)"
    using due(1) by (auto simp: app_event_due_def split: option.splits)
  moreover have "o_custom o2 = o_custom o1" "o_progress o2 = o_progress o1" "o_emitted o2 = app_id # o_emitted o1"
    using due(3) by simp_all
  ultimately show ?thesis using assms(2) by (simp add: base_inv_def)
qed

lemma handle_result_base [inv_intros]:
  assumes "handle_result c k v t o1 = Inr o2" and "base_inv l o1"
  shows "base_inv l o2"
proof -
  from assms(1) obtain rr p' ev e where
    "coerce_run_result_payload (c_loads c) v = Inr rr" and
    rec: "record_run_result (o_progress o1) rr t = Inr p'" and
    ev: "build_run_terminal_live_event p' t (Suc (o_seq o1)) (c_corr c) (c_trace c) rr = Inr ev" and
    "lookup_run (c_map c) rr = Inr e" and
    app: "emit_application_event c rr t (fst e)
       (o1\<lparr>o_pending := filter (\<lambda>k'. k' \<noteq> k) (o_pending o1), o_results := o_results o1 @ [rr],
           o_progress := p', o_custom := p', o_seq := Suc (o_seq o1),
           o_events := o_events o1 @ [ev]\<rparr>) = Inr o2"
    by (rule handle_resultE)
  have "ev_sequence ev = Suc (o_seq o1)" using ev by (rule build_run_terminal_seq)
  with assms(2) rec have "base_inv l
       (o1\<lparr>o_pending := filter (\<lambda>k'. k' \<noteq> k) (o_pending o1), o_results := o_results o1 @ [rr],
           o_progress := p', o_custom := p', o_seq := Suc (o_seq o1),
           o_events := o_events o1 @ [ev]\<rparr>)"
    by (simp add: base_inv_def events_numbered_def lineage_result)
  with app show ?thesis by (rule emit_application_base)
qed

lemma orch_step_base: "orch_step c o1 o2 \<Longrightarrow> base_inv l o1 \<Longrightarrow> base_inv l o2"
  by (auto elim!: orch_stepE intro: handle_result_base)

lemma orch_reach_base: "orch_reach c o0 o1 \<Longrightarrow> base_inv l o0 \<Longrightarrow> base_inv l o1"
  by (induction rule: orch_reach.induct) (auto intro: orch_step_base)

subsection \<open>The loop that records the dispatches\<close>

lemma dispatch_loop_base:
  assumes "dispatch_loop c t xs o1 = Inr o2" and "events_numbered o1"
  shows "events_numbered o2 \<and> lineage (o_progress o2) = lineage (o_progress o1) \<and>
     o_emitted o2 = o_emitted o1 \<and> o_pending o2 = o_pending o1 \<and> o_results o2 = o_results o1"
  using assms
proof (induction xs arbitrary: o1)
  case Nil
  then show ?case by simp
next
  case (Cons x xs)
  let ?p = "record_dispatched_run (o_progress o1) x t"
  from Cons.prems(1) obtain ev where
    ev: "build_live_progress_event ''run.dispatched'' ?p t (Suc (o_seq o1)) (c_corr c) (c_trace c) (JStr x) None = Inr ev"
    and rest: "dispatch_loop c t xs
       (o1\<lparr>o_progress := ?p, o_seq := Suc (o_seq o1), o_events := o_events o1 @ [ev]\<rparr>) = Inr o2"
    by (auto simp: Let_def emit_Inr_iff)
  have "ev_sequence ev = Suc (o_seq o1)" using ev by (rule build_event_fields)
  with Cons.prems(2) have "events_numbered
      (o1\<lparr>o_progress := ?p, o_seq := Suc (o_seq o1), o_events := o_events o1 @ [ev]\<rparr>)"
    by (simp add: events_numbered_def)
  from Cons.IH[OF rest this] show ?case by (simp add: lineage_dispatch)
qed

lemma orch_start_cases:
  assumes "orch_start uuid5 c stage dispatch t0 t1 inp = Inr o0"
  obtains uri ids o1 where
    "map_res (\<lambda>e. dispatch (dispatch_input_of inp uri e)) (run_plan uuid5 inp) = Inr ids"
    "dispatch_loop c t1 ids
       (initial_orch (build_initial_progress uuid5 (in_batch_id inp) (in_job_id inp) (in_cvs inp)
          (in_run_count inp) t0) (length (run_plan uuid5 inp))) = Inr o1"
    "o0 = o1\<lparr>o_custom := o_progress o1\<rparr>"
  using assms by (auto simp: orch_start_def Let_def)

definition planned_lineage :: "(string \<Rightarrow> string) \<Rightarrow> orch_input \<Rightarrow> lineage" where
  "planned_lineage uuid5 inp =
     map (\<lambda>cv. (cv_applicationId cv, cv_documentId cv,
               map (\<lambda>i. (mint_run_id uuid5 (in_batch_id inp) (cv_applicationId cv) i, i))
                   [0..<in_run_count inp])) (in_cvs inp)"

lemma orch_start_base:
  assumes "orch_start uuid5 c stage dispatch t0 t1 inp = Inr o0"
  shows "base_inv (planned_lineage uuid5 inp) o0" and "o_emitted o0 = []" and "o_results o0 = []"
    and "o_pending o0 = [0..<length (run_plan uuid5 inp)]"
proof -
  from assms obtain uri ids o1 where
    "map_res (\<lambda>e. dispatch (dispatch_input_of inp uri e)) (run_plan uuid5 inp) = Inr ids" and
    loop: "dispatch_loop c t1 ids
       (initial_orch (build_initial_progress uuid5 (in_batch_id inp) (in_job_id inp) (in_cvs inp)
          (in_run_count inp) t0) (length (run_plan uuid5 inp))) = Inr o1"
    and o0: "o0 = o1\<lparr>o_custom := o_progress o1\<rparr>"
    by (rule orch_start_cases)
  from dispatch_loop_base[OF loop] o0
  show "base_inv (planned_lineage uuid5 inp) o0" and "o_emitted o0 = []" and "o_results o0 = []"
    and "o_pending o0 = [0..<length (run_plan uuid5 inp)]"
    by (simp_all add: initial_orch_def events_numbered_def base_inv_def planned_lineage_def initial_lineage)
qed

subsection \<open>Draining the pending tasks\<close>

lemma handle_result_pending:
  assumes "handle_result c k v t o1 = Inr o2"
  shows "o_pending o2 = filter (\<lambda>k'. k' \<noteq> k) (o_pending o1)"
    and "length (o_results o2) = Suc (length (o_results o1))"
proof -
  from assms obtain rr p' ev e where
    "coerce_run_result_payload (c_loads c) v = Inr rr"
    "record_run_result (o_progress o1) rr t = Inr p'"
    "build_run_terminal_live_event p' t (Suc (o_seq o1)) (c_corr c) (c_trace c) rr = Inr ev"
    "lookup_run (c_map c) rr = Inr e" and
    app: "emit_application_event c rr t (fst e)
       (o1\<lparr>o_pending := filter (\<lambda>k'. k' \<noteq> k) (o_pending o1), o_results := o_results o1 @ [rr],
           o_progress := p', o_custom := p', o_seq := Suc (o_seq o1),
           o_events := o_events o1 @ [ev]\<rparr>) = Inr o2"
    by (rule handle_resultE)
  from app show "o_pending o2 = filter (\<lambda>k'. k' \<noteq> k) (o_pending o1)"
    by (cases rule: emit_application_event_cases) simp_all
  from app show "length (o_results o2) = Suc (length (o_results o1))"
    by (cases rule: emit_application_event_cases) simp_all
qed

lemma collect_drained_covers:
  "collect c ds o1 = Inr (Drained o2) \<Longrightarrow> set (o_pending o1) \<subseteq> fst ` set ds"
proof (induction c ds o1 rule: collect.induct)
  case (1 c o')
  then show ?case by (simp split: if_splits)
next
  case (2 c k v t ds o')
  show ?case
  proof (cases "o_pending o' = []")
    case True
    then show ?thesis by simp
  next
    case ne: False
    show ?thesis
    proof (cases "k \<in> set (o_pending o')")
      case False
      with 2 ne show ?thesis by auto
    next
      case True
      with 2(3) ne obtain o1 where o1: "handle_result c k v t o' = Inr o1"
        "collect c ds o1 = Inr (Drained o2)" by auto
      with 2(2)[OF ne _ o1(2)] True have "set (o_pending o1) \<subseteq> fst ` set ds" by simp
      with handle_result_pending(1)[OF o1(1)] show ?thesis by auto
    qed
  qed
qed

lemma collect_waiting: "collect c ds o1 = Inr (Waiting o2) \<Longrightarrow> o_pending o2 \<noteq> []"
  by (induction c ds o1 rule: collect.induct) (auto split: if_splits)

lemma collect_reach:
  "collect c ds o1 = Inr r \<Longrightarrow> \<exists>o2. orch_reach c o1 o2 \<and> (r = Waiting o2 \<or> r = Drained o2)"
proof (induction ds arbitrary: o1)
  case Nil
  then show ?case by (auto intro: orch_reach.start split: if_splits)
next
  case (Cons d ds)
  obtain k v t where d: "d = (k, v, t)" by (cases d) auto
  show ?case
  proof (cases "o_pending o1 = [] \<or> k \<notin> set (o_pending o1)")
    case True
    with Cons d show ?thesis by (auto intro: orch_reach.start split: if_splits)
  next
    case False
    with Cons.prems d obtain o3 where o3: "handle_result c k v t o1 = Inr o3" "collect c ds o3 = Inr r"
      by auto
    then obtain o2 where o2: "orch_reach c o3 o2" "r = Waiting o2 \<or> r = Drained o2"
      using Cons.IH by blast
    have "orch_step c o1 o3" using False o3(1) by (auto intro: orch_step.deliver)
    then have "orch_reach c o1 o2" using o2(1)
      by (induction rule: orch_reach.induct[OF o2(1)])
         (auto intro: orch_reach.start orch_reach.step)
    with o2(2) show ?thesis by blast
  qed
qed

subsection \<open>The loop ends\<close>

lemma orch_step_shrinks: "orch_step c o1 o2 \<Longrightarrow> length (o_pending o2) < length (o_pending o1)"
  by (erule orch_stepE) (simp add: handle_result_pending(1) length_filter_less)

lemma orch_step_wf: "wfp (\<lambda>o2 o1. orch_step c o1 o2)"
  unfolding wfp_def
  by (rule wf_subset[OF wf_measure[of "\<lambda>o1. length (o_pending o1)"]]) (auto dest: orch_step_shrinks)

lemma filter_one_out: "distinct xs \<Longrightarrow> k \<in> set xs \<Longrightarrow> Suc (length (filter (\<lambda>x. x \<noteq> k) xs)) = length xs"
  by (induction xs) (auto intro!: arg_cong[of _ _ length] filter_True)

lemma orch_reach_counts:
  "orch_reach c o0 o1 \<Longrightarrow> distinct (o_pending o0) \<Longrightarrow>
     distinct (o_pending o1) \<and> length (o_results o1) + length (o_pending o1) = length (o_results o0) + length (o_pending o0)"
proof (induction rule: orch_reach.induct)
  case (step o1 o2)
  from step.hyps(2) obtain k v t where k: "k \<in> set (o_pending o1)" "handle_result c k v t o1 = Inr o2" by (rule orch_stepE)
  from handle_result_pending[OF k(2)] filter_one_out[OF _ k(1)] step show ?case by simp
qed simp

lemma collect_covered: "collect c ds o1 = Inr (Waiting o2) \<Longrightarrow> \<exists>k \<in> set (o_pending o1). k \<notin> fst ` set ds"
proof (induction c ds o1 rule: collect.induct)
  case (1 c o1)
  then show ?case by (cases "o_pending o1") auto
next
  case (2 c k v t ds o1)
  then have ne: "o_pending o1 \<noteq> []" by (auto split: if_splits)
  show ?case
  proof (cases "k \<in> set (o_pending o1)")
    case True
    with 2(3) ne obtain o3 where o3: "handle_result c k v t o1 = Inr o3" "collect c ds o3 = Inr (Waiting o2)" by auto
    from 2(2)[OF ne _ o3(2)] True handle_result_pending(1)[OF o3(1)] show ?thesis by auto
  next
    case False
    with 2 ne show ?thesis by fastforce
  qed
qed

end
