(* ===== verification/MatchedResults.thy ===== *)
theory MatchedResults
  imports OrchestratorLaws "HOL-Library.Multiset"
begin

text \<open>
  The exact account of a batch whose results carry the run id of the event they complete.
  \<open>good_batch\<close> is what the submission has to provide for it: at least one run per CV,
  application ids that differ, and run ids that differ. The last follows from the first two
  when the UUID hash does not collide on the names of the batch (\<open>plan_distinct\<close>), because
  the names themselves differ (\<open>run_name_inj\<close>).
\<close>

subsection \<open>Run ids\<close>

lemma colon_not_digit: "CHR '':'' \<notin> set (nat_digits n)"
proof
  assume "CHR '':'' \<in> set (nat_digits n)"
  then obtain d where d: "d < 10" "CHR '':'' = digit_char d" by (auto dest: nat_digits_chars)
  then have "(of_char (CHR '':'') :: nat) = of_char (char_of (48 + d))"
    by (simp add: digit_char_def del: of_char_of)
  with d(1) show False by simp
qed

lemma run_name_inj: "run_name b a i = run_name b a' i' \<longleftrightarrow> a = a' \<and> i = i'"
proof
  assume "run_name b a i = run_name b a' i'"
  then have "a @ CHR '':'' # nat_digits i = a' @ CHR '':'' # nat_digits i'"
    by (simp add: run_name_def)
  then have "rev (a @ CHR '':'' # nat_digits i) = rev (a' @ CHR '':'' # nat_digits i')" by simp
  then have "rev (nat_digits i) @ CHR '':'' # rev a = rev (nat_digits i') @ CHR '':'' # rev a'" by simp
  then have "rev (nat_digits i) = rev (nat_digits i') \<and> rev a = rev a'"
    by (subst (asm) append_sep_eq) (simp_all add: colon_not_digit)
  then show "a = a' \<and> i = i'" by (auto dest: nat_digits_inj)
qed simp

definition plan_names :: "orch_input \<Rightarrow> string list" where
  "plan_names inp = concat (map (\<lambda>cv. map (run_name (in_batch_id inp) (cv_applicationId cv))
                                       [0..<in_run_count inp]) (in_cvs inp))"

lemma plan_tasks_names: "plan_tasks (run_plan uuid5 inp) = map uuid5 (plan_names inp)"
  by (simp add: plan_tasks_def run_plan_def plan_names_def map_concat comp_def mint_run_id_def)

lemma distinct_names:
  assumes "distinct (map cv_applicationId cvs)"
  shows "distinct (concat (map (\<lambda>cv. map (run_name b (cv_applicationId cv)) [0..<n]) cvs))"
  using assms
proof (induction cvs)
  case Nil
  then show ?case by simp
next
  case (Cons cv cvs)
  then show ?case by (auto simp: distinct_map run_name_inj inj_on_def)
qed

lemma plan_distinct:
  assumes "distinct (map cv_applicationId (in_cvs inp))" and "inj_on uuid5 (set (plan_names inp))"
  shows "distinct (plan_tasks (run_plan uuid5 inp))"
  unfolding plan_tasks_names distinct_map
  using assms distinct_names by (simp add: plan_names_def)

definition good_batch :: "(string \<Rightarrow> string) \<Rightarrow> orch_input \<Rightarrow> bool" where
  "good_batch uuid5 inp \<longleftrightarrow>
     0 < in_run_count inp \<and> distinct (map cv_applicationId (in_cvs inp)) \<and>
     distinct (plan_tasks (run_plan uuid5 inp)) \<and> [] \<notin> set (plan_tasks (run_plan uuid5 inp))"

subsection \<open>The plan and the lineage agree\<close>

lemma lineage_app:
  assumes "lineage p = planned_lineage uuid5 inp" and "i < length (p_applications p)"
  shows "i < length (in_cvs inp)"
    and "a_applicationId (p_applications p ! i) = cv_applicationId (in_cvs inp ! i)"
    and "map (\<lambda>r. (r_runId r, r_runIndex r)) (a_runs (p_applications p ! i)) =
         map (\<lambda>j. (mint_run_id uuid5 (in_batch_id inp) (cv_applicationId (in_cvs inp ! i)) j, j))
             [0..<in_run_count inp]"
proof -
  have "length (lineage p) = length (planned_lineage uuid5 inp)" using assms(1) by simp
  then show i: "i < length (in_cvs inp)" using assms(2) by (simp add: lineage_def planned_lineage_def)
  have "lineage p ! i = planned_lineage uuid5 inp ! i" using assms(1) by simp
  with assms(2) i show "a_applicationId (p_applications p ! i) = cv_applicationId (in_cvs inp ! i)"
    and "map (\<lambda>r. (r_runId r, r_runIndex r)) (a_runs (p_applications p ! i)) =
         map (\<lambda>j. (mint_run_id uuid5 (in_batch_id inp) (cv_applicationId (in_cvs inp ! i)) j, j))
             [0..<in_run_count inp]"
    by (simp_all add: lineage_def planned_lineage_def)
qed

lemma lineage_run:
  assumes "lineage p = planned_lineage uuid5 inp" and "i < length (p_applications p)"
    and "j < length (a_runs (p_applications p ! i))"
  shows "r_runId (run_at p i j) = mint_run_id uuid5 (in_batch_id inp) (cv_applicationId (in_cvs inp ! i)) j"
    and "r_runIndex (run_at p i j) = j" and "j < in_run_count inp"
proof -
  note runs = lineage_app(3)[OF assms(1,2)]
  have len: "length (a_runs (p_applications p ! i)) = in_run_count inp"
    using arg_cong[OF runs, of length] by simp
  with assms(3) show j: "j < in_run_count inp" by simp
  have "map (\<lambda>r. (r_runId r, r_runIndex r)) (a_runs (p_applications p ! i)) ! j =
     (mint_run_id uuid5 (in_batch_id inp) (cv_applicationId (in_cvs inp ! i)) j, j)"
    unfolding runs using j by simp
  with assms(3) show "r_runId (run_at p i j) = mint_run_id uuid5 (in_batch_id inp) (cv_applicationId (in_cvs inp ! i)) j"
    and "r_runIndex (run_at p i j) = j" by (simp_all add: run_at_def)
qed

lemma lineage_run_ids:
  assumes "lineage p = planned_lineage uuid5 inp"
  shows "run_ids (p_applications p) = plan_tasks (run_plan uuid5 inp)"
  by (simp add: run_ids_table id_table_lineage assms planned_lineage_def plan_tasks_def run_plan_def
      map_concat comp_def)

lemma lineage_distinct_apps:
  assumes "lineage p = planned_lineage uuid5 inp" and "distinct (map cv_applicationId (in_cvs inp))"
  shows "distinct (map a_applicationId (p_applications p))"
proof -
  have "map a_applicationId (p_applications p) = map fst (lineage p)" by (simp add: lineage_def comp_def)
  with assms show ?thesis by (simp add: planned_lineage_def comp_def)
qed

lemma run_index_map_entry:
  assumes "distinct (plan_tasks plan)" and "(x, cv, i) \<in> set plan"
  shows "run_index_map plan x = Some (cv_applicationId cv, i)"
proof -
  let ?f = "\<lambda>(x, cv, i). (x, (cv_applicationId cv, i))"
  have "map fst (map ?f plan) = plan_tasks plan" by (simp add: plan_tasks_def comp_def case_prod_beta)
  with assms(1) have "distinct (map fst (rev (map ?f plan)))" by (simp add: rev_map [symmetric])
  moreover have "(x, (cv_applicationId cv, i)) \<in> set (rev (map ?f plan))" using assms(2) by force
  ultimately show ?thesis unfolding run_index_map_def by (rule map_of_is_SomeI)
qed

lemma lineage_map_entry:
  assumes "good_batch uuid5 inp" and "lineage p = planned_lineage uuid5 inp"
    and "i < length (p_applications p)" and "j < length (a_runs (p_applications p ! i))"
  shows "run_index_map (run_plan uuid5 inp) (r_runId (run_at p i j)) =
     Some (a_applicationId (p_applications p ! i), j)"
proof -
  have "(r_runId (run_at p i j), in_cvs inp ! i, j) \<in> set (run_plan uuid5 inp)"
    using lineage_run[OF assms(2-4)] lineage_app(1)[OF assms(2,3)]
    by (auto simp: run_plan_def intro!: bexI[of _ "in_cvs inp ! i"])
  with assms(1) show ?thesis
    by (simp add: good_batch_def run_index_map_entry lineage_app(2)[OF assms(2,3)])
qed

lemma find_application_distinct:
  assumes "distinct (map a_applicationId (p_applications p))" and "i < length (p_applications p)"
  shows "find_application p (a_applicationId (p_applications p ! i)) = Some (p_applications p ! i)"
proof -
  let ?P = "\<lambda>a. a_applicationId a = a_applicationId (p_applications p ! i)"
  have "\<not> ?P (p_applications p ! m)" if "m < i" for m
    using assms that by (auto simp: distinct_conv_nth)
  with assms(2) show ?thesis
    unfolding find_application_def find_Some_iff
    by (intro exI[of _ i]) simp
qed

end
