(* ===== verification/ExactBatch.thy ===== *)
theory ExactBatch
  imports MatchedResults
begin

text \<open>
  The exact invariant of a good batch: it holds after the dispatches, one turn of the loop
  keeps it for a matched delivery, and what it gives when the loop has drained.
\<close>

definition matched :: "ctx \<Rightarrow> string list \<Rightarrow> delivery \<Rightarrow> bool" where
  "matched c tasks d =
     (case d of (k, v, t) \<Rightarrow>
        k < length tasks \<and>
        (case coerce_run_result_payload (c_loads c) v of
           Inl e \<Rightarrow> False | Inr rr \<Rightarrow> dindex rr ''run_id'' = Inr (JStr (tasks ! k))))"

definition run_fresh :: "run_state \<Rightarrow> bool" where
  "run_fresh r \<longleftrightarrow> r_completedAt r = None"

definition result_kept :: "progress \<Rightarrow> dict \<Rightarrow> bool" where
  "result_kept p rr =
     (case find_application_run (p_applications p) (dget rr ''run_id'') of
        None \<Rightarrow> False
      | Some (i, j) \<Rightarrow> \<not> run_fresh (run_at p i j) \<and> r_status (run_at p i j) = dget rr ''status'')"

definition runs_ok :: "progress \<Rightarrow> bool" where
  "runs_ok p \<longleftrightarrow>
     (\<forall>i < length (p_applications p). \<forall>j < length (a_runs (p_applications p ! i)).
        r_dispatchedAt (run_at p i j) \<noteq> None \<and>
        (run_fresh (run_at p i j) \<longrightarrow> \<not> is_terminal_run_status (r_status (run_at p i j))))"

definition pending_ok :: "string list \<Rightarrow> orch \<Rightarrow> bool" where
  "pending_ok tasks o1 \<longleftrightarrow>
     distinct (o_pending o1) \<and> set (o_pending o1) \<subseteq> {..<length tasks} \<and>
     (\<forall>k < length tasks. \<forall>i j.
        find_application_run (p_applications (o_progress o1)) (JStr (tasks ! k)) = Some (i, j) \<longrightarrow>
        (k \<in> set (o_pending o1) \<longleftrightarrow> run_fresh (run_at (o_progress o1) i j)))"

definition results_ok :: "string list \<Rightarrow> orch \<Rightarrow> bool" where
  "results_ok tasks o1 \<longleftrightarrow>
     mset (map (\<lambda>rr. dget rr ''run_id'') (o_results o1)) + mset (map (\<lambda>k. JStr (tasks ! k)) (o_pending o1))
       = mset (map JStr tasks) \<and>
     p_runsCompleted (o_progress o1) = length (o_results o1) \<and>
     (\<forall>rr \<in> set (o_results o1). result_kept (o_progress o1) rr)"

definition announced_ok :: "orch \<Rightarrow> bool" where
  "announced_ok o1 \<longleftrightarrow>
     set (o_emitted o1) = set (terminal_ids (p_applications (o_progress o1))) \<and>
     o_seq o1 = p_runsDispatched (o_progress o1) + p_runsCompleted (o_progress o1) + length (o_emitted o1)"

definition exact_inv :: "(string \<Rightarrow> string) \<Rightarrow> orch_input \<Rightarrow> orch \<Rightarrow> bool" where
  "exact_inv uuid5 inp o1 \<longleftrightarrow>
     base_inv (planned_lineage uuid5 inp) o1 \<and> counters_ok (o_progress o1) \<and>
     runs_ok (o_progress o1) \<and> pending_ok (plan_tasks (run_plan uuid5 inp)) o1 \<and>
     results_ok (plan_tasks (run_plan uuid5 inp)) o1 \<and> announced_ok o1"

subsection \<open>Writing a completed run\<close>

lemma put_fields [simp]:
  "length (p_applications (put_completed_run p i j r' t)) = length (p_applications p)"
  "p_runsCompleted (put_completed_run p i j r' t) = Suc (p_runsCompleted p)"
  "p_runsDispatched (put_completed_run p i j r' t) = p_runsDispatched p"
  by (simp_all add: put_completed_run_def Let_def)

lemma put_runs_length:
  "length (a_runs (p_applications (put_completed_run p i j r' t) ! m)) = length (a_runs (p_applications p ! m))"
proof (cases "i < length (p_applications p)")
  case True
  then show ?thesis by (cases "m = i") (simp_all add: put_completed_run_def Let_def)
next
  case False
  then show ?thesis by (simp add: put_completed_run_def Let_def list_update_beyond)
qed

lemma run_at_put:
  assumes "i < length (p_applications p)" and "j < length (a_runs (p_applications p ! i))"
  shows "run_at (put_completed_run p i j r' t) m n = (if m = i \<and> n = j then r' else run_at p m n)"
  using assms by (cases "m = i") (auto simp: put_completed_run_def Let_def run_at_def)

lemma put_app_other:
  assumes "m \<noteq> i"
  shows "p_applications (put_completed_run p i j r' t) ! m = p_applications p ! m"
  using assms by (simp add: put_completed_run_def Let_def)

lemma put_app_id:
  "i < length (p_applications p) \<Longrightarrow>
     a_applicationId (p_applications (put_completed_run p i j r' t) ! i) = a_applicationId (p_applications p ! i)"
  by (simp add: put_completed_run_def Let_def)

lemma record_run_result_found:
  assumes "record_run_result p rr t = Inr p'"
    and "find_application_run (p_applications p) (dget rr ''run_id'') = Some (i, j)"
    and "truthy (dget rr ''run_id'')" and "\<not> is_terminal_run_status (r_status (run_at p i j))"
  obtains n names artifacts where
    "p' = put_completed_run p i j (completed_run (run_at p i j) rr artifacts n names t) t"
  using assms by (auto simp: record_run_result_def Let_def run_at_def)

lemma set_terminal_ids:
  "set (terminal_ids apps) = {a_applicationId (apps ! m) |m. m < length apps \<and> is_application_terminal (apps ! m)}"
  by (auto simp: terminal_ids_def in_set_conv_nth)

lemma set_terminal_ids_put:
  assumes "i < length (p_applications p)" and "\<not> is_application_terminal (p_applications p ! i)"
  shows "set (terminal_ids (p_applications (put_completed_run p i j r' t))) =
    (if is_application_terminal (p_applications (put_completed_run p i j r' t) ! i)
     then insert (a_applicationId (p_applications p ! i)) (set (terminal_ids (p_applications p)))
     else set (terminal_ids (p_applications p)))"
    (is "set (terminal_ids ?new) = _")
proof -
  have same: "?new ! m = p_applications p ! m" if "m \<noteq> i" for m using that by (rule put_app_other)
  have idi: "a_applicationId (?new ! i) = a_applicationId (p_applications p ! i)" using assms(1) by (rule put_app_id)
  have len: "length ?new = length (p_applications p)" by simp
  show ?thesis
  proof (intro set_eqI iffI)
    fix x
    assume "x \<in> set (terminal_ids ?new)"
    then obtain m where m: "m < length (p_applications p)" "is_application_terminal (?new ! m)" "x = a_applicationId (?new ! m)"
      by (auto simp: set_terminal_ids len)
    show "x \<in> (if is_application_terminal (?new ! i) then insert (a_applicationId (p_applications p ! i)) (set (terminal_ids (p_applications p)))
        else set (terminal_ids (p_applications p)))"
    proof (cases "m = i")
      case True
      with m idi show ?thesis by simp
    next
      case False
      with m same have "x \<in> set (terminal_ids (p_applications p))" by (auto simp: set_terminal_ids)
      then show ?thesis by simp
    qed
  next
    fix x
    assume x: "x \<in> (if is_application_terminal (?new ! i) then insert (a_applicationId (p_applications p ! i)) (set (terminal_ids (p_applications p)))
        else set (terminal_ids (p_applications p)))"
    show "x \<in> set (terminal_ids ?new)"
    proof (cases "is_application_terminal (?new ! i) \<and> x = a_applicationId (p_applications p ! i)")
      case True
      with assms(1) idi show ?thesis by (auto simp: set_terminal_ids len intro!: exI[of _ i])
    next
      case False
      with x have "x \<in> set (terminal_ids (p_applications p))" by (auto split: if_splits)
      then obtain m where m: "m < length (p_applications p)" "is_application_terminal (p_applications p ! m)"
        "x = a_applicationId (p_applications p ! m)" by (auto simp: set_terminal_ids)
      with assms(2) have "m \<noteq> i" by auto
      with m same show ?thesis by (auto simp: set_terminal_ids len intro!: exI[of _ m])
    qed
  qed
qed

subsection \<open>One turn of the loop, part by part\<close>

text \<open>
  The shared situation: the delivery answers task \<open>k\<close>, whose run stands at \<open>(i, j)\<close> and is
  still fresh, and the document becomes \<open>put_completed_run\<close> of the completed run.
\<close>

definition answers :: "string list \<Rightarrow> orch \<Rightarrow> nat \<Rightarrow> dict \<Rightarrow> nat \<Rightarrow> nat \<Rightarrow> bool" where
  "answers tasks o1 k rr i j \<longleftrightarrow>
     k < length tasks \<and> k \<in> set (o_pending o1) \<and> dget rr ''run_id'' = JStr (tasks ! k) \<and>
     find_application_run (p_applications (o_progress o1)) (JStr (tasks ! k)) = Some (i, j) \<and>
     run_fresh (run_at (o_progress o1) i j)"

definition answered :: "orch \<Rightarrow> orch \<Rightarrow> nat \<Rightarrow> dict \<Rightarrow> nat \<Rightarrow> nat \<Rightarrow> run_state \<Rightarrow> string \<Rightarrow> bool" where
  "answered o1 o2 k rr i j r' t \<longleftrightarrow>
     o_progress o2 = put_completed_run (o_progress o1) i j r' t \<and>
     o_pending o2 = filter (\<lambda>k'. k' \<noteq> k) (o_pending o1) \<and> o_results o2 = o_results o1 @ [rr] \<and>
     r_runId r' = r_runId (run_at (o_progress o1) i j) \<and> r_runIndex r' = r_runIndex (run_at (o_progress o1) i j) \<and>
     r_dispatchedAt r' = r_dispatchedAt (run_at (o_progress o1) i j) \<and>
     r_completedAt r' = Some t \<and> r_status r' = dget rr ''status''"

lemma answers_position:
  assumes "answers tasks o1 k rr i j"
  shows "i < length (p_applications (o_progress o1))"
    and "j < length (a_runs (p_applications (o_progress o1) ! i))"
    and "r_runId (run_at (o_progress o1) i j) = tasks ! k"
  using assms by (auto simp: answers_def run_at_def dest: find_application_run_SomeD)

lemma answered_lineage:
  assumes "answers tasks o1 k rr i j" and "answered o1 o2 k rr i j r' t"
  shows "lineage (o_progress o2) = lineage (o_progress o1)"
  using assms answers_position[OF assms(1)] by (simp add: answered_def lineage_put run_at_def)

lemma answered_find:
  assumes "answers tasks o1 k rr i j" and "answered o1 o2 k rr i j r' t"
  shows "find_application_run (p_applications (o_progress o2)) v = find_application_run (p_applications (o_progress o1)) v"
  using answered_lineage[OF assms] by (rule find_same_lineage)

lemma answered_run_at:
  assumes "answers tasks o1 k rr i j" and "answered o1 o2 k rr i j r' t"
  shows "run_at (o_progress o2) m n = (if m = i \<and> n = j then r' else run_at (o_progress o1) m n)"
  using assms answers_position[OF assms(1)] by (simp add: answered_def run_at_put)

lemma answered_runs_ok:
  assumes "answers tasks o1 k rr i j" and "answered o1 o2 k rr i j r' t" and "runs_ok (o_progress o1)"
  shows "runs_ok (o_progress o2)"
  unfolding runs_ok_def answered_run_at[OF assms(1,2)]
  using assms answers_position[OF assms(1)]
  by (auto simp: answered_def runs_ok_def put_runs_length run_fresh_def)

lemma answered_pending_ok:
  assumes "answers tasks o1 k rr i j" and "answered o1 o2 k rr i j r' t"
    and "distinct tasks" and "pending_ok tasks o1"
  shows "pending_ok tasks o2"
  unfolding pending_ok_def answered_find[OF assms(1,2)]
proof (intro conjI allI impI)
  show "distinct (o_pending o2)" "set (o_pending o2) \<subseteq> {..<length tasks}"
    using assms by (auto simp: answered_def pending_ok_def)
next
  fix k' i' j'
  assume k': "k' < length tasks"
    and f: "find_application_run (p_applications (o_progress o1)) (JStr (tasks ! k')) = Some (i', j')"
  have old: "k' \<in> set (o_pending o1) \<longleftrightarrow> run_fresh (run_at (o_progress o1) i' j')"
    using assms(4) k' f by (auto simp: pending_ok_def)
  show "k' \<in> set (o_pending o2) \<longleftrightarrow> run_fresh (run_at (o_progress o2) i' j')"
  proof (cases "k' = k")
    case True
    with f assms(1) have "i' = i" "j' = j" by (simp_all add: answers_def)
    with True assms(2) show ?thesis
      unfolding answered_run_at[OF assms(1,2)] by (simp add: answered_def run_fresh_def)
  next
    case False
    have "\<not> (i' = i \<and> j' = j)"
    proof
      assume "i' = i \<and> j' = j"
      with find_application_run_SomeD[OF f] answers_position(3)[OF assms(1)]
      have "tasks ! k' = tasks ! k" by (simp add: run_at_def)
      with assms(1,3) k' False show False by (simp add: answers_def nth_eq_iff_index_eq)
    qed
    with old False assms(2) show ?thesis
      unfolding answered_run_at[OF assms(1,2)] by (auto simp: answered_def)
  qed
qed

lemma mset_filter_out:
  "distinct xs \<Longrightarrow> k \<in> set xs \<Longrightarrow> mset xs = add_mset k (mset (filter (\<lambda>x. x \<noteq> k) xs))"
proof (induction xs)
  case Nil
  then show ?case by simp
next
  case (Cons x xs)
  show ?case
  proof (cases "x = k")
    case True
    with Cons.prems(1) have "filter (\<lambda>x. x \<noteq> k) xs = xs" by (intro filter_True) auto
    with True show ?thesis by simp
  next
    case False
    with Cons show ?thesis by simp
  qed
qed

lemma answered_results_ok:
  assumes a: "answers tasks o1 k rr i j" and b: "answered o1 o2 k rr i j r' t"
    and d: "distinct (o_pending o1)" and r: "results_ok tasks o1"
  shows "results_ok tasks o2"
  unfolding results_ok_def
proof (intro conjI ballI)
  have "mset (o_pending o1) = add_mset k (mset (filter (\<lambda>k'. k' \<noteq> k) (o_pending o1)))"
    using a d by (intro mset_filter_out) (simp_all add: answers_def)
  then have "image_mset (\<lambda>k. JStr (tasks ! k)) (mset (o_pending o1)) =
      image_mset (\<lambda>k. JStr (tasks ! k)) (add_mset k (mset (filter (\<lambda>k'. k' \<noteq> k) (o_pending o1))))"
    by (rule arg_cong)
  then have "mset (map (\<lambda>k. JStr (tasks ! k)) (o_pending o1)) =
      add_mset (JStr (tasks ! k)) (mset (map (\<lambda>k. JStr (tasks ! k)) (o_pending o2)))"
    using b by (simp add: answered_def)
  then show "mset (map (\<lambda>rr. dget rr ''run_id'') (o_results o2)) + mset (map (\<lambda>k. JStr (tasks ! k)) (o_pending o2))
       = mset (map JStr tasks)"
    using a b r by (simp add: answers_def answered_def results_ok_def)
  show "p_runsCompleted (o_progress o2) = length (o_results o2)"
    using b r by (simp add: answered_def results_ok_def)
next
  fix q
  assume "q \<in> set (o_results o2)"
  then consider "q = rr" | "q \<in> set (o_results o1)" using b by (auto simp: answered_def)
  then show "result_kept (o_progress o2) q"
  proof cases
    case 1
    with a b show ?thesis
      unfolding result_kept_def answered_find[OF a b] answered_run_at[OF a b]
      by (simp add: answers_def answered_def run_fresh_def)
  next
    case 2
    with r have "result_kept (o_progress o1) q" by (simp add: results_ok_def)
    with a show ?thesis
      unfolding result_kept_def answered_find[OF a b] answered_run_at[OF a b]
      by (auto simp: answers_def split: option.splits)
  qed
qed

end
