(* ===== verification/ExactRun.thy ===== *)
theory ExactRun
  imports ExactBatch
begin

text \<open>
  The exact invariant along a run: established by the dispatch loop, kept by every matched
  turn, and its consequences once every task has been answered.
\<close>

subsection \<open>One matched turn\<close>

lemma dindex_dget: "dindex d k = Inr v \<Longrightarrow> dget d k = v"
  by (simp add: dindex_def dget_def split: option.splits)

lemma lookup_run_JStr:
  "dindex rr ''run_id'' = Inr (JStr x) \<Longrightarrow> lookup_run m rr = Inr e \<longleftrightarrow> m x = Some e"
  by (simp add: lookup_run_def split: option.splits)

lemma matchedD:
  assumes "matched c tasks (k, v, t)" and "coerce_run_result_payload (c_loads c) v = Inr rr"
  shows "k < length tasks" and "dindex rr ''run_id'' = Inr (JStr (tasks ! k))"
  using assms by (auto simp: matched_def)

lemma pending_answers:
  assumes good: "good_batch uuid5 inp" and inv: "exact_inv uuid5 inp o1"
    and k: "k \<in> set (o_pending o1)"
    and id: "dget rr ''run_id'' = JStr (plan_tasks (run_plan uuid5 inp) ! k)"
  obtains i j where "answers (plan_tasks (run_plan uuid5 inp)) o1 k rr i j"
proof -
  let ?tasks = "plan_tasks (run_plan uuid5 inp)"
  have klen: "k < length ?tasks" using inv k by (auto simp: exact_inv_def pending_ok_def)
  have "lineage (o_progress o1) = planned_lineage uuid5 inp"
    using inv by (simp add: exact_inv_def base_inv_def)
  then have "?tasks ! k \<in> set (run_ids (p_applications (o_progress o1)))"
    using klen by (simp add: lineage_run_ids)
  then obtain i j where f: "find_application_run (p_applications (o_progress o1)) (JStr (?tasks ! k)) = Some (i, j)"
    by (metis find_application_run_None option.exhaust prod.exhaust)
  with inv k klen have "run_fresh (run_at (o_progress o1) i j)"
    by (auto simp: exact_inv_def pending_ok_def)
  with klen k id f show thesis by (intro that[of i j]) (simp add: answers_def)
qed

lemma fresh_app_not_terminal:
  assumes "runs_ok p" and "i < length (p_applications p)" and "j < length (a_runs (p_applications p ! i))"
    and "run_fresh (run_at p i j)"
  shows "\<not> is_terminal_run_status (r_status (run_at p i j))"
    and "\<not> is_application_terminal (p_applications p ! i)"
proof -
  show nt: "\<not> is_terminal_run_status (r_status (run_at p i j))"
    using assms by (auto simp: runs_ok_def)
  with assms(3) show "\<not> is_application_terminal (p_applications p ! i)"
    by (auto simp: is_application_terminal_def run_at_def)
qed

lemma nonterminal_id_not_listed:
  assumes "distinct (map a_applicationId apps)" and "i < length apps" and "\<not> is_application_terminal (apps ! i)"
  shows "a_applicationId (apps ! i) \<notin> set (terminal_ids apps)"
proof
  assume "a_applicationId (apps ! i) \<in> set (terminal_ids apps)"
  then obtain m where "m < length apps" "is_application_terminal (apps ! m)"
    "a_applicationId (apps ! m) = a_applicationId (apps ! i)" by (auto simp: set_terminal_ids)
  with assms show False by (auto simp: distinct_conv_nth)
qed

lemma announced_step:
  assumes good: "good_batch uuid5 inp" and inv: "exact_inv uuid5 inp o1"
    and a: "answers (plan_tasks (run_plan uuid5 inp)) o1 k rr i j"
    and p': "p' = put_completed_run (o_progress o1) i j r' t"
    and lin: "lineage p' = planned_lineage uuid5 inp"
    and o3: "o_progress o3 = p'" "o_emitted o3 = o_emitted o1" "o_seq o3 = Suc (o_seq o1)"
    and app: "emit_application_event c rr t (a_applicationId (p_applications (o_progress o1) ! i)) o3 = Inr o2"
  shows "announced_ok o2"
proof -
  let ?id = "a_applicationId (p_applications (o_progress o1) ! i)"
  note pos = answers_position[OF a]
  have fresh: "run_fresh (run_at (o_progress o1) i j)" using a by (simp add: answers_def)
  have rok: "runs_ok (o_progress o1)" using inv by (simp add: exact_inv_def)
  note nt = fresh_app_not_terminal(2)[OF rok pos(1,2) fresh]
  have lin1: "lineage (o_progress o1) = planned_lineage uuid5 inp" using inv by (simp add: exact_inv_def base_inv_def)
  have d: "distinct (map cv_applicationId (in_cvs inp))" using good by (simp add: good_batch_def)
  have new: "?id \<notin> set (o_emitted o1)"
    using inv nonterminal_id_not_listed[OF lineage_distinct_apps[OF lin1 d] pos(1) nt]
    by (simp add: exact_inv_def announced_ok_def)
  have len: "i < length (p_applications p')" using pos(1) p' by simp
  have idp: "a_applicationId (p_applications p' ! i) = ?id" using pos(1) p' by (simp add: put_app_id)
  have find: "find_application p' ?id = Some (p_applications p' ! i)"
    using find_application_distinct[OF lineage_distinct_apps[OF lin d] len] idp by simp
  have due: "app_event_due o3 ?id \<longleftrightarrow> is_application_terminal (p_applications p' ! i)"
    using find new o3 by (simp add: app_event_due_def)
  have listed: "set (terminal_ids (p_applications p')) =
     (if is_application_terminal (p_applications p' ! i) then insert ?id (set (terminal_ids (p_applications (o_progress o1))))
      else set (terminal_ids (p_applications (o_progress o1))))"
    unfolding p' using pos(1) nt by (rule set_terminal_ids_put)
  have old: "set (o_emitted o1) = set (terminal_ids (p_applications (o_progress o1)))"
    "o_seq o1 = p_runsDispatched (o_progress o1) + p_runsCompleted (o_progress o1) + length (o_emitted o1)"
    using inv by (simp_all add: exact_inv_def announced_ok_def)
  have counts: "p_runsDispatched p' = p_runsDispatched (o_progress o1)" "p_runsCompleted p' = Suc (p_runsCompleted (o_progress o1))"
    using p' by simp_all
  show ?thesis
    using app
  proof (cases rule: emit_application_event_cases)
    case quiet
    with due listed old counts o3 show ?thesis by (simp add: announced_ok_def)
  next
    case (due ev cid tp)
    with \<open>app_event_due o3 ?id \<longleftrightarrow> _\<close> listed old counts o3 show ?thesis by (simp add: announced_ok_def)
  qed
qed

lemma exact_step [inv_intros]:
  assumes good: "good_batch uuid5 inp" and cm: "c_map c = run_index_map (run_plan uuid5 inp)"
    and inv: "exact_inv uuid5 inp o1" and k: "k \<in> set (o_pending o1)"
    and m: "matched c (plan_tasks (run_plan uuid5 inp)) (k, v, t)"
    and h: "handle_result c k v t o1 = Inr o2"
  shows "exact_inv uuid5 inp o2"
proof -
  let ?tasks = "plan_tasks (run_plan uuid5 inp)"
  let ?o3 = "\<lambda>rr p' ev. o1\<lparr>o_pending := filter (\<lambda>k'. k' \<noteq> k) (o_pending o1), o_results := o_results o1 @ [rr],
           o_progress := p', o_custom := p', o_seq := Suc (o_seq o1), o_events := o_events o1 @ [ev]\<rparr>"
  from h obtain rr p' ev e where co: "coerce_run_result_payload (c_loads c) v = Inr rr"
    and rec: "record_run_result (o_progress o1) rr t = Inr p'"
    and ev: "build_run_terminal_live_event p' t (Suc (o_seq o1)) (c_corr c) (c_trace c) rr = Inr ev"
    and lk: "lookup_run (c_map c) rr = Inr e"
    and app: "emit_application_event c rr t (fst e) (?o3 rr p' ev) = Inr o2"
    by (rule handle_resultE)
  note id = matchedD(2)[OF m co]
  from pending_answers[OF good inv k dindex_dget[OF id]] obtain i j where a: "answers ?tasks o1 k rr i j" .
  note pos = answers_position[OF a]
  have fresh: "run_fresh (run_at (o_progress o1) i j)" using a by (simp add: answers_def)
  have parts: "base_inv (planned_lineage uuid5 inp) o1" "counters_ok (o_progress o1)" "runs_ok (o_progress o1)"
    "pending_ok ?tasks o1" "results_ok ?tasks o1" using inv by (simp_all add: exact_inv_def)
  note nt = fresh_app_not_terminal(1)[OF parts(3) pos(1,2) fresh]
  have nonempty: "?tasks ! k \<noteq> []" using good a by (auto simp: good_batch_def answers_def dest: nth_mem)
  have found: "find_application_run (p_applications (o_progress o1)) (dget rr ''run_id'') = Some (i, j)"
    and "truthy (dget rr ''run_id'')" using a nonempty by (simp_all add: answers_def)
  from record_run_result_found[OF rec this nt] obtain n names artifacts where p': "p' = put_completed_run (o_progress o1) i j
      (completed_run (run_at (o_progress o1) i j) rr artifacts n names t) t" .
  let ?r' = "completed_run (run_at (o_progress o1) i j) rr artifacts n names t"
  have b: "answered o1 o2 k rr i j ?r' t"
    using app p' by (cases rule: emit_application_event_cases) (simp_all add: answered_def)
  have base2: "base_inv (planned_lineage uuid5 inp) o2" using h parts(1) by (rule handle_result_base)
  have lin: "lineage p' = planned_lineage uuid5 inp"
    using lineage_result[OF rec] parts(1) by (simp add: base_inv_def)
  have e: "fst e = a_applicationId (p_applications (o_progress o1) ! i)"
    using lk lineage_map_entry[OF good _ pos(1,2)] parts(1) pos(3)
    by (simp add: lookup_run_JStr[OF id] cm base_inv_def)
  have "counters_ok (o_progress o2)"
    using b parts(2) nt fresh pos by (auto simp: answered_def run_fresh_def intro!: counters_put)
  moreover have "runs_ok (o_progress o2)" using a b parts(3) by (rule answered_runs_ok)
  moreover have "pending_ok ?tasks o2"
    using answered_pending_ok[OF a b _ parts(4)] good by (simp add: good_batch_def)
  moreover have "results_ok ?tasks o2"
    using answered_results_ok[OF a b _ parts(5)] parts(4) by (simp add: pending_ok_def)
  moreover have "announced_ok o2"
    by (rule announced_step[OF good inv a p' lin _ _ _ app[unfolded e]]) simp_all
  ultimately show ?thesis using base2 by (simp add: exact_inv_def)
qed

end
