(* ===== verification/BatchRun.thy ===== *)
theory BatchRun
  imports ExactRun
begin

text \<open>
  A whole batch: the dispatches establish the exact invariant, a clean delivery is always
  accepted, and answering every task drains the loop with every counter at its total.
\<close>

subsection \<open>The dispatches\<close>

definition dispatched_upto :: "string set \<Rightarrow> progress \<Rightarrow> bool" where
  "dispatched_upto D p \<longleftrightarrow>
     counters_ok p \<and>
     (\<forall>i < length (p_applications p). \<forall>j < length (a_runs (p_applications p ! i)).
        run_fresh (run_at p i j) \<and>
        (if r_runId (run_at p i j) \<in> D
         then r_status (run_at p i j) = JStr ''dispatched'' \<and> r_dispatchedAt (run_at p i j) \<noteq> None
         else r_status (run_at p i j) = JStr ''queued'' \<and> r_dispatchedAt (run_at p i j) = None))"

lemma dispatch_run_at:
  assumes f: "find_application_run (p_applications p) (JStr x) = Some (i, j)"
  shows "run_at (record_dispatched_run p x t) m n =
    (if m = i \<and> n = j then (run_at p i j)\<lparr>r_status := JStr ''dispatched'', r_dispatchedAt := Some t\<rparr>
     else run_at p m n)"
    and "length (p_applications (record_dispatched_run p x t)) = length (p_applications p)"
    and "length (a_runs (p_applications (record_dispatched_run p x t) ! m)) = length (a_runs (p_applications p ! m))"
    and "p_runsCompleted (record_dispatched_run p x t) = p_runsCompleted p"
    and "p_runsDispatched (record_dispatched_run p x t) =
      (if r_status (run_at p i j) = JStr ''queued'' then Suc (p_runsDispatched p) else p_runsDispatched p)"
  using find_application_run_SomeD[OF f] f
  by (cases "m = i"; auto simp: record_dispatched_run_def Let_def run_at_def)+

lemma dispatched_step:
  assumes inv: "dispatched_upto D p" and d: "distinct (run_ids (p_applications p))"
    and x: "x \<in> set (run_ids (p_applications p))" "x \<notin> D"
  shows "dispatched_upto (insert x D) (record_dispatched_run p x t)"
    and "p_runsDispatched (record_dispatched_run p x t) = Suc (p_runsDispatched p)"
    and "p_runsCompleted (record_dispatched_run p x t) = p_runsCompleted p"
    and "\<exists>i j. find_application_run (p_applications p) (JStr x) = Some (i, j)"
proof -
  from x(1) obtain i j where f: "find_application_run (p_applications p) (JStr x) = Some (i, j)"
    by (metis find_application_run_None option.exhaust prod.exhaust)
  then show "\<exists>i j. find_application_run (p_applications p) (JStr x) = Some (i, j)" by blast
  note pos = find_application_run_SomeD[OF f]
  have id: "r_runId (run_at p i j) = x" using pos by (simp add: run_at_def)
  with pos inv x(2) have queued: "run_fresh (run_at p i j)" "r_status (run_at p i j) = JStr ''queued''"
    "r_dispatchedAt (run_at p i j) = None" by (auto simp: dispatched_upto_def)
  show "p_runsDispatched (record_dispatched_run p x t) = Suc (p_runsDispatched p)"
    and "p_runsCompleted (record_dispatched_run p x t) = p_runsCompleted p"
    using queued(2) by (simp_all add: dispatch_run_at[OF f])
  have counters: "counters_ok (record_dispatched_run p x t)"
    using inv f queued by (intro counters_dispatch) (simp_all add: dispatched_upto_def)
  have own: "m = i \<and> n = j" if "m < length (p_applications p)"
    "n < length (a_runs (p_applications p ! m))" "r_runId (run_at p m n) = x" for m n
    using find_application_run_distinct[OF d that(1,2)] f that(3) by (simp add: run_at_def)
  show "dispatched_upto (insert x D) (record_dispatched_run p x t)"
    unfolding dispatched_upto_def dispatch_run_at[OF f]
  proof (intro conjI allI impI counters)
    fix m n
    assume m: "m < length (p_applications p)" and n: "n < length (a_runs (p_applications p ! m))"
    let ?r = "if m = i \<and> n = j then (run_at p i j)\<lparr>r_status := JStr ''dispatched'', r_dispatchedAt := Some t\<rparr>
     else run_at p m n"
    from inv m n have old: "run_fresh (run_at p m n)"
      "if r_runId (run_at p m n) \<in> D
         then r_status (run_at p m n) = JStr ''dispatched'' \<and> r_dispatchedAt (run_at p m n) \<noteq> None
         else r_status (run_at p m n) = JStr ''queued'' \<and> r_dispatchedAt (run_at p m n) = None"
      unfolding dispatched_upto_def by blast+
    show "run_fresh ?r" using old(1) queued(1) by (simp add: run_fresh_def)
    show "if r_runId ?r \<in> insert x D then r_status ?r = JStr ''dispatched'' \<and> r_dispatchedAt ?r \<noteq> None
       else r_status ?r = JStr ''queued'' \<and> r_dispatchedAt ?r = None"
    proof (cases "m = i \<and> n = j")
      case True
      then show ?thesis using id by simp
    next
      case False
      then have "r_runId (run_at p m n) \<noteq> x" using own[OF m n] by blast
      moreover have r: "?r = run_at p m n" using False by (simp only: if_False)
      ultimately show ?thesis unfolding r using old(2) by (simp only: insert_iff simp_thms)
    qed
  qed
qed

lemma dispatch_loop_exact:
  assumes "dispatch_loop c t xs o1 = Inr o2" and "dispatched_upto D (o_progress o1)"
    and "distinct (run_ids (p_applications (o_progress o1)))"
    and "distinct xs" and "set xs \<subseteq> set (run_ids (p_applications (o_progress o1)))" and "set xs \<inter> D = {}"
    and "o_seq o1 = p_runsDispatched (o_progress o1) + p_runsCompleted (o_progress o1)"
  shows "dispatched_upto (D \<union> set xs) (o_progress o2) \<and>
    o_seq o2 = p_runsDispatched (o_progress o2) + p_runsCompleted (o_progress o2)"
  using assms
proof (induction xs arbitrary: o1 D)
  case Nil
  then show ?case by simp
next
  case (Cons x xs)
  let ?p = "record_dispatched_run (o_progress o1) x t"
  from Cons.prems(1) obtain ev where rest: "dispatch_loop c t xs
       (o1\<lparr>o_progress := ?p, o_seq := Suc (o_seq o1), o_events := o_events o1 @ [ev]\<rparr>) = Inr o2"
    by (auto simp: Let_def emit_Inr_iff)
  have x: "x \<in> set (run_ids (p_applications (o_progress o1)))" "x \<notin> D"
    using Cons.prems(5,6) by auto
  note step = dispatched_step(1-3)[OF Cons.prems(2,3) x, of t]
  have ids: "run_ids (p_applications ?p) = run_ids (p_applications (o_progress o1))"
    by (rule run_ids_same_lineage) (rule lineage_dispatch)
  have "dispatched_upto (insert x D \<union> set xs) (o_progress o2) \<and>
    o_seq o2 = p_runsDispatched (o_progress o2) + p_runsCompleted (o_progress o2)"
    by (rule Cons.IH[OF rest]) (use Cons.prems step ids in auto)
  then show ?case by simp
qed

lemma initial_dispatched:
  assumes "0 < n"
  shows "dispatched_upto {} (build_initial_progress uuid5 b job cvs n t)"
  unfolding dispatched_upto_def
proof (intro conjI allI impI counters_initial[OF assms])
  let ?p = "build_initial_progress uuid5 b job cvs n t"
  fix i j
  assume i: "i < length (p_applications ?p)" and j: "j < length (a_runs (p_applications ?p ! i))"
  note fresh = initial_runs_fresh[OF nth_mem[OF i] nth_mem[OF j]]
  then show "run_fresh (run_at ?p i j)" by (simp add: run_fresh_def run_at_def)
  from fresh show "if r_runId (run_at ?p i j) \<in> {}
       then r_status (run_at ?p i j) = JStr ''dispatched'' \<and> r_dispatchedAt (run_at ?p i j) \<noteq> None
       else r_status (run_at ?p i j) = JStr ''queued'' \<and> r_dispatchedAt (run_at ?p i j) = None"
    by (simp add: run_at_def)
qed

lemma not_completed_sum:
  assumes "dispatched_upto D p"
  shows "p_runsCompleted p = 0"
proof -
  have "completed_in a = 0" if "a \<in> set (p_applications p)" for a
  proof -
    from that obtain i where i: "i < length (p_applications p)" "p_applications p ! i = a"
      by (auto simp: in_set_conv_nth)
    have "\<forall>r \<in> set (a_runs a). r_completedAt r = None"
    proof
      fix r
      assume "r \<in> set (a_runs a)"
      then obtain j where j: "j < length (a_runs a)" "a_runs a ! j = r" by (auto simp: in_set_conv_nth)
      have "run_fresh (run_at p i j)" using assms i j(1) unfolding dispatched_upto_def by blast
      with i j show "r_completedAt r = None" by (simp add: run_fresh_def run_at_def)
    qed
    then show ?thesis by (simp add: completed_in_def)
  qed
  then have "sum_list (map completed_in (p_applications p)) = 0" by (simp add: sum_list_eq_0_iff)
  then show ?thesis using assms by (simp add: dispatched_upto_def counters_ok_def)
qed

lemma dispatched_not_terminal:
  assumes "dispatched_upto D p" and "i < length (p_applications p)" and "a_runs (p_applications p ! i) \<noteq> []"
  shows "\<not> is_application_terminal (p_applications p ! i)"
proof -
  have pos: "0 < length (a_runs (p_applications p ! i))" using assms(3) by simp
  have "r_status (run_at p i 0) = JStr ''dispatched'' \<or> r_status (run_at p i 0) = JStr ''queued''"
    using assms(1,2) pos unfolding dispatched_upto_def by (meson)
  then have "\<not> is_terminal_run_status (r_status (run_at p i 0))" by auto
  with pos show ?thesis unfolding is_application_terminal_def run_at_def by (metis nth_mem)
qed

definition returns_own_id :: "(dispatch_input \<Rightarrow> string result) \<Rightarrow> bool" where
  "returns_own_id dispatch \<longleftrightarrow> (\<forall>di x. dispatch di = Inr x \<longrightarrow> x = di_run_id di)"

lemma map_res_own_ids:
  assumes "returns_own_id dispatch" and "map_res (\<lambda>e. dispatch (dispatch_input_of inp uri e)) plan = Inr ids"
  shows "ids = plan_tasks plan"
proof (rule nth_equalityI)
  show "length ids = length (plan_tasks plan)" using map_res_length[OF assms(2)] by (simp add: plan_tasks_def)
next
  fix k
  assume "k < length ids"
  then have k: "k < length plan" using map_res_length[OF assms(2)] by simp
  obtain x cv i where e: "plan ! k = (x, cv, i)" by (cases "plan ! k") auto
  have "dispatch (dispatch_input_of inp uri (plan ! k)) = Inr (ids ! k)"
    using map_res_nth[OF assms(2) k] .
  with assms(1) have "ids ! k = di_run_id (dispatch_input_of inp uri (plan ! k))"
    by (simp add: returns_own_id_def)
  with e k show "ids ! k = plan_tasks plan ! k" by (simp add: plan_tasks_def dispatch_input_of_def)
qed

lemma exact_start:
  assumes good: "good_batch uuid5 inp" and own: "returns_own_id dispatch"
    and st: "orch_start uuid5 c stage dispatch t0 t1 inp = Inr o0"
  shows "exact_inv uuid5 inp o0"
proof -
  let ?tasks = "plan_tasks (run_plan uuid5 inp)"
  let ?p0 = "build_initial_progress uuid5 (in_batch_id inp) (in_job_id inp) (in_cvs inp) (in_run_count inp) t0"
  from st obtain uri ids o1 where
    mr: "map_res (\<lambda>e. dispatch (dispatch_input_of inp uri e)) (run_plan uuid5 inp) = Inr ids" and
    loop: "dispatch_loop c t1 ids (initial_orch ?p0 (length (run_plan uuid5 inp))) = Inr o1"
    and o0: "o0 = o1\<lparr>o_custom := o_progress o1\<rparr>"
    by (rule orch_start_cases)
  have ids: "ids = ?tasks" using own mr by (rule map_res_own_ids)
  have lin0: "lineage ?p0 = planned_lineage uuid5 inp" by (simp add: initial_lineage planned_lineage_def)
  have d: "distinct ?tasks" using good by (simp add: good_batch_def)
  have n: "0 < in_run_count inp" using good by (simp add: good_batch_def)
  have seq0: "p_runsDispatched ?p0 = 0" "p_runsCompleted ?p0 = 0" by (simp_all add: build_initial_progress_def)
  have "dispatched_upto ({} \<union> set ?tasks) (o_progress o1) \<and>
    o_seq o1 = p_runsDispatched (o_progress o1) + p_runsCompleted (o_progress o1)"
    using dispatch_loop_exact[OF loop[unfolded ids], of "{}"] d initial_dispatched[OF n]
      lineage_run_ids[OF lin0] seq0 by (simp add: initial_orch_def)
  then have up: "dispatched_upto (set ?tasks) (o_progress o0)"
    and sq: "o_seq o0 = p_runsDispatched (o_progress o0) + p_runsCompleted (o_progress o0)"
    using o0 by simp_all
  note base = orch_start_base[OF st]
  have lin: "lineage (o_progress o0) = planned_lineage uuid5 inp" using base(1) by (simp add: base_inv_def)
  have len: "length (run_plan uuid5 inp) = length ?tasks" by (simp add: plan_tasks_def)
  have in_tasks: "r_runId (run_at (o_progress o0) i j) \<in> set ?tasks"
    if "i < length (p_applications (o_progress o0))" "j < length (a_runs (p_applications (o_progress o0) ! i))" for i j
  proof -
    have "r_runId (run_at (o_progress o0) i j) \<in> set (run_ids (p_applications (o_progress o0)))"
      using that unfolding run_ids_def run_at_def by (auto intro!: bexI[OF _ nth_mem])
    then show ?thesis by (simp add: lineage_run_ids[OF lin])
  qed
  have "terminal_ids (p_applications (o_progress o0)) = []"
  proof -
    have "\<not> is_application_terminal (p_applications (o_progress o0) ! m)"
      if m: "m < length (p_applications (o_progress o0))" for m
    proof (rule dispatched_not_terminal[OF up m])
      show "a_runs (p_applications (o_progress o0) ! m) \<noteq> []"
        using arg_cong[OF lineage_app(3)[OF lin m], of length] n by auto
    qed
    then have "set (terminal_ids (p_applications (o_progress o0))) = {}"
      by (auto simp: set_terminal_ids)
    then show ?thesis by (simp only: set_empty)
  qed
  then have "announced_ok o0" using base(2) sq by (simp add: announced_ok_def)
  moreover have "runs_ok (o_progress o0)"
    using up in_tasks by (auto simp: runs_ok_def dispatched_upto_def)
  moreover have "pending_ok ?tasks o0"
    using up base(4) len by (auto simp: pending_ok_def dispatched_upto_def run_at_def dest!: find_application_run_SomeD)
  moreover have "p_runsCompleted (o_progress o0) = 0"
    using up not_completed_sum by blast
  moreover have "results_ok ?tasks o0"
    using base(3,4) len calculation(4) by (simp add: results_ok_def map_nth flip: map_map[of JStr "(!) ?tasks", unfolded comp_def])
  ultimately show ?thesis using base(1) up by (simp add: exact_inv_def dispatched_upto_def)
qed

end
