(* ===== verification/BatchOutcome.thy ===== *)
theory BatchOutcome
  imports BatchRun
begin

text \<open>
  What a batch comes to: the exact invariant read off as numbers, a delivery the loop cannot
  refuse, and the completion of a batch in which every task is answered.
\<close>

subsection \<open>The invariant read as numbers\<close>

lemma length_run_ids: "length (run_ids apps) = sum_list (map (\<lambda>a. length (a_runs a)) apps)"
  by (simp add: run_ids_def length_concat comp_def)

lemma exact_totals:
  assumes "exact_inv uuid5 inp o1"
  shows "p_runsTotal (o_progress o1) = length (plan_tasks (run_plan uuid5 inp))"
    and "p_cvsTotal (o_progress o1) = length (in_cvs inp)"
    and "p_runsDispatched (o_progress o1) = p_runsTotal (o_progress o1)"
    and "p_runsCompleted (o_progress o1) + length (o_pending o1) = p_runsTotal (o_progress o1)"
proof -
  let ?p = "o_progress o1" and ?tasks = "plan_tasks (run_plan uuid5 inp)"
  have lin: "lineage ?p = planned_lineage uuid5 inp" and cnt: "counters_ok ?p" and ok: "runs_ok ?p"
    and res: "results_ok ?tasks o1"
    using assms by (simp_all add: exact_inv_def base_inv_def)
  show tot: "p_runsTotal ?p = length ?tasks"
    using cnt lineage_run_ids[OF lin] length_run_ids[of "p_applications ?p"] by (simp add: counters_ok_def)
  show "p_cvsTotal ?p = length (in_cvs inp)"
    using cnt arg_cong[OF lin, of length] by (simp add: counters_ok_def lineage_def planned_lineage_def)
  have "dispatched_in a = length (a_runs a)" if "a \<in> set (p_applications ?p)" for a
  proof -
    from that obtain i where i: "i < length (p_applications ?p)" "p_applications ?p ! i = a"
      by (auto simp: in_set_conv_nth)
    have "\<forall>r \<in> set (a_runs a). r_dispatchedAt r \<noteq> None"
    proof
      fix r
      assume "r \<in> set (a_runs a)"
      then obtain j where j: "j < length (a_runs a)" "a_runs a ! j = r" by (auto simp: in_set_conv_nth)
      have "r_dispatchedAt (run_at ?p i j) \<noteq> None" using ok i j(1) unfolding runs_ok_def by blast
      with i j show "r_dispatchedAt r \<noteq> None" by (simp add: run_at_def)
    qed
    then show ?thesis by (simp add: dispatched_in_def filter_all_length)
  qed
  then have "map dispatched_in (p_applications ?p) = map (\<lambda>a. length (a_runs a)) (p_applications ?p)"
    by simp
  with cnt show "p_runsDispatched ?p = p_runsTotal ?p" by (simp only: counters_ok_def)
  have "size (mset (map (\<lambda>rr. dget rr ''run_id'') (o_results o1)) + mset (map (\<lambda>k. JStr (?tasks ! k)) (o_pending o1)))
     = size (mset (map JStr ?tasks))"
    using res by (simp only: results_ok_def)
  then have "length (o_results o1) + length (o_pending o1) = length ?tasks" by simp
  with res tot show "p_runsCompleted ?p + length (o_pending o1) = p_runsTotal ?p"
    by (simp add: results_ok_def)
qed

lemma exact_announced:
  assumes "good_batch uuid5 inp" and "exact_inv uuid5 inp o1"
  shows "length (o_emitted o1) = p_cvsCompleted (o_progress o1)"
    and "next_event_sequence (o_progress o1) = Suc (o_seq o1)"
proof -
  let ?apps = "p_applications (o_progress o1)"
  have lin: "lineage (o_progress o1) = planned_lineage uuid5 inp" and d: "distinct (o_emitted o1)"
    and cnt: "counters_ok (o_progress o1)" and ann: "announced_ok o1"
    using assms(2) by (simp_all add: exact_inv_def base_inv_def)
  have da: "distinct (map a_applicationId ?apps)"
    using assms(1) by (intro lineage_distinct_apps[OF lin]) (simp add: good_batch_def)
  have "length (o_emitted o1) = card (set (terminal_ids ?apps))"
    using ann distinct_card[OF d] by (simp add: announced_ok_def)
  also have "\<dots> = length (terminal_ids ?apps)"
    by (rule distinct_card) (simp add: terminal_ids_def)
  finally have len: "length (o_emitted o1) = length (terminal_ids ?apps)" .
  with cnt show "length (o_emitted o1) = p_cvsCompleted (o_progress o1)" by (simp add: counters_ok_def)
  have "length (terminal_ids ?apps) = length (filter is_application_terminal ?apps)"
    using da by (simp add: terminal_ids_def distinct_remdups_id distinct_map_filter)
  with len ann show "next_event_sequence (o_progress o1) = Suc (o_seq o1)"
    by (simp add: next_event_sequence_def announced_ok_def)
qed

subsection \<open>A turn that cannot fail\<close>

text \<open>
  A sound delivery carries the run id of the task it answers and artifacts the loop can read,
  a clean one a final status as well.
\<close>

definition sound :: "ctx \<Rightarrow> string list \<Rightarrow> delivery \<Rightarrow> bool" where
  "sound c tasks d \<longleftrightarrow> matched c tasks d \<and>
     (case d of (k, v, t) \<Rightarrow>
        (case coerce_run_result_payload (c_loads c) v of Inl e \<Rightarrow> False | Inr rr \<Rightarrow> artifacts_ok rr))"

definition clean :: "ctx \<Rightarrow> string list \<Rightarrow> delivery \<Rightarrow> bool" where
  "clean c tasks d \<longleftrightarrow> matched c tasks d \<and>
     (case d of (k, v, t) \<Rightarrow>
        (case coerce_run_result_payload (c_loads c) v of
           Inl e \<Rightarrow> False
         | Inr rr \<Rightarrow> artifacts_ok rr \<and> is_terminal_run_status (dget rr ''status'')))"

lemma clean_sound: "clean c tasks d \<Longrightarrow> sound c tasks d"
  by (auto simp: clean_def sound_def split: sum.splits)

lemma sound_matched: "sound c tasks d \<Longrightarrow> matched c tasks d"
  by (simp add: sound_def)

definition projects :: "ctx \<Rightarrow> bool" where
  "projects c \<longleftrightarrow> (\<forall>ev. c_project c ev = Inr ())"

lemma record_succeeds:
  assumes "artifacts_ok rr"
  shows "\<exists>p'. record_run_result p rr t = Inr p'"
proof -
  from assms obtain items ns where "py_iter (py_or (dget rr ''artifacts'') (JList [])) = Inr items"
    "artifact_names items = Inr ns"
    by (auto simp: artifacts_ok_def split: sum.splits)
  with py_iter_len[of _ items] show ?thesis
    by (auto simp: record_run_result_def Let_def split: option.splits)
qed

lemma emit_succeeds: "projects c \<Longrightarrow> emit c (Inr e) o1 = Inr (o1\<lparr>o_events := o_events o1 @ [e]\<rparr>)"
  by (simp add: emit_def projects_def)

lemma application_event_succeeds:
  assumes "projects c"
  shows "\<exists>o2. emit_application_event c rr t app_id o1 = Inr o2"
proof (cases "app_event_due o1 app_id")
  case False
  then show ?thesis by (simp add: emit_application_event_def)
next
  case True
  then obtain a where a: "find_application (o_progress o1) app_id = Some a"
    by (auto simp: app_event_due_def split: option.splits)
  then have mem: "a \<in> set (p_applications (o_progress o1))"
    by (auto simp: find_application_def find_Some_iff)
  have "\<exists>ev. build_application_terminal_live_event (o_progress o1) t sq cid tp app_id = Inr ev" for sq cid tp
  proof (cases "List.find (\<lambda>r. r_runId r \<noteq> []) (a_runs a)")
    case None
    then show ?thesis using a build_event_no_run
      by (simp add: build_application_terminal_live_event_def)
  next
    case (Some r)
    then have "r \<in> set (a_runs a)" by (auto simp: find_Some_iff)
    with mem have "r_runId r \<in> set (run_ids (p_applications (o_progress o1)))"
      by (auto simp: run_ids_def)
    then obtain i j where "find_application_run (p_applications (o_progress o1)) (JStr (r_runId r)) = Some (i, j)"
      by (metis find_application_run_None option.exhaust prod.exhaust)
    then show ?thesis using a Some build_event_known_run
      by (simp add: build_application_terminal_live_event_def)
  qed
  with True assms show ?thesis
    by (simp add: emit_application_event_def Let_def)
       (metis emit_succeeds)
qed

lemma turn_succeeds:
  assumes good: "good_batch uuid5 inp" and cm: "c_map c = run_index_map (run_plan uuid5 inp)"
    and inv: "exact_inv uuid5 inp o1" and pr: "projects c"
    and cl: "sound c (plan_tasks (run_plan uuid5 inp)) (k, v, t)"
  shows "\<exists>o2. handle_result c k v t o1 = Inr o2"
proof -
  let ?tasks = "plan_tasks (run_plan uuid5 inp)"
  have m: "matched c ?tasks (k, v, t)" using cl by (simp add: sound_def)
  from cl obtain rr where co: "coerce_run_result_payload (c_loads c) v = Inr rr" and art: "artifacts_ok rr"
    by (auto simp: sound_def split: sum.splits)
  note k = matchedD[OF m co]
  obtain p' where rec: "record_run_result (o_progress o1) rr t = Inr p'" using record_succeeds[OF art] by blast
  have "lineage p' = planned_lineage uuid5 inp"
    using lineage_result[OF rec] inv by (simp add: exact_inv_def base_inv_def)
  then have "?tasks ! k \<in> set (run_ids (p_applications p'))" using k(1) by (simp add: lineage_run_ids)
  then obtain i j where "find_application_run (p_applications p') (JStr (?tasks ! k)) = Some (i, j)"
    by (metis find_application_run_None option.exhaust prod.exhaust)
  then obtain ev where ev: "build_run_terminal_live_event p' t (Suc (o_seq o1)) (c_corr c) (c_trace c) rr = Inr ev"
    using build_event_known_run k(2) unfolding build_run_terminal_live_event_def by fastforce
  obtain x cv n where e: "run_plan uuid5 inp ! k = (x, cv, n)" by (cases "run_plan uuid5 inp ! k") auto
  have klen: "k < length (run_plan uuid5 inp)" using k(1) by (simp add: plan_tasks_def)
  have "(?tasks ! k, cv, n) \<in> set (run_plan uuid5 inp)"
    using nth_mem[OF klen] e klen by (simp add: plan_tasks_def)
  then have "c_map c (?tasks ! k) = Some (cv_applicationId cv, n)"
    using good cm by (simp add: good_batch_def run_index_map_entry)
  then have lk: "lookup_run (c_map c) rr = Inr (cv_applicationId cv, n)" by (simp add: lookup_run_JStr[OF k(2)])
  show ?thesis
    using application_event_succeeds[OF pr]
    by (simp add: handle_result_def co rec ev lk Let_def emit_succeeds[OF pr])
qed

subsection \<open>The loop over a whole sequence of deliveries\<close>

lemma exact_collect:
  assumes good: "good_batch uuid5 inp" and cm: "c_map c = run_index_map (run_plan uuid5 inp)"
    and inv: "exact_inv uuid5 inp o1"
    and ds: "\<forall>d \<in> set ds. matched c (plan_tasks (run_plan uuid5 inp)) d"
    and run: "collect c ds o1 = Inr r"
  shows "\<exists>o2. (r = Waiting o2 \<or> r = Drained o2 \<and> o_pending o2 = []) \<and> exact_inv uuid5 inp o2"
  using inv ds run
proof (induction ds arbitrary: o1)
  case Nil
  then show ?case by (auto split: if_splits)
next
  case (Cons d ds)
  obtain k v t where d: "d = (k, v, t)" by (cases d) auto
  show ?case
  proof (cases "o_pending o1 = [] \<or> k \<notin> set (o_pending o1)")
    case True
    with Cons d show ?thesis by (auto split: if_splits)
  next
    case False
    with Cons.prems(3) d obtain o3 where o3: "handle_result c k v t o1 = Inr o3" "collect c ds o3 = Inr r"
      by auto
    have "matched c (plan_tasks (run_plan uuid5 inp)) (k, v, t)" using Cons.prems(2) d by simp
    with exact_step[OF good cm Cons.prems(1) _ _ o3(1)] False have "exact_inv uuid5 inp o3" by simp
    with Cons.IH o3(2) Cons.prems(2) show ?thesis by simp
  qed
qed

lemma collect_drains:
  assumes good: "good_batch uuid5 inp" and cm: "c_map c = run_index_map (run_plan uuid5 inp)"
    and inv: "exact_inv uuid5 inp o1" and pr: "projects c"
    and ds: "\<forall>d \<in> set ds. sound c (plan_tasks (run_plan uuid5 inp)) d"
    and cov: "set (o_pending o1) \<subseteq> fst ` set ds"
  shows "\<exists>o2. collect c ds o1 = Inr (Drained o2)"
  using inv ds cov
proof (induction ds arbitrary: o1)
  case Nil
  then show ?case by simp
next
  case (Cons d ds)
  obtain k v t where d: "d = (k, v, t)" by (cases d) auto
  show ?case
  proof (cases "o_pending o1 = []")
    case True
    with d show ?thesis by simp
  next
    case ne: False
    show ?thesis
    proof (cases "k \<in> set (o_pending o1)")
      case False
      with Cons d ne show ?thesis by auto
    next
      case True
      have cl: "sound c (plan_tasks (run_plan uuid5 inp)) (k, v, t)" using Cons.prems(2) d by simp
      from turn_succeeds[OF good cm Cons.prems(1) pr cl] obtain o3 where o3: "handle_result c k v t o1 = Inr o3" ..
      have "exact_inv uuid5 inp o3"
        using exact_step[OF good cm Cons.prems(1) True _ o3] cl by (simp add: sound_def)
      moreover have "set (o_pending o3) \<subseteq> fst ` set ds"
        using handle_result_pending(1)[OF o3] Cons.prems(3) d by auto
      ultimately obtain o2 where "collect c ds o3 = Inr (Drained o2)" 
        using Cons.IH[of o3] Cons.prems(2) by (meson list.set_intros(2))
      with ne True d o3 show ?thesis by auto
    qed
  qed
qed

text \<open>Whatever sound results arrive, in any order and number, no turn of the loop raises.\<close>

lemma collect_proceeds:
  assumes good: "good_batch uuid5 inp" and cm: "c_map c = run_index_map (run_plan uuid5 inp)"
    and inv: "exact_inv uuid5 inp o1" and pr: "projects c"
    and ds: "\<forall>d \<in> set ds. sound c (plan_tasks (run_plan uuid5 inp)) d"
  shows "\<exists>r. collect c ds o1 = Inr r"
  using inv ds
proof (induction ds arbitrary: o1)
  case Nil
  then show ?case by simp
next
  case (Cons d ds)
  obtain k v t where d: "d = (k, v, t)" by (cases d) auto
  show ?case
  proof (cases "o_pending o1 = [] \<or> k \<notin> set (o_pending o1)")
    case True
    with Cons d show ?thesis by auto
  next
    case False
    have cl: "sound c (plan_tasks (run_plan uuid5 inp)) (k, v, t)" using Cons.prems(2) d by simp
    from turn_succeeds[OF good cm Cons.prems(1) pr cl] obtain o3 where o3: "handle_result c k v t o1 = Inr o3" ..
    have "exact_inv uuid5 inp o3"
      using exact_step[OF good cm Cons.prems(1) _ _ o3] cl False by (simp add: sound_def)
    with Cons.IH[of o3] Cons.prems(2) False d o3 show ?thesis by auto
  qed
qed

lemma handle_result_appends:
  assumes "handle_result c k v t o1 = Inr o2"
  shows "\<exists>rr. coerce_run_result_payload (c_loads c) v = Inr rr \<and> o_results o2 = o_results o1 @ [rr]"
proof -
  from assms obtain rr p' ev e where rr: "coerce_run_result_payload (c_loads c) v = Inr rr" and
    "record_run_result (o_progress o1) rr t = Inr p'"
    "build_run_terminal_live_event p' t (Suc (o_seq o1)) (c_corr c) (c_trace c) rr = Inr ev"
    "lookup_run (c_map c) rr = Inr e" and
    app: "emit_application_event c rr t (fst e)
       (o1\<lparr>o_pending := filter (\<lambda>k'. k' \<noteq> k) (o_pending o1), o_results := o_results o1 @ [rr],
           o_progress := p', o_custom := p', o_seq := Suc (o_seq o1),
           o_events := o_events o1 @ [ev]\<rparr>) = Inr o2"
    by (rule handle_resultE)
  from app have "o_results o2 = o_results o1 @ [rr]"
    by (cases rule: emit_application_event_cases) simp_all
  with rr show ?thesis by blast
qed

lemma collect_results_from:
  assumes "collect c ds o1 = Inr r" and "r = Waiting o2 \<or> r = Drained o2"
    and "\<forall>rr \<in> set (o_results o1). P rr"
    and "\<And>k v t rr. (k, v, t) \<in> set ds \<Longrightarrow> coerce_run_result_payload (c_loads c) v = Inr rr \<Longrightarrow> P rr"
  shows "\<forall>rr \<in> set (o_results o2). P rr"
  using assms
proof (induction ds arbitrary: o1)
  case Nil
  have "r = Waiting o1 \<or> r = Drained o1" using Nil.prems(1) by (simp split: if_splits)
  with Nil.prems(2) have "o2 = o1" by (elim disjE) simp_all
  with Nil.prems(3) show ?case by simp
next
  case (Cons d ds)
  obtain k v t where d: "d = (k, v, t)" by (cases d) auto
  consider (empty) "o_pending o1 = []" | (skip) "o_pending o1 \<noteq> []" "k \<notin> set (o_pending o1)"
    | (turn) "o_pending o1 \<noteq> []" "k \<in> set (o_pending o1)" by blast
  then show ?case
  proof cases
    case empty
    then have "r = Drained o1" using Cons.prems(1) d by simp
    with Cons.prems(2) have "o2 = o1" by simp
    with Cons.prems(3) show ?thesis by simp
  next
    case skip
    then have "collect c ds o1 = Inr r" using Cons.prems(1) d by simp
    from Cons.IH[OF this Cons.prems(2,3)] Cons.prems(4) show ?thesis by (meson list.set_intros(2))
  next
    case turn
    with Cons.prems(1) d obtain o3 where o3: "handle_result c k v t o1 = Inr o3" "collect c ds o3 = Inr r"
      by (simp add: bind_res_Inr_iff del: split_paired_Ex) blast
    from handle_result_appends[OF o3(1)] obtain rr where rr: "coerce_run_result_payload (c_loads c) v = Inr rr"
      and "o_results o3 = o_results o1 @ [rr]" by blast
    moreover have "P rr" using Cons.prems(4) rr d by (meson list.set_intros(1))
    ultimately have "\<forall>rr \<in> set (o_results o3). P rr" using Cons.prems(3) by simp
    from Cons.IH[OF o3(2) Cons.prems(2) this] Cons.prems(4) show ?thesis by (meson list.set_intros(2))
  qed
qed


subsection \<open>A drained batch\<close>

lemma drained_all_terminal:
  assumes good: "good_batch uuid5 inp" and inv: "exact_inv uuid5 inp o1" and dr: "o_pending o1 = []"
    and fin: "\<forall>rr \<in> set (o_results o1). is_terminal_run_status (dget rr ''status'')"
    and a: "a \<in> set (p_applications (o_progress o1))"
  shows "is_application_terminal a"
  unfolding is_application_terminal_def
proof
  let ?p = "o_progress o1" and ?tasks = "plan_tasks (run_plan uuid5 inp)"
  fix r
  assume r: "r \<in> set (a_runs a)"
  from a obtain i where i: "i < length (p_applications ?p)" "p_applications ?p ! i = a"
    by (auto simp: in_set_conv_nth)
  from r obtain j where j: "j < length (a_runs a)" "a_runs a ! j = r" by (auto simp: in_set_conv_nth)
  have lin: "lineage ?p = planned_lineage uuid5 inp" and res: "results_ok ?tasks o1"
    using inv by (simp_all add: exact_inv_def base_inv_def)
  have ids: "run_ids (p_applications ?p) = ?tasks" using lin by (rule lineage_run_ids)
  have d: "distinct (run_ids (p_applications ?p))" using good by (simp add: ids good_batch_def)
  have f: "find_application_run (p_applications ?p) (JStr (r_runId r)) = Some (i, j)"
    using find_application_run_distinct[OF d i(1), of j] i j by simp
  have "r_runId r \<in> set (run_ids (p_applications ?p))" using a r by (auto simp: run_ids_def)
  then have "JStr (r_runId r) \<in># mset (map JStr ?tasks)" by (simp add: ids)
  also have "mset (map JStr ?tasks) = mset (map (\<lambda>rr. dget rr ''run_id'') (o_results o1))"
    using res dr by (simp add: results_ok_def)
  finally obtain rr where rr: "rr \<in> set (o_results o1)" "dget rr ''run_id'' = JStr (r_runId r)" by auto
  then have "result_kept ?p rr" using res by (simp add: results_ok_def)
  then have "r_status (run_at ?p i j) = dget rr ''status''" using f rr(2) by (simp add: result_kept_def)
  with rr(1) fin i j show "is_terminal_run_status (r_status r)" by (simp add: run_at_def)
qed

lemma drained_applications:
  assumes good: "good_batch uuid5 inp" and inv: "exact_inv uuid5 inp o1" and dr: "o_pending o1 = []"
    and fin: "\<forall>rr \<in> set (o_results o1). is_terminal_run_status (dget rr ''status'')"
  shows "p_cvsCompleted (o_progress o1) = length (in_cvs inp)"
    and "set (o_emitted o1) = cv_applicationId ` set (in_cvs inp)"
proof -
  let ?apps = "p_applications (o_progress o1)"
  have lin: "lineage (o_progress o1) = planned_lineage uuid5 inp" and cnt: "counters_ok (o_progress o1)"
    and ann: "announced_ok o1"
    using inv by (simp_all add: exact_inv_def base_inv_def)
  have all: "\<forall>a \<in> set ?apps. is_application_terminal a"
    using drained_all_terminal[OF good inv dr fin] by blast
  have d: "distinct (map a_applicationId ?apps)"
    using good by (intro lineage_distinct_apps[OF lin]) (simp add: good_batch_def)
  have "p_cvsCompleted (o_progress o1) = length ?apps"
    using cnt terminal_ids_all[OF all d] by (simp add: counters_ok_def)
  then show "p_cvsCompleted (o_progress o1) = length (in_cvs inp)"
    using arg_cong[OF lin, of length] by (simp add: lineage_def planned_lineage_def)
  have "map a_applicationId ?apps = map cv_applicationId (in_cvs inp)"
    using arg_cong[OF lin, of "map fst"] by (simp add: lineage_def planned_lineage_def comp_def)
  moreover have "set (terminal_ids ?apps) = set (map a_applicationId ?apps)"
    using all by (auto simp: terminal_ids_def)
  ultimately show "set (o_emitted o1) = cv_applicationId ` set (in_cvs inp)"
    using ann by (simp add: announced_ok_def)
qed

subsection \<open>The start and the end of the coroutine\<close>

lemma dispatch_loop_succeeds:
  assumes "projects c" and "set xs \<subseteq> set (run_ids (p_applications (o_progress o1)))"
  shows "\<exists>o2. dispatch_loop c t xs o1 = Inr o2"
  using assms(2)
proof (induction xs arbitrary: o1)
  case Nil
  then show ?case by simp
next
  case (Cons x xs)
  let ?p = "record_dispatched_run (o_progress o1) x t"
  have ids: "run_ids (p_applications ?p) = run_ids (p_applications (o_progress o1))"
    by (rule run_ids_same_lineage) (rule lineage_dispatch)
  with Cons.prems obtain i j where "find_application_run (p_applications ?p) (JStr x) = Some (i, j)"
    by (metis find_application_run_None list.set_intros(1) option.exhaust prod.exhaust subsetD)
  then obtain ev where
    ev: "build_live_progress_event ''run.dispatched'' ?p t (Suc (o_seq o1)) (c_corr c) (c_trace c) (JStr x) None = Inr ev"
    using build_event_known_run by blast
  have "\<exists>o2. dispatch_loop c t xs (o1\<lparr>o_progress := ?p, o_seq := Suc (o_seq o1), o_events := o_events o1 @ [ev]\<rparr>) = Inr o2"
    using Cons.prems ids by (intro Cons.IH) simp
  then show ?case by (simp add: Let_def ev emit_succeeds[OF assms(1)])
qed

text \<open>Every dispatch of the plan succeeds, wherever the prompt was staged.\<close>

definition dispatches_plan :: "(dispatch_input \<Rightarrow> string result) \<Rightarrow> (string \<Rightarrow> string) \<Rightarrow> orch_input \<Rightarrow> bool" where
  "dispatches_plan dispatch uuid5 inp \<longleftrightarrow>
     (\<forall>uri. \<forall>e \<in> set (run_plan uuid5 inp). \<exists>x. dispatch (dispatch_input_of inp uri e) = Inr x)"

lemma start_succeeds:
  assumes "projects c" and uri: "stage (dget_or (in_prompt inp) ''text'' (JStr [])) = Inr uri"
    and own: "returns_own_id dispatch" and plan: "dispatches_plan dispatch uuid5 inp"
  shows "\<exists>o0. orch_start uuid5 c stage dispatch t0 t1 inp = Inr o0"
proof -
  let ?plan = "run_plan uuid5 inp"
  let ?p0 = "build_initial_progress uuid5 (in_batch_id inp) (in_job_id inp) (in_cvs inp) (in_run_count inp) t0"
  have ids: "map_res (\<lambda>e. dispatch (dispatch_input_of inp uri e)) ?plan = Inr (plan_tasks ?plan)"
    unfolding plan_tasks_def
  proof (rule map_res_all)
    fix e
    assume "e \<in> set ?plan"
    with plan obtain x where x: "dispatch (dispatch_input_of inp uri e) = Inr x" by (auto simp: dispatches_plan_def)
    with own have "x = di_run_id (dispatch_input_of inp uri e)" by (simp add: returns_own_id_def)
    with x show "dispatch (dispatch_input_of inp uri e) = Inr (fst e)" by (cases e) (simp add: dispatch_input_of_def)
  qed
  have "lineage ?p0 = planned_lineage uuid5 inp" by (simp add: initial_lineage planned_lineage_def)
  then have "run_ids (p_applications ?p0) = plan_tasks ?plan" by (rule lineage_run_ids)
  then obtain o1 where "dispatch_loop c t1 (plan_tasks ?plan) (initial_orch ?p0 (length ?plan)) = Inr o1"
    using dispatch_loop_succeeds[OF assms(1), of "plan_tasks ?plan" "initial_orch ?p0 (length ?plan)" t1]
    by (auto simp: initial_orch_def)
  with uri ids show ?thesis by (simp add: orch_start_def Let_def)
qed

lemma tag_results_succeeds:
  assumes good: "good_batch uuid5 inp" and m: "m = run_index_map (run_plan uuid5 inp)"
    and inv: "exact_inv uuid5 inp o1"
  shows "\<exists>trs. tag_results m (o_results o1) = Inr trs \<and> map tr_result trs = o_results o1"
proof -
  let ?tasks = "plan_tasks (run_plan uuid5 inp)"
  have res: "results_ok ?tasks o1" using inv by (simp add: exact_inv_def)
  have "\<exists>e. lookup_run m rr = Inr e" if "rr \<in> set (o_results o1)" for rr
  proof -
    have "dget rr ''run_id'' \<in># mset (map (\<lambda>rr. dget rr ''run_id'') (o_results o1))" using that by auto
    then have "dget rr ''run_id'' \<in># mset (map JStr ?tasks)"
      using res unfolding results_ok_def by (metis union_iff)
    then obtain x where x: "dget rr ''run_id'' = JStr x" "x \<in> set ?tasks" by auto
    then obtain cv i where "(x, cv, i) \<in> set (run_plan uuid5 inp)" by (auto simp: plan_tasks_def)
    then have "m x = Some (cv_applicationId cv, i)"
      using good m by (simp add: good_batch_def run_index_map_entry)
    moreover have "dindex rr ''run_id'' = Inr (JStr x)"
      using x(1) by (simp add: dget_def dindex_def split: option.splits)
    ultimately show ?thesis by (auto simp: lookup_run_JStr)
  qed
  then have "\<forall>rr \<in> set (o_results o1). \<exists>e. lookup_run m rr = Inr e" by blast
  then obtain g where g: "\<forall>rr \<in> set (o_results o1). lookup_run m rr = Inr (g rr)" by metis
  have "tag_results m (o_results o1) =
      Inr (map (\<lambda>rr. \<lparr>tr_application_id = fst (g rr), tr_run_index = snd (g rr), tr_result = rr\<rparr>) (o_results o1))"
    unfolding tag_results_def by (rule map_res_all) (simp add: g)
  then show ?thesis by (simp add: comp_def)
qed

definition finished :: "orch \<Rightarrow> string \<Rightarrow> string \<Rightarrow> live_event \<Rightarrow> orch" where
  "finished o1 st t ev =
     o1\<lparr>o_progress := (o_progress o1)\<lparr>p_status := st, p_lastUpdatedAt := t\<rparr>,
        o_custom := (o_progress o1)\<lparr>p_status := st, p_lastUpdatedAt := t\<rparr>,
        o_seq := Suc (o_seq o1), o_events := o_events o1 @ [ev]\<rparr>"

lemma finish_succeeds:
  assumes pr: "projects c" and tag: "tag_results (c_map c) (o_results o1) = Inr trs"
  shows "\<exists>ev st. st \<in> {''completed'', ''cancelled''} \<and> ev_sequence ev = Suc (o_seq o1) \<and>
    orch_finish c finalize t1 t2 inp o1 =
      (case finalize \<lparr>fi_batch_id = in_batch_id inp, fi_cvs = in_cvs inp, fi_run_results = trs\<rparr> of
         Inl e \<Rightarrow> Inl e | Inr doc \<Rightarrow> Inr (finished o1 st t1 ev, doc))"
proof -
  let ?st = "if is_cancelled_batch (o_progress o1) then ''cancelled'' else ''completed''"
  let ?p = "(o_progress o1)\<lparr>p_status := ?st, p_lastUpdatedAt := t1\<rparr>"
  obtain ev where ev: "build_batch_terminal_live_event ?p t2 (Suc (o_seq o1)) (c_corr c) (c_trace c) = Inr ev"
    unfolding build_batch_terminal_live_event_def using build_event_no_run[THEN exE] by blast
  then have "ev_sequence ev = Suc (o_seq o1)"
    unfolding build_batch_terminal_live_event_def by (rule build_event_fields)
  then show ?thesis
    using ev by (intro exI[of _ ev] exI[of _ ?st])
      (simp add: orch_finish_def tag finished_def Let_def emit_succeeds[OF pr] split: sum.splits)
qed

lemma running_cases:
  assumes "batch_orchestrator uuid5 c stage dispatch finalize clock inp ds = Running o1"
  obtains o0 where "orch_start uuid5 c stage dispatch (clock 0) (clock 1) inp = Inr o0"
    "collect c ds o0 = Inr (Waiting o1)"
  using assms by (auto simp: batch_orchestrator_def split: sum.splits progress_of_run.splits prod.splits)

lemma completed_cases:
  assumes "batch_orchestrator uuid5 c stage dispatch finalize clock inp ds = Completed o2 doc"
  obtains o0 o1 where "orch_start uuid5 c stage dispatch (clock 0) (clock 1) inp = Inr o0"
    "collect c ds o0 = Inr (Drained o1)"
    "orch_finish c finalize (clock 2) (clock 3) inp o1 = Inr (o2, doc)"
  using assms by (auto simp: batch_orchestrator_def split: sum.splits progress_of_run.splits prod.splits)

lemma collect_base:
  assumes "collect c ds o1 = Inr r" and "r = Waiting o2 \<or> r = Drained o2" and "base_inv l o1"
  shows "base_inv l o2"
proof -
  obtain o3 where "orch_reach c o1 o3" "r = Waiting o3 \<or> r = Drained o3"
    using collect_reach[OF assms(1)] by blast
  moreover from this assms(2) have "o3 = o2" by auto
  ultimately show ?thesis using assms(3) orch_reach_base by blast
qed

lemma finish_base:
  assumes "orch_finish c finalize t1 t2 inp o1 = Inr (o2, doc)" and "base_inv l o1"
  shows "base_inv l o2"
proof -
  from assms(1) obtain ev st where o2: "o2 = finished o1 st t1 ev"
    and ev: "build_batch_terminal_live_event
      ((o_progress o1)\<lparr>p_status := st, p_lastUpdatedAt := t1\<rparr>) t2 (Suc (o_seq o1)) (c_corr c) (c_trace c) = Inr ev"
    by (auto simp: orch_finish_def Let_def emit_Inr_iff finished_def)
  from ev have "ev_sequence ev = Suc (o_seq o1)"
    unfolding build_batch_terminal_live_event_def by (rule build_event_fields)
  with assms(2) show ?thesis by (simp add: o2 finished_def base_inv_def events_numbered_def lineage_def)
qed

lemma events_numbered_length: "events_numbered o1 \<Longrightarrow> length (o_events o1) = o_seq o1"
  unfolding events_numbered_def by (drule arg_cong[of _ _ length]) (simp del: upt_Suc)

lemma base_inv_numbers:
  assumes "base_inv l o1"
  shows "map ev_sequence (o_events o1) = [1..<length (o_events o1) + 1]"
    and "o_custom o1 = o_progress o1" and "distinct (o_emitted o1)" and "lineage (o_progress o1) = l"
  using assms events_numbered_length[of o1] by (simp_all add: base_inv_def events_numbered_def del: upt_Suc)

lemma length_plan_tasks: "length (plan_tasks (run_plan uuid5 inp)) = length (in_cvs inp) * in_run_count inp"
  by (simp add: plan_tasks_def run_plan_def length_concat comp_def sum_list_triv)

lemma drained_numbers:
  assumes good: "good_batch uuid5 inp" and inv: "exact_inv uuid5 inp o1" and dr: "o_pending o1 = []"
    and fin: "\<forall>rr \<in> set (o_results o1). is_terminal_run_status (dget rr ''status'')"
  shows "p_runsCompleted (o_progress o1) = length (in_cvs inp) * in_run_count inp"
    and "p_runsDispatched (o_progress o1) = length (in_cvs inp) * in_run_count inp"
    and "p_runsTotal (o_progress o1) = length (in_cvs inp) * in_run_count inp"
    and "o_seq o1 = 2 * (length (in_cvs inp) * in_run_count inp) + length (in_cvs inp)"
    and "map ev_sequence (o_events o1) = [1..<o_seq o1 + 1]"
    and "distinct (o_emitted o1)"
    and "mset (map (\<lambda>rr. dget rr ''run_id'') (o_results o1)) = mset (map JStr (plan_tasks (run_plan uuid5 inp)))"
proof -
  note len = length_plan_tasks[of uuid5 inp]
  note tot = exact_totals[OF inv]
  from tot len dr show counts: "p_runsCompleted (o_progress o1) = length (in_cvs inp) * in_run_count inp"
    "p_runsDispatched (o_progress o1) = length (in_cvs inp) * in_run_count inp"
    "p_runsTotal (o_progress o1) = length (in_cvs inp) * in_run_count inp" by simp_all
  have base: "base_inv (planned_lineage uuid5 inp) o1" and ann: "announced_ok o1"
    using inv by (simp_all add: exact_inv_def)
  from base show "map ev_sequence (o_events o1) = [1..<o_seq o1 + 1]" "distinct (o_emitted o1)"
    by (simp_all add: base_inv_def events_numbered_def)
  show "mset (map (\<lambda>rr. dget rr ''run_id'') (o_results o1)) = mset (map JStr (plan_tasks (run_plan uuid5 inp)))"
    using inv dr by (simp add: exact_inv_def results_ok_def)
  have "length (o_emitted o1) = length (in_cvs inp)"
    using exact_announced(1)[OF good inv] drained_applications(1)[OF good inv dr fin] by simp
  with ann counts show "o_seq o1 = 2 * (length (in_cvs inp) * in_run_count inp) + length (in_cvs inp)"
    by (simp add: announced_ok_def)
qed

lemma batch_drains:
  assumes good: "good_batch uuid5 inp" and c: "c = make_ctx uuid5 pf project inp"
    and stage: "stage (dget_or (in_prompt inp) ''text'' (JStr [])) = Inr uri"
    and own: "returns_own_id dispatch" and plan: "dispatches_plan dispatch uuid5 inp"
    and project: "\<And>ev. project ev = Inr ()"
    and clean: "\<forall>d \<in> set ds. clean c (plan_tasks (run_plan uuid5 inp)) d"
    and cover: "{..<length (plan_tasks (run_plan uuid5 inp))} \<subseteq> fst ` set ds"
  obtains o0 o1 where "orch_start uuid5 c stage dispatch t0 t1 inp = Inr o0"
    "collect c ds o0 = Inr (Drained o1)" "exact_inv uuid5 inp o1" "o_pending o1 = []"
    "\<forall>rr \<in> set (o_results o1). is_terminal_run_status (dget rr ''status'')"
proof -
  let ?tasks = "plan_tasks (run_plan uuid5 inp)"
  have pr: "projects c" using project by (simp add: projects_def make_ctx_def c)
  have cm: "c_map c = run_index_map (run_plan uuid5 inp)" by (simp add: make_ctx_def c)
  obtain o0 where st: "orch_start uuid5 c stage dispatch t0 t1 inp = Inr o0"
    using start_succeeds[where stage = stage and dispatch = dispatch, OF pr stage own plan] by blast
  have inv0: "exact_inv uuid5 inp o0" by (rule exact_start[OF good own st])
  have "o_pending o0 = [0..<length ?tasks]"
    using orch_start_base(4)[OF st] by (simp add: plan_tasks_def)
  with cover have cov: "set (o_pending o0) \<subseteq> fst ` set ds" by (simp add: atLeast0LessThan)
  obtain o1 where run: "collect c ds o0 = Inr (Drained o1)"
    using collect_drains[OF good cm inv0 pr _ cov] clean clean_sound by blast
  have m: "\<forall>d \<in> set ds. matched c ?tasks d" using clean by (simp add: clean_def)
  have "exact_inv uuid5 inp o1" "o_pending o1 = []"
    using exact_collect[OF good cm inv0 m run] by auto
  moreover have "\<forall>rr \<in> set (o_results o1). is_terminal_run_status (dget rr ''status'')"
    by (rule collect_results_from[OF run]) (use clean orch_start_base(3)[OF st] in \<open>fastforce simp: clean_def\<close>)+
  ultimately show thesis using that st run by blast
qed


subsection \<open>Single facts about tasks and results\<close>

lemma concat_map_nth:
  assumes "\<And>x. x \<in> set xs \<Longrightarrow> length (f x) = n" and "k < length xs" and "j < n"
  shows "concat (map f xs) ! (k * n + j) = f (xs ! k) ! j \<and> k * n + j < length (concat (map f xs))"
  using assms
proof (induction xs arbitrary: k)
  case Nil
  then show ?case by simp
next
  case (Cons x xs)
  have len: "length (f x) = n" using Cons.prems(1) by simp
  show ?case
  proof (cases k)
    case 0
    with len Cons.prems(3) show ?thesis by (simp add: nth_append)
  next
    case (Suc k')
    with Cons.IH[of k'] Cons.prems len show ?thesis by (simp add: nth_append add.assoc)
  qed
qed

lemma plan_task_at:
  assumes "k < length (in_cvs inp)" and "0 < in_run_count inp"
  shows "plan_tasks (run_plan uuid5 inp) ! (k * in_run_count inp) =
      mint_run_id uuid5 (in_batch_id inp) (cv_applicationId (in_cvs inp ! k)) 0"
    and "k * in_run_count inp < length (plan_tasks (run_plan uuid5 inp))"
proof -
  let ?f = "\<lambda>cv. map (mint_run_id uuid5 (in_batch_id inp) (cv_applicationId cv)) [0..<in_run_count inp]"
  have "plan_tasks (run_plan uuid5 inp) = concat (map ?f (in_cvs inp))"
    by (simp add: plan_tasks_def run_plan_def map_concat comp_def)
  with concat_map_nth[of "in_cvs inp" ?f "in_run_count inp" k 0] assms
  show "plan_tasks (run_plan uuid5 inp) ! (k * in_run_count inp) =
      mint_run_id uuid5 (in_batch_id inp) (cv_applicationId (in_cvs inp ! k)) 0"
    and "k * in_run_count inp < length (plan_tasks (run_plan uuid5 inp))" by simp_all
qed

lemma skipped_result_again:
  assumes "record_run_result p rr t = Inr p" and "truthy (dget rr ''run_id'')"
    and "dget rr2 ''run_id'' = dget rr ''run_id''"
  shows "record_run_result p rr2 t2 = Inr p"
proof (cases "find_application_run (p_applications p) (dget rr ''run_id'')")
  case None
  with assms show ?thesis by (simp add: record_run_result_def Let_def)
next
  case (Some ij)
  then obtain i j where f: "find_application_run (p_applications p) (dget rr ''run_id'') = Some (i, j)"
    by (cases ij) simp
  have "is_terminal_run_status (r_status (run_at p i j))"
  proof (rule ccontr)
    assume "\<not> is_terminal_run_status (r_status (run_at p i j))"
    from record_run_result_found[OF assms(1) f assms(2) this] obtain n names artifacts where
      "p = put_completed_run p i j (completed_run (run_at p i j) rr artifacts n names t) t" .
    then have "p_runsCompleted p = Suc (p_runsCompleted p)" by (metis put_fields(2))
    then show False by simp
  qed
  with f assms show ?thesis by (simp add: record_run_result_def Let_def run_at_def)
qed

text \<open>A result the loop kept came with one of the deliveries.\<close>

definition delivered :: "ctx \<Rightarrow> delivery list \<Rightarrow> dict \<Rightarrow> bool" where
  "delivered c ds rr \<longleftrightarrow> (\<exists>k v t. (k, v, t) \<in> set ds \<and> coerce_run_result_payload (c_loads c) v = Inr rr)"

lemma batch_account:
  assumes good: "good_batch uuid5 inp"
    and stage: "stage (dget_or (in_prompt inp) ''text'' (JStr [])) = Inr uri"
    and own: "returns_own_id dispatch" and plan: "dispatches_plan dispatch uuid5 inp"
    and project: "\<And>ev. project ev = Inr ()"
    and clean: "\<forall>d \<in> set ds. clean (make_ctx uuid5 pf project inp) (plan_tasks (run_plan uuid5 inp)) d"
    and cover: "{..<length (plan_tasks (run_plan uuid5 inp))} \<subseteq> fst ` set ds"
  shows "\<exists>o2 trs.
    batch_orchestrator uuid5 (make_ctx uuid5 pf project inp) stage dispatch finalize clock inp ds =
      (case finalize \<lparr>fi_batch_id = in_batch_id inp, fi_cvs = in_cvs inp, fi_run_results = trs\<rparr> of
         Inl e \<Rightarrow> Failed e | Inr doc \<Rightarrow> Completed o2 doc) \<and>
    map tr_result trs = o_results o2 \<and>
    mset (map (\<lambda>rr. dget rr ''run_id'') (o_results o2)) = mset (map JStr (plan_tasks (run_plan uuid5 inp))) \<and>
    p_runsCompleted (o_progress o2) = length (in_cvs inp) * in_run_count inp \<and>
    p_runsDispatched (o_progress o2) = length (in_cvs inp) * in_run_count inp \<and>
    p_runsTotal (o_progress o2) = length (in_cvs inp) * in_run_count inp \<and>
    p_cvsCompleted (o_progress o2) = length (in_cvs inp) \<and>
    p_status (o_progress o2) \<in> {''completed'', ''cancelled''} \<and>
    distinct (o_emitted o2) \<and> set (o_emitted o2) = cv_applicationId ` set (in_cvs inp) \<and>
    map ev_sequence (o_events o2) =
      [1..<2 * (length (in_cvs inp) * in_run_count inp) + length (in_cvs inp) + 2] \<and>
    (\<forall>rr \<in> set (o_results o2). delivered (make_ctx uuid5 pf project inp) ds rr)"
proof -
  let ?c = "make_ctx uuid5 pf project inp"
  have pr: "projects ?c" using project by (simp add: projects_def make_ctx_def)
  have cm: "c_map ?c = run_index_map (run_plan uuid5 inp)" by (simp add: make_ctx_def)
  obtain o0 o1 where st: "orch_start uuid5 ?c stage dispatch (clock 0) (clock 1) inp = Inr o0"
    and run: "collect ?c ds o0 = Inr (Drained o1)" and inv: "exact_inv uuid5 inp o1"
    and dr: "o_pending o1 = []" and fin: "\<forall>rr \<in> set (o_results o1). is_terminal_run_status (dget rr ''status'')"
    by (rule batch_drains[where stage = stage and dispatch = dispatch, OF good refl stage own plan project clean cover])
  have deliv: "\<forall>rr \<in> set (o_results o1). delivered ?c ds rr"
    by (rule collect_results_from[OF run]) (auto simp: orch_start_base(3)[OF st] delivered_def)
  obtain trs where tag: "tag_results (c_map ?c) (o_results o1) = Inr trs" "map tr_result trs = o_results o1"
    using tag_results_succeeds[OF good cm inv] by blast
  from finish_succeeds[OF pr tag(1), of finalize "clock 2" "clock 3" inp] obtain ev stt where
    stt: "stt \<in> {''completed'', ''cancelled''}" and ev: "ev_sequence ev = Suc (o_seq o1)" and
    fi: "orch_finish ?c finalize (clock 2) (clock 3) inp o1 =
      (case finalize \<lparr>fi_batch_id = in_batch_id inp, fi_cvs = in_cvs inp, fi_run_results = trs\<rparr> of
         Inl e \<Rightarrow> Inl e | Inr doc \<Rightarrow> Inr (finished o1 stt (clock 2) ev, doc))" by blast
  have whole: "batch_orchestrator uuid5 ?c stage dispatch finalize clock inp ds =
     (case finalize \<lparr>fi_batch_id = in_batch_id inp, fi_cvs = in_cvs inp, fi_run_results = trs\<rparr> of
        Inl e \<Rightarrow> Failed e | Inr doc \<Rightarrow> Completed (finished o1 stt (clock 2) ev) doc)"
    by (simp only: batch_orchestrator_def st run fi sum.case progress_of_run.case)
      (cases "finalize \<lparr>fi_batch_id = in_batch_id inp, fi_cvs = in_cvs inp, fi_run_results = trs\<rparr>"; simp)
  show ?thesis
    by (intro exI[of _ "finished o1 stt (clock 2) ev"] exI[of _ trs])
       (use whole tag(2) drained_numbers[OF good inv dr fin] drained_applications[OF good inv dr fin] stt ev deliv
         in \<open>simp add: finished_def\<close>)
qed

text \<open>
  Two CVs with one application id share their run ids; when only one of the tasks of a run id
  is ever answered, the loop never drains.
\<close>

lemma duplicate_tasks_stuck:
  assumes "m < n" and "n < length (in_cvs inp)" and "0 < in_run_count inp"
    and "cv_applicationId (in_cvs inp ! m) = cv_applicationId (in_cvs inp ! n)"
    and once: "\<forall>d \<in> set ds. \<forall>d' \<in> set ds.
      plan_tasks (run_plan uuid5 inp) ! fst d = plan_tasks (run_plan uuid5 inp) ! fst d' \<longrightarrow> fst d = fst d'"
  shows "batch_orchestrator uuid5 c stage dispatch finalize clock inp ds \<noteq> Completed o2 doc"
proof
  let ?tasks = "plan_tasks (run_plan uuid5 inp)"
  assume "batch_orchestrator uuid5 c stage dispatch finalize clock inp ds = Completed o2 doc"
  then obtain o0 o1 where st: "orch_start uuid5 c stage dispatch (clock 0) (clock 1) inp = Inr o0"
    and run: "collect c ds o0 = Inr (Drained o1)" by (rule completed_cases)
  have cov: "{..<length ?tasks} \<subseteq> fst ` set ds"
    using collect_drained_covers[OF run] orch_start_base(4)[OF st]
    by (simp add: plan_tasks_def atLeast0LessThan)
  have pos: "?tasks ! (k * in_run_count inp) = mint_run_id uuid5 (in_batch_id inp) (cv_applicationId (in_cvs inp ! k)) 0"
    "k * in_run_count inp < length ?tasks" if "k < length (in_cvs inp)" for k
    using plan_task_at[OF that assms(3)] by simp_all
  have m: "m < length (in_cvs inp)" using assms(1,2) by simp
  from cov pos(2)[OF m] pos(2)[OF assms(2)] obtain d d' where
    "d \<in> set ds" "fst d = m * in_run_count inp" "d' \<in> set ds" "fst d' = n * in_run_count inp"
    by (smt (verit) imageE lessThan_iff subsetD)
  with once pos(1)[OF m] pos(1)[OF assms(2)] assms(4) have "m * in_run_count inp = n * in_run_count inp"
    by (metis)
  with assms(1,3) show False by simp
qed

end
