(* ===== verification/Announcements.thy ===== *)
theory Announcements
  imports BatchOutcome
begin

text \<open>
  What the live events of an instance say of applications. The code keeps the set
  \<^verbatim>\<open>emitted_application_events\<close> to announce an application once; here the announcements are
  read off the projected events themselves, and related to that set.
\<close>

subsection \<open>The applications that were announced\<close>

definition announced :: "live_event list \<Rightarrow> string option list" where
  "announced evs =
     map (\<lambda>ev. map_option ar_applicationId (ev_application ev))
       (filter (\<lambda>ev. ev_eventType ev = ''application.completed'') evs)"

text \<open>
  A run id is not empty and belongs to one application id, as \<^verbatim>\<open>uuid5\<close> has it unless it
  collides; two CVs may still have one application id.
\<close>

definition names_applications :: "(string \<Rightarrow> string) \<Rightarrow> orch_input \<Rightarrow> bool" where
  "names_applications uuid5 inp \<longleftrightarrow>
     0 < in_run_count inp \<and>
     (\<forall>(x, cv, i) \<in> set (run_plan uuid5 inp). x \<noteq> [] \<and>
        (\<forall>(x', cv', i') \<in> set (run_plan uuid5 inp). x' = x \<longrightarrow> cv_applicationId cv' = cv_applicationId cv))"

lemma good_names_applications:
  assumes "good_batch uuid5 inp"
  shows "names_applications uuid5 inp"
proof -
  have inj: "inj_on fst (set (run_plan uuid5 inp))" and ne: "[] \<notin> fst ` set (run_plan uuid5 inp)"
    using assms by (simp_all add: good_batch_def plan_tasks_def distinct_map)
  have "x \<noteq> []" if "(x, cv, i) \<in> set (run_plan uuid5 inp)" for x cv i
    using ne that by force
  moreover have "cv' = cv" if "(x, cv, i) \<in> set (run_plan uuid5 inp)" "(x, cv', i') \<in> set (run_plan uuid5 inp)" for x cv i cv' i'
    using inj_onD[OF inj _ that] by simp
  ultimately show ?thesis
    using assms unfolding names_applications_def good_batch_def by blast
qed

lemma announced_snoc:
  "announced (evs @ [ev]) = announced evs @
     (if ev_eventType ev = ''application.completed'' then [map_option ar_applicationId (ev_application ev)] else [])"
  by (simp add: announced_def)

lemma run_event_type: "terminal_run_event_type v \<noteq> ''application.completed''"
  by (simp add: terminal_run_event_type_def Let_def)

subsection \<open>The event of an application names it\<close>

lemma in_run_plan: "cv \<in> set (in_cvs inp) \<Longrightarrow> i < in_run_count inp \<Longrightarrow>
    (mint_run_id uuid5 (in_batch_id inp) (cv_applicationId cv) i, cv, i) \<in> set (run_plan uuid5 inp)"
  unfolding run_plan_def by (simp, rule bexI[of _ cv]) simp_all

lemma application_of_lineage:
  assumes "lineage p = planned_lineage uuid5 inp" and "a \<in> set (p_applications p)"
  obtains cv where "cv \<in> set (in_cvs inp)" "a_applicationId a = cv_applicationId cv"
    "map r_runId (a_runs a) = map (mint_run_id uuid5 (in_batch_id inp) (cv_applicationId cv)) [0..<in_run_count inp]"
proof -
  from assms(2) have "(a_applicationId a, a_documentId a, map (\<lambda>r. (r_runId r, r_runIndex r)) (a_runs a)) \<in> set (lineage p)"
    by (auto simp: lineage_def)
  with assms(1) obtain cv where cv: "cv \<in> set (in_cvs inp)" "a_applicationId a = cv_applicationId cv"
    "map (\<lambda>r. (r_runId r, r_runIndex r)) (a_runs a) =
      map (\<lambda>i. (mint_run_id uuid5 (in_batch_id inp) (cv_applicationId cv) i, i)) [0..<in_run_count inp]"
    by (auto simp: planned_lineage_def)
  from arg_cong[OF cv(3), of "map fst"] cv(1,2) show thesis by (intro that) (simp_all add: comp_def del: map_eq_conv)
qed

lemma application_event_names:
  assumes names: "names_applications uuid5 inp" and lin: "lineage p = planned_lineage uuid5 inp"
    and ev: "build_application_terminal_live_event p t sq cid tp app_id = Inr ev"
  shows "map_option ar_applicationId (ev_application ev) = Some app_id"
proof -
  from ev obtain a where a: "find_application p app_id = Some a"
    and b: "build_live_progress_event ''application.completed'' p t sq cid tp
      (case List.find (\<lambda>r. r_runId r \<noteq> []) (a_runs a) of None \<Rightarrow> JNull | Some r \<Rightarrow> JStr (r_runId r)) None = Inr ev"
    by (auto simp: build_application_terminal_live_event_def split: option.splits)
  from a have ain: "a \<in> set (p_applications p)" "a_applicationId a = app_id"
    by (auto simp: find_application_def find_Some_iff)
  from application_of_lineage[OF lin ain(1)] obtain cv where cv: "cv \<in> set (in_cvs inp)" "app_id = cv_applicationId cv"
    "map r_runId (a_runs a) = map (mint_run_id uuid5 (in_batch_id inp) (cv_applicationId cv)) [0..<in_run_count inp]"
    using ain(2) by metis
  have ids: "\<exists>i < in_run_count inp. r_runId r = mint_run_id uuid5 (in_batch_id inp) (cv_applicationId cv) i" if "r \<in> set (a_runs a)" for r
  proof -
    from that have "r_runId r \<in> set (map r_runId (a_runs a))" by simp
    then show ?thesis unfolding cv(3) by auto
  qed
  have "a_runs a \<noteq> []" using cv(3) names by (auto simp: names_applications_def)
  then obtain r rs where rs: "a_runs a = r # rs" by (cases "a_runs a") auto
  from ids[of r] rs obtain i where i: "i < in_run_count inp"
    "r_runId r = mint_run_id uuid5 (in_batch_id inp) (cv_applicationId cv) i" by auto
  from in_run_plan[OF cv(1) i(1), of uuid5] names have r: "r_runId r \<noteq> []"
    unfolding names_applications_def i(2) by fast
  with b rs have "build_live_progress_event ''application.completed'' p t sq cid tp (JStr (r_runId r)) None = Inr ev" by simp
  from build_event_lineage[OF this r] obtain k j where kj: "k < length (p_applications p)" "j < length (a_runs (p_applications p ! k))"
    "r_runId (run_at p k j) = r_runId r"
    "map_option ar_applicationId (ev_application ev) = Some (a_applicationId (p_applications p ! k))" by blast
  from application_of_lineage[OF lin nth_mem[OF kj(1)]] obtain cv' where cv': "cv' \<in> set (in_cvs inp)"
    "a_applicationId (p_applications p ! k) = cv_applicationId cv'"
    "map r_runId (a_runs (p_applications p ! k)) =
      map (mint_run_id uuid5 (in_batch_id inp) (cv_applicationId cv')) [0..<in_run_count inp]" by metis
  from arg_cong[OF cv'(3), of length] kj(2) have j: "j < in_run_count inp" by simp
  from arg_cong[OF cv'(3), of "\<lambda>xs. xs ! j"] kj(2,3) j i(2)
  have "mint_run_id uuid5 (in_batch_id inp) (cv_applicationId cv') j = mint_run_id uuid5 (in_batch_id inp) (cv_applicationId cv) i"
    by (simp add: run_at_def)
  with in_run_plan[OF cv(1) i(1), of uuid5] in_run_plan[OF cv'(1) j, of uuid5] names
  have "cv_applicationId cv' = cv_applicationId cv" unfolding names_applications_def by fast
  with kj(4) cv'(2) cv(2) show ?thesis by simp
qed

subsection \<open>The announcements along the loop\<close>

definition announces :: "orch \<Rightarrow> bool" where
  "announces o1 \<longleftrightarrow> announced (o_events o1) = map Some (rev (o_emitted o1))"

lemma handle_result_announces:
  assumes names: "names_applications uuid5 inp" and h: "handle_result c k v t o1 = Inr o2"
    and base: "base_inv (planned_lineage uuid5 inp) o1" and ann: "announces o1"
  shows "announces o2"
proof -
  from h obtain rr p' ev e where
    "coerce_run_result_payload (c_loads c) v = Inr rr" and
    rec: "record_run_result (o_progress o1) rr t = Inr p'" and
    ev: "build_run_terminal_live_event p' t (Suc (o_seq o1)) (c_corr c) (c_trace c) rr = Inr ev" and
    "lookup_run (c_map c) rr = Inr e" and
    app: "emit_application_event c rr t (fst e)
       (o1\<lparr>o_pending := filter (\<lambda>k'. k' \<noteq> k) (o_pending o1), o_results := o_results o1 @ [rr],
           o_progress := p', o_custom := p', o_seq := Suc (o_seq o1),
           o_events := o_events o1 @ [ev]\<rparr>) = Inr o2"
    by (rule handle_resultE)
  have "ev_eventType ev \<noteq> ''application.completed''"
    using ev run_event_type by (auto simp: build_run_terminal_live_event_def dest: build_event_fields(2))
  with ann have one: "announced (o_events o1 @ [ev]) = map Some (rev (o_emitted o1))"
    by (simp add: announced_snoc announces_def)
  have lin: "lineage p' = planned_lineage uuid5 inp" using base rec by (simp add: base_inv_def lineage_result)
  from app show ?thesis
  proof (cases rule: emit_application_event_cases)
    case quiet
    with one show ?thesis by (simp add: announces_def)
  next
    case (due ev' cid tp)
    from due(2) have "ev_eventType ev' = ''application.completed''" by (auto dest: build_application_terminal_seq)
    moreover have "map_option ar_applicationId (ev_application ev') = Some (fst e)"
      by (rule application_event_names[OF names lin]) (use due(2) in simp)
    ultimately show ?thesis
      using one due(3) announced_snoc[of "o_events o1 @ [ev]" ev'] by (simp add: announces_def)
  qed
qed

lemma reach_announces:
  assumes "orch_reach c o0 o1" and "names_applications uuid5 inp"
    and "base_inv (planned_lineage uuid5 inp) o0" and "announces o0"
  shows "announces o1"
  using assms
proof (induction rule: orch_reach.induct)
  case (step o1 o2)
  have "base_inv (planned_lineage uuid5 inp) o1" using orch_reach_base[OF step.hyps(1)] step.prems by blast
  moreover from step.hyps(2) obtain k v t where "handle_result c k v t o1 = Inr o2" by (rule orch_stepE)
  ultimately show ?case using handle_result_announces step by blast
qed simp

lemma dispatch_loop_announced:
  "dispatch_loop c t xs o1 = Inr o2 \<Longrightarrow> announced (o_events o2) = announced (o_events o1)"
proof (induction xs arbitrary: o1)
  case (Cons x xs)
  let ?p = "record_dispatched_run (o_progress o1) x t"
  from Cons.prems obtain ev where
    ev: "build_live_progress_event ''run.dispatched'' ?p t (Suc (o_seq o1)) (c_corr c) (c_trace c) (JStr x) None = Inr ev"
    and rest: "dispatch_loop c t xs
       (o1\<lparr>o_progress := ?p, o_seq := Suc (o_seq o1), o_events := o_events o1 @ [ev]\<rparr>) = Inr o2"
    by (auto simp: Let_def emit_Inr_iff)
  from build_event_fields(2)[OF ev] Cons.IH[OF rest] show ?case by (simp add: announced_snoc)
qed simp

lemma start_announces: "orch_start uuid5 c stage dispatch t0 t1 inp = Inr o0 \<Longrightarrow> announces o0"
proof -
  assume st: "orch_start uuid5 c stage dispatch t0 t1 inp = Inr o0"
  then obtain uri ids o1 where
    "map_res (\<lambda>e. dispatch (dispatch_input_of inp uri e)) (run_plan uuid5 inp) = Inr ids" and
    loop: "dispatch_loop c t1 ids
       (initial_orch (build_initial_progress uuid5 (in_batch_id inp) (in_job_id inp) (in_cvs inp)
          (in_run_count inp) t0) (length (run_plan uuid5 inp))) = Inr o1"
    and o0: "o0 = o1\<lparr>o_custom := o_progress o1\<rparr>"
    by (rule orch_start_cases)
  from dispatch_loop_announced[OF loop] have "announced (o_events o0) = []"
    by (simp add: o0 initial_orch_def announced_def)
  with orch_start_base(2)[OF st] show ?thesis by (simp add: announces_def)
qed

lemma finish_announced:
  assumes "orch_finish c finalize t1 t2 inp o1 = Inr (o2, doc)"
  shows "announced (o_events o2) = announced (o_events o1)" and "o_emitted o2 = o_emitted o1"
proof -
  from assms obtain p' ev where
    ev: "build_batch_terminal_live_event p' t2 (Suc (o_seq o1)) (c_corr c) (c_trace c) = Inr ev"
    and o2: "o_events o2 = o_events o1 @ [ev]" "o_emitted o2 = o_emitted o1"
    by (auto simp: orch_finish_def Let_def emit_Inr_iff)
  from ev have "ev_eventType ev = (if is_cancelled_batch p' then ''batch.cancelled'' else ''batch.completed'')"
    unfolding build_batch_terminal_live_event_def by (rule build_event_fields)
  with o2 show "announced (o_events o2) = announced (o_events o1)" "o_emitted o2 = o_emitted o1"
    by (simp_all add: announced_snoc)
qed

text \<open>The announcements of an instance that waits or has ended.\<close>

lemma collected_announces:
  assumes "names_applications uuid5 inp" and "orch_start uuid5 c stage dispatch t0 t1 inp = Inr o0"
    and "collect c ds o0 = Inr r" and "r = Waiting o1 \<or> r = Drained o1"
  shows "announced (o_events o1) = map Some (rev (o_emitted o1))"
proof -
  from collect_reach[OF assms(3)] assms(4) have "orch_reach c o0 o1" by auto
  from reach_announces[OF this assms(1) orch_start_base(1)[OF assms(2)] start_announces[OF assms(2)]]
  show ?thesis by (simp add: announces_def)
qed

lemma outcome_announced:
  assumes "names_applications uuid5 inp"
    and "batch_orchestrator uuid5 c stage dispatch finalize clock inp ds = Running o1 \<or>
      batch_orchestrator uuid5 c stage dispatch finalize clock inp ds = Completed o1 doc"
  shows "announced (o_events o1) = map Some (rev (o_emitted o1))"
  using assms(2)
proof
  assume "batch_orchestrator uuid5 c stage dispatch finalize clock inp ds = Running o1"
  then obtain o0 where "orch_start uuid5 c stage dispatch (clock 0) (clock 1) inp = Inr o0"
    "collect c ds o0 = Inr (Waiting o1)" by (rule running_cases)
  from collected_announces[OF assms(1) this] show ?thesis by blast
next
  assume "batch_orchestrator uuid5 c stage dispatch finalize clock inp ds = Completed o1 doc"
  then obtain o0 o3 where "orch_start uuid5 c stage dispatch (clock 0) (clock 1) inp = Inr o0"
    "collect c ds o0 = Inr (Drained o3)" and fin: "orch_finish c finalize (clock 2) (clock 3) inp o3 = Inr (o1, doc)"
    by (rule completed_cases)
  from collected_announces[OF assms(1) this(1,2)] show ?thesis by (simp add: finish_announced[OF fin])
qed

text \<open>When the set is the applications of the batch, each CV was announced by one event.\<close>

lemma completed_announced:
  assumes "good_batch uuid5 inp"
    and "batch_orchestrator uuid5 c stage dispatch finalize clock inp ds = Completed o2 doc"
    and "distinct (o_emitted o2)" and "set (o_emitted o2) = cv_applicationId ` set (in_cvs inp)"
  shows "mset (announced (o_events o2)) = mset (map (\<lambda>cv. Some (cv_applicationId cv)) (in_cvs inp))"
proof -
  have "mset (o_emitted o2) = mset (map cv_applicationId (in_cvs inp))"
    using assms(1,3,4) by (subst set_eq_iff_mset_eq_distinct[symmetric]) (simp_all add: good_batch_def)
  from arg_cong[OF this, of "image_mset Some"] show ?thesis
    using outcome_announced[OF good_names_applications[OF assms(1)] disjI2[OF assms(2)]]
    by (simp add: multiset.map_comp comp_def)
qed

end
