(* ===== verification/BatchProperties.thy ===== *)
theory BatchProperties
  imports Announcements
begin

text \<open>
  The properties of the fan-out orchestrator as a whole, over \<open>batch_orchestrator\<close>, with a
  concrete batch of two CVs and two runs each on which they are applied.
\<close>

subsection \<open>A concrete batch\<close>

definition demo_cv :: "string \<Rightarrow> cv_ref" where
  "demo_cv a = \<lparr>cv_applicationId = a, cv_documentId = ''doc'', cv_fileName = ''cv.pdf'',
     cv_mimeType = ''application/pdf'', cv_blobUri = ''blob'', cv_sha256 = ''sha''\<rparr>"

definition demo_input :: orch_input where
  "demo_input = \<lparr>in_batch_id = ''b'', in_job_id = ''j'', in_run_count = 2, in_prompt = [],
     in_cvs = [demo_cv ''x'', demo_cv ''y''], in_correlationId = JStr ''c'', in_correlation_id = JNull,
     in_traceparent = JNull\<rparr>"

definition demo_ctx :: ctx where
  "demo_ctx = make_ctx (\<lambda>s. s) (\<lambda>s. None) (\<lambda>ev. Inr ()) demo_input"

definition demo_result :: "string \<Rightarrow> json" where
  "demo_result x = JObj [(''run_id'', JStr x), (''status'', JStr ''Succeeded''), (''artifacts'', JList [])]"

definition demo_deliveries :: "delivery list" where
  "demo_deliveries = [(2, demo_result ''b:y:0'', ''t1''), (0, demo_result ''b:x:0'', ''t2''),
     (3, demo_result ''b:y:1'', ''t3''), (1, demo_result ''b:x:1'', ''t4'')]"

lemma demo_plan: "run_plan (\<lambda>s. s) demo_input =
    [(''b:x:0'', demo_cv ''x'', 0), (''b:x:1'', demo_cv ''x'', 1),
     (''b:y:0'', demo_cv ''y'', 0), (''b:y:1'', demo_cv ''y'', 1)]"
  by code_simp

lemma demo_tasks: "plan_tasks (run_plan (\<lambda>s. s) demo_input) = [''b:x:0'', ''b:x:1'', ''b:y:0'', ''b:y:1'']"
  by (simp add: demo_plan plan_tasks_def)

lemma demo_good: "good_batch (\<lambda>s. s) demo_input"
  unfolding good_batch_def demo_tasks by (simp add: demo_input_def demo_cv_def)

lemma demo_clean: "\<forall>d \<in> set demo_deliveries. clean demo_ctx (plan_tasks (run_plan (\<lambda>s. s) demo_input)) d"
  unfolding demo_tasks
  by (simp add: demo_deliveries_def clean_def matched_def demo_result_def coerce_run_result_payload_def
      artifacts_ok_def)

lemma demo_covered: "{..<length (plan_tasks (run_plan (\<lambda>s. s) demo_input))} \<subseteq> fst ` set demo_deliveries"
  unfolding demo_tasks by (auto simp: demo_deliveries_def)

lemma demo_two_running:
  "\<exists>o1. batch_orchestrator (\<lambda>s. s) demo_ctx (\<lambda>v. Inr ''uri'') (\<lambda>di. Inr (di_run_id di)) (\<lambda>fi. Inr JNull)
      (\<lambda>n. ''now'') demo_input (take 2 demo_deliveries) = Running o1"
proof -
  have "case batch_orchestrator (\<lambda>s. s) demo_ctx (\<lambda>v. Inr ''uri'') (\<lambda>di. Inr (di_run_id di)) (\<lambda>fi. Inr JNull)
      (\<lambda>n. ''now'') demo_input (take 2 demo_deliveries) of Running o1 \<Rightarrow> True | _ \<Rightarrow> False" by code_simp
  then show ?thesis by (auto split: outcome.splits)
qed

subsection \<open>The batch as a whole\<close>

text \<open>C5: a batch with at least one run per CV and distinct run ids is carried through to its
  end when every task is answered. Given that the prompt was staged, every dispatch and every
  projection succeeded, every delivery carries the run id of the task it answers with a final
  status and well-formed artifacts, and every task gets one, \<^verbatim>\<open>finalize_batch\<close> is called
  with exactly one result per task. If it raises, the instance fails with its exception; if it
  returns a document, the instance completes with that document, every counter is at its total,
  each application was announced by exactly one live event, and the live events are numbered
  without a gap.\<close>

theorem batch_completes:
  assumes good: "good_batch uuid5 inp"
    and stage: "stage (dget_or (in_prompt inp) ''text'' (JStr [])) = Inr uri"
    and own: "returns_own_id dispatch" and plan: "dispatches_plan dispatch uuid5 inp"
    and project: "\<And>ev. project ev = Inr ()"
    and clean: "\<forall>d \<in> set ds. clean (make_ctx uuid5 pf project inp) (plan_tasks (run_plan uuid5 inp)) d"
    and cover: "{..<length (plan_tasks (run_plan uuid5 inp))} \<subseteq> fst ` set ds"
  shows "\<exists>trs. mset (map (\<lambda>tr. dget (tr_result tr) ''run_id'') trs) = mset (map JStr (plan_tasks (run_plan uuid5 inp))) \<and>
    (case finalize \<lparr>fi_batch_id = in_batch_id inp, fi_cvs = in_cvs inp, fi_run_results = trs\<rparr> of
       Inl e \<Rightarrow> batch_orchestrator uuid5 (make_ctx uuid5 pf project inp) stage dispatch finalize clock inp ds = Failed e
     | Inr doc \<Rightarrow> \<exists>o2.
         batch_orchestrator uuid5 (make_ctx uuid5 pf project inp) stage dispatch finalize clock inp ds = Completed o2 doc \<and>
         map tr_result trs = o_results o2 \<and>
         p_runsCompleted (o_progress o2) = length (in_cvs inp) * in_run_count inp \<and>
         p_runsDispatched (o_progress o2) = length (in_cvs inp) * in_run_count inp \<and>
         p_runsTotal (o_progress o2) = length (in_cvs inp) * in_run_count inp \<and>
         p_cvsCompleted (o_progress o2) = length (in_cvs inp) \<and>
         p_status (o_progress o2) \<in> {''completed'', ''cancelled''} \<and>
         mset (announced (o_events o2)) = mset (map (\<lambda>cv. Some (cv_applicationId cv)) (in_cvs inp)) \<and>
         map ev_sequence (o_events o2) =
           [1..<2 * (length (in_cvs inp) * in_run_count inp) + length (in_cvs inp) + 2])"
proof -
  let ?run = "batch_orchestrator uuid5 (make_ctx uuid5 pf project inp) stage dispatch finalize clock inp ds"
  from batch_account[where stage = stage and dispatch = dispatch and project = project and finalize = finalize and clock = clock, OF assms]
  obtain o2 trs where run: "?run =
      (case finalize \<lparr>fi_batch_id = in_batch_id inp, fi_cvs = in_cvs inp, fi_run_results = trs\<rparr> of
         Inl e \<Rightarrow> Failed e | Inr doc \<Rightarrow> Completed o2 doc)"
    and trs: "map tr_result trs = o_results o2"
    and ids: "mset (map (\<lambda>rr. dget rr ''run_id'') (o_results o2)) = mset (map JStr (plan_tasks (run_plan uuid5 inp)))"
    and facts: "p_runsCompleted (o_progress o2) = length (in_cvs inp) * in_run_count inp"
      "p_runsDispatched (o_progress o2) = length (in_cvs inp) * in_run_count inp"
      "p_runsTotal (o_progress o2) = length (in_cvs inp) * in_run_count inp"
      "p_cvsCompleted (o_progress o2) = length (in_cvs inp)" "p_status (o_progress o2) \<in> {''completed'', ''cancelled''}"
    and em: "distinct (o_emitted o2)" "set (o_emitted o2) = cv_applicationId ` set (in_cvs inp)"
    and nums: "map ev_sequence (o_events o2) = [1..<2 * (length (in_cvs inp) * in_run_count inp) + length (in_cvs inp) + 2]"
    by (elim exE conjE)
  have ids': "mset (map (\<lambda>tr. dget (tr_result tr) ''run_id'') trs) = mset (map JStr (plan_tasks (run_plan uuid5 inp)))"
    using ids unfolding trs[symmetric] by (simp add: comp_def)
  show ?thesis
  proof (cases "finalize \<lparr>fi_batch_id = in_batch_id inp, fi_cvs = in_cvs inp, fi_run_results = trs\<rparr>")
    case (Inl e)
    with run ids' show ?thesis by (intro exI[of _ trs]) simp
  next
    case (Inr doc)
    with run have ended: "?run = Completed o2 doc" by simp
    with completed_announced[OF good ended em] Inr ids' trs facts nums show ?thesis
      by (intro exI[of _ trs]) (simp only: sum.case, blast)
  qed
qed

theorem batch_completes_witness:
  "\<exists>o2. batch_orchestrator (\<lambda>s. s) demo_ctx (\<lambda>v. Inr ''uri'') (\<lambda>di. Inr (di_run_id di)) (\<lambda>fi. Inr JNull)
      (\<lambda>n. ''now'') demo_input demo_deliveries = Completed o2 JNull \<and>
    p_runsCompleted (o_progress o2) = 4 \<and> p_cvsCompleted (o_progress o2) = 2 \<and>
    mset (announced (o_events o2)) = {#Some ''x'', Some ''y''#}"
proof -
  have own: "returns_own_id (\<lambda>di. Inr (di_run_id di))" by (simp add: returns_own_id_def)
  have plan: "dispatches_plan (\<lambda>di. Inr (di_run_id di)) (\<lambda>s. s) demo_input" by (simp add: dispatches_plan_def)
  show ?thesis
    using batch_completes[of "\<lambda>s. s" demo_input "\<lambda>v. Inr ''uri''" "''uri''" "\<lambda>di. Inr (di_run_id di)" "\<lambda>ev. Inr ()"
        demo_deliveries "\<lambda>s. None" "\<lambda>fi. Inr JNull" "\<lambda>n. ''now''"] demo_good demo_clean demo_covered own plan
    unfolding demo_ctx_def by (auto simp: demo_input_def demo_cv_def)
qed

text \<open>While a batch with distinct run ids waits, after any deliveries that carry the run
  id of the task they answer, in any order and number, the published document is exact: every
  run was dispatched, completed and pending runs add up to the total, as many applications
  were announced as are counted complete, and the sequence number the host would give to a
  cancellation event (\<^verbatim>\<open>_next_event_sequence\<close> of the published document) is the next
  unused one.\<close>

lemma batch_waiting_exact:
  assumes good: "good_batch uuid5 inp" and own: "returns_own_id dispatch"
    and m: "\<forall>d \<in> set ds. matched (make_ctx uuid5 pf project inp) (plan_tasks (run_plan uuid5 inp)) d"
    and run: "batch_orchestrator uuid5 (make_ctx uuid5 pf project inp) stage dispatch finalize clock inp ds = Running o1"
  shows "o_custom o1 = o_progress o1 \<and>
    p_runsTotal (o_progress o1) = length (plan_tasks (run_plan uuid5 inp)) \<and>
    p_runsDispatched (o_progress o1) = p_runsTotal (o_progress o1) \<and>
    p_runsCompleted (o_progress o1) + length (o_pending o1) = p_runsTotal (o_progress o1) \<and>
    p_runsCompleted (o_progress o1) = length (o_results o1) \<and>
    p_cvsCompleted (o_progress o1) = length (o_emitted o1) \<and>
    next_event_sequence (o_custom o1) = Suc (length (o_events o1))"
proof -
  from run obtain o0 where st: "orch_start uuid5 (make_ctx uuid5 pf project inp) stage dispatch (clock 0) (clock 1) inp = Inr o0"
    and w: "collect (make_ctx uuid5 pf project inp) ds o0 = Inr (Waiting o1)"
    by (rule running_cases)
  have inv: "exact_inv uuid5 inp o1"
    using exact_collect[OF good _ exact_start[OF good own st] m w] by (simp add: make_ctx_def)
  then have base: "base_inv (planned_lineage uuid5 inp) o1" by (simp add: exact_inv_def)
  then have "length (o_events o1) = o_seq o1"
    by (simp add: base_inv_def events_numbered_length)
  with base inv exact_totals[OF inv] exact_announced[OF good inv] show ?thesis
    by (simp add: base_inv_def exact_inv_def results_ok_def)
qed

text \<open>C6: the wait loop ends: no sequence of completions can keep it going for ever, every
  iteration turns one pending task into one result, and once every task has a completion among
  the deliveries, in whatever order and with whatever payloads, the instance waits no more; it has
  completed or failed.\<close>

theorem wait_loop_ends:
  "wfp (\<lambda>o2 o1. orch_step c o1 o2) \<and>
   (orch_start uuid5 c stage dispatch t0 t1 inp = Inr o0 \<and> orch_reach c o0 o1 \<longrightarrow>
      length (o_results o1) + length (o_pending o1) = length (in_cvs inp) * in_run_count inp) \<and>
   ({..<length (in_cvs inp) * in_run_count inp} \<subseteq> fst ` set ds \<longrightarrow>
      (case batch_orchestrator uuid5 c stage dispatch finalize clock inp ds of Running o2 \<Rightarrow> False | Failed e \<Rightarrow> True | Completed o2 doc \<Rightarrow> True))"
proof (intro conjI impI)
  have n: "length (run_plan uuid5 inp) = length (in_cvs inp) * in_run_count inp"
    using length_plan_tasks[of uuid5 inp] by (simp add: plan_tasks_def)
  show "wfp (\<lambda>o2 o1. orch_step c o1 o2)" by (rule orch_step_wf)
  show "length (o_results o1) + length (o_pending o1) = length (in_cvs inp) * in_run_count inp"
    if "orch_start uuid5 c stage dispatch t0 t1 inp = Inr o0 \<and> orch_reach c o0 o1"
    using orch_reach_counts[of c o0 o1] that orch_start_base(3,4)[of uuid5 c stage dispatch t0 t1 inp o0] by (auto simp: n)
  assume cover: "{..<length (in_cvs inp) * in_run_count inp} \<subseteq> fst ` set ds"
  have "batch_orchestrator uuid5 c stage dispatch finalize clock inp ds \<noteq> Running o2" for o2
  proof
    assume "batch_orchestrator uuid5 c stage dispatch finalize clock inp ds = Running o2"
    then obtain o0 where st: "orch_start uuid5 c stage dispatch (clock 0) (clock 1) inp = Inr o0"
      and run: "collect c ds o0 = Inr (Waiting o2)"
      by (rule running_cases)
    from collect_covered[OF run] cover show False by (auto simp: orch_start_base(4)[OF st] n)
  qed
  then show "case batch_orchestrator uuid5 c stage dispatch finalize clock inp ds of
      Running o2 \<Rightarrow> False | Failed e \<Rightarrow> True | Completed o2 doc \<Rightarrow> True"
    by (simp split: outcome.split)
qed

theorem wait_loop_ends_witness:
  "case batch_orchestrator (\<lambda>s. s) demo_ctx (\<lambda>v. Inr ''uri'') (\<lambda>di. Inr (di_run_id di)) (\<lambda>fi. Inr JNull)
      (\<lambda>n. ''now'') demo_input demo_deliveries of Running o2 \<Rightarrow> False | Failed e \<Rightarrow> True | Completed o2 doc \<Rightarrow> True"
proof -
  have "{..<length (in_cvs demo_input) * in_run_count demo_input} \<subseteq> fst ` set demo_deliveries"
    by (auto simp: demo_input_def demo_deliveries_def)
  then show ?thesis using wait_loop_ends by blast
qed

text \<open>C7: whatever the runtime and the workers deliver, malformed and repeated payloads
  included, the state an instance waits in or ends in has its live events numbered 1, 2, 3 and
  so on without a gap or a repetition, its custom status is the current document, and the
  document has the applications, runs and indices of the submission in their order. As long as
  the run ids are not empty and tell the application ids apart, the projected events announce no
  application twice: of the \<^verbatim>\<open>application.completed\<close> events each names an application,
  and no two of them name the same.\<close>

theorem batch_events_numbered:
  "case batch_orchestrator uuid5 c stage dispatch finalize clock inp ds of
     Failed e \<Rightarrow> True
   | Running o1 \<Rightarrow> map ev_sequence (o_events o1) = [1..<length (o_events o1) + 1] \<and>
       o_custom o1 = o_progress o1 \<and> lineage (o_progress o1) = planned_lineage uuid5 inp \<and>
       (names_applications uuid5 inp \<longrightarrow> distinct (announced (o_events o1)) \<and> None \<notin> set (announced (o_events o1)))
   | Completed o1 doc \<Rightarrow> map ev_sequence (o_events o1) = [1..<length (o_events o1) + 1] \<and>
       o_custom o1 = o_progress o1 \<and> lineage (o_progress o1) = planned_lineage uuid5 inp \<and>
       (names_applications uuid5 inp \<longrightarrow> distinct (announced (o_events o1)) \<and> None \<notin> set (announced (o_events o1)))"
proof (cases "batch_orchestrator uuid5 c stage dispatch finalize clock inp ds")
  case (Completed o2 doc)
  then obtain o0 o1 where st: "orch_start uuid5 c stage dispatch (clock 0) (clock 1) inp = Inr o0"
    and run: "collect c ds o0 = Inr (Drained o1)"
    and fin: "orch_finish c finalize (clock 2) (clock 3) inp o1 = Inr (o2, doc)"
    by (rule completed_cases)
  have "base_inv (planned_lineage uuid5 inp) o1"
    using collect_base[OF run _ orch_start_base(1)[OF st]] by blast
  then have "base_inv (planned_lineage uuid5 inp) o2" by (rule finish_base[OF fin])
  then show ?thesis
    using Completed outcome_announced[OF _ disjI2[OF Completed]] base_inv_numbers
    by (auto simp: distinct_map)
next
  case (Running o1)
  then obtain o0 where st: "orch_start uuid5 c stage dispatch (clock 0) (clock 1) inp = Inr o0"
    and run: "collect c ds o0 = Inr (Waiting o1)"
    by (rule running_cases)
  have "base_inv (planned_lineage uuid5 inp) o1"
    using collect_base[OF run _ orch_start_base(1)[OF st]] by blast
  then show ?thesis
    using Running outcome_announced[OF _ disjI1[OF Running]] base_inv_numbers
    by (auto simp: distinct_map)
qed simp

lemma demo_run_completes:
  "\<exists>o2. batch_orchestrator (\<lambda>s. s) demo_ctx (\<lambda>v. Inr ''uri'') (\<lambda>di. Inr (di_run_id di)) (\<lambda>fi. Inr JNull)
      (\<lambda>n. ''now'') demo_input demo_deliveries = Completed o2 JNull \<and> announced (o_events o2) = [Some ''y'', Some ''x'']"
proof -
  have "case batch_orchestrator (\<lambda>s. s) demo_ctx (\<lambda>v. Inr ''uri'') (\<lambda>di. Inr (di_run_id di)) (\<lambda>fi. Inr JNull)
      (\<lambda>n. ''now'') demo_input demo_deliveries of
      Completed o2 d \<Rightarrow> d = JNull \<and> announced (o_events o2) = [Some ''y'', Some ''x''] | _ \<Rightarrow> False" by code_simp
  then show ?thesis by (auto split: outcome.splits)
qed

theorem batch_events_numbered_witness:
  "\<exists>o2. batch_orchestrator (\<lambda>s. s) demo_ctx (\<lambda>v. Inr ''uri'') (\<lambda>di. Inr (di_run_id di)) (\<lambda>fi. Inr JNull)
      (\<lambda>n. ''now'') demo_input demo_deliveries = Completed o2 JNull \<and>
    announced (o_events o2) = [Some ''y'', Some ''x''] \<and> distinct (announced (o_events o2)) \<and>
    map ev_sequence (o_events o2) = [1..<length (o_events o2) + 1]"
proof -
  from demo_run_completes obtain o2 where o2: "batch_orchestrator (\<lambda>s. s) demo_ctx (\<lambda>v. Inr ''uri'') (\<lambda>di. Inr (di_run_id di))
      (\<lambda>fi. Inr JNull) (\<lambda>n. ''now'') demo_input demo_deliveries = Completed o2 JNull"
    "announced (o_events o2) = [Some ''y'', Some ''x'']" by blast
  from batch_events_numbered[where ?uuid5.0 = "\<lambda>s. s" and c = demo_ctx and stage = "\<lambda>v. Inr ''uri''" and dispatch = "\<lambda>di. Inr (di_run_id di)"
      and finalize = "\<lambda>fi. Inr JNull" and clock = "\<lambda>n. ''now''" and inp = demo_input and ds = demo_deliveries]
    o2 good_names_applications[OF demo_good]
  show ?thesis by (intro exI[of _ o2]) simp
qed

text \<open>C9: a result whose run id is not one of the batch stops the orchestrator with an
  exception: the document is left alone, and the event builder cannot name an application.\<close>

theorem unknown_run_id_raises:
  assumes "coerce_run_result_payload (c_loads c) v = Inr rr" and "dindex rr ''run_id'' = Inr (JStr x)"
    and "x \<noteq> []" and "x \<notin> set (run_ids (p_applications (o_progress o1)))"
  shows "handle_result c k v t o1 = Inl AttributeError"
proof -
  have none: "find_application_run (p_applications (o_progress o1)) (JStr x) = None"
    using assms(4) by (simp add: find_application_run_None)
  have "record_run_result (o_progress o1) rr t = Inr (o_progress o1)"
    using none assms(3) dindex_dget[OF assms(2)] by (simp add: record_run_result_def Let_def)
  with assms(1-3) none show ?thesis
    by (simp add: handle_result_def build_run_terminal_live_event_def build_event_unknown_run Let_def emit_def)
qed

definition demo_start :: orch where
  "demo_start = initial_orch (build_initial_progress (\<lambda>s. s) ''b'' ''j'' (in_cvs demo_input) 2 ''t0'') 4"

theorem unknown_run_id_raises_witness:
  "handle_result demo_ctx 0 (demo_result ''other'') ''t1'' demo_start = Inl AttributeError"
proof (rule unknown_run_id_raises)
  show "coerce_run_result_payload (c_loads demo_ctx) (demo_result ''other'') =
      Inr [(''run_id'', JStr ''other''), (''status'', JStr ''Succeeded''), (''artifacts'', JList [])]"
    by (simp add: coerce_run_result_payload_def demo_result_def)
  show "''other'' \<notin> set (run_ids (p_applications (o_progress demo_start)))" by code_simp
qed simp_all

text \<open>C10: the first final result of a run wins: once a result with a final status is recorded,
  recording any other result for the same run leaves the document exactly as it is.\<close>

theorem first_final_result_wins:
  assumes "record_run_result p rr t = Inr p'" and "is_terminal_run_status (dget rr ''status'')"
    and "dget rr2 ''run_id'' = dget rr ''run_id''"
  shows "record_run_result p' rr2 t2 = Inr p'"
  using assms(1)
proof (cases rule: record_run_result_cases)
  case skip
  show ?thesis
  proof (cases "truthy (dget rr ''run_id'')")
    case False
    then show ?thesis using assms(3) by (simp add: record_run_result_def Let_def)
  next
    case True
    from skipped_result_again[OF assms(1)[unfolded skip] True assms(3)] skip show ?thesis by simp
  qed
next
  case (put i j n names artifacts)
  note pos = find_application_run_SomeD[OF put(1)]
  have lin: "lineage p' = lineage p" using assms(1) by (rule lineage_result)
  have "find_application_run (p_applications p') (dget rr2 ''run_id'') = Some (i, j)"
    unfolding find_same_lineage[OF lin] assms(3) by (rule put(1))
  moreover have "run_at p' i j = completed_run (run_at p i j) rr artifacts n names t"
    unfolding put(3) using pos by (subst run_at_put) (simp_all add: run_at_def)
  then have "is_terminal_run_status (r_status (a_runs (p_applications p' ! i) ! j))"
    using assms(2) by (simp add: run_at_def)
  ultimately show ?thesis by (simp add: record_run_result_def Let_def)
qed

theorem first_final_result_wins_witness:
  "\<exists>p. record_run_result (o_progress demo_start) [(''run_id'', JStr ''b:x:0''), (''status'', JStr ''Failed'')] ''t1'' = Inr p \<and>
    r_status (run_at p 0 0) = JStr ''Failed'' \<and>
    record_run_result p [(''run_id'', JStr ''b:x:0''), (''status'', JStr ''Succeeded'')] ''t2'' = Inr p"
proof -
  let ?rr = "[(''run_id'', JStr ''b:x:0''), (''status'', JStr ''Failed'')]"
  have "case record_run_result (o_progress demo_start) ?rr ''t1'' of Inl e \<Rightarrow> False
     | Inr p \<Rightarrow> r_status (run_at p 0 0) = JStr ''Failed''" by code_simp
  then obtain p where p: "record_run_result (o_progress demo_start) ?rr ''t1'' = Inr p"
    "r_status (run_at p 0 0) = JStr ''Failed''" by (auto split: sum.splits)
  moreover have "record_run_result p [(''run_id'', JStr ''b:x:0''), (''status'', JStr ''Succeeded'')] ''t2'' = Inr p"
    by (rule first_final_result_wins[OF p(1)]) simp_all
  ultimately show ?thesis by blast
qed

end
