(* ===== verification/Float64.thy ===== *)
theory Float64
  imports Prelude "HOL-Library.Log_Nat"
begin

text \<open>
  Python's float: an IEEE binary64 number, here the rational it denotes. \<open>fl64\<close> rounds a
  rational to the nearest one with 53 significant bits and a last place of at least
  \<open>2\<close> to the \<open>-1074\<close>, ties to even. Infinities are not modelled: the numbers of a
  document and their sums are taken to stay below the overflow threshold.

  What the statistics need from the rounding is the locale \<open>rounding\<close>: monotone,
  idempotent, odd, and exact on twice a rounded number. \<open>fl64\<close> is an instance.
\<close>

subsection \<open>Rounding to an integer\<close>

definition round_even :: "rat \<Rightarrow> int" where
  "round_even y =
     (let n = \<lfloor>y\<rfloor>; d = y - of_int n
      in if d < 1/2 then n else if 1/2 < d then n + 1 else if even n then n else n + 1)"

lemma round_even_of_int [simp]: "round_even (of_int n) = n"
  by (simp add: round_even_def)

lemma round_even_floor: "\<lfloor>y\<rfloor> \<le> round_even y" "round_even y \<le> \<lfloor>y\<rfloor> + 1"
  by (simp_all add: round_even_def Let_def)

lemma round_even_mono: "x \<le> y \<Longrightarrow> round_even x \<le> round_even y"
proof (cases "\<lfloor>x\<rfloor> = \<lfloor>y\<rfloor>")
  case True
  assume "x \<le> y"
  with True show ?thesis by (simp add: round_even_def Let_def)
next
  case False
  assume "x \<le> y"
  with False have "\<lfloor>x\<rfloor> + 1 \<le> \<lfloor>y\<rfloor>" using floor_mono by fastforce
  with round_even_floor[of x] round_even_floor[of y] show ?thesis by linarith
qed

lemma round_even_le_int: "y \<le> of_int n \<Longrightarrow> round_even y \<le> n"
  using round_even_mono[of y "of_int n"] by simp

lemma round_even_ge_int: "of_int n \<le> y \<Longrightarrow> n \<le> round_even y"
  using round_even_mono[of "of_int n" y] by simp

subsection \<open>The binary exponent\<close>

definition ilog2 :: "rat \<Rightarrow> int" where
  "ilog2 x = (case quotient_of x of (a, b) \<Rightarrow>
     (let k = bitlen a - bitlen b in if 2 powi k \<le> x then k else k - 1))"

lemma powi_step: "(2::rat) powi (k + 1) = 2 * 2 powi k"
  by (simp add: power_int_add)

lemma powi_mono: "m \<le> n \<Longrightarrow> (2::rat) powi m \<le> 2 powi n"
  by (simp add: power_int_increasing)

lemma powi_less_iff: "(2::rat) powi m < 2 powi n \<longleftrightarrow> m < n"
  by (metis power_int_strict_increasing linorder_not_less one_less_numeral_iff powi_mono semiring_norm(76))

lemma bitlen_powi:
  assumes "0 < a"
  shows "2 powi (bitlen a - 1) \<le> (of_int a :: rat)" "(of_int a :: rat) < 2 powi (bitlen a)"
proof -
  have pos: "0 < bitlen a" using assms by (simp add: bitlen_eq_zero_iff order_less_le bitlen_nonneg)
  from bitlen_bounds[OF assms] have b: "2 ^ nat (bitlen a - 1) \<le> a" "a < 2 ^ nat (bitlen a)" by auto
  have "(2::rat) powi (bitlen a - 1) = of_int (2 ^ nat (bitlen a - 1))"
    using pos by (simp add: power_int_def)
  also have "\<dots> \<le> of_int a" using b(1) by (simp only: of_int_le_iff)
  finally show "2 powi (bitlen a - 1) \<le> (of_int a :: rat)" .
  have "(of_int a :: rat) < of_int (2 ^ nat (bitlen a))" using b(2) by (simp only: of_int_less_iff)
  also have "\<dots> = 2 powi (bitlen a)" using pos by (simp add: power_int_def)
  finally show "(of_int a :: rat) < 2 powi (bitlen a)" .
qed

lemma ilog2_bounds:
  assumes "0 < x"
  shows "2 powi ilog2 x \<le> x" and "x < 2 powi (ilog2 x + 1)"
proof -
  obtain a b where q: "quotient_of x = (a, b)" by (cases "quotient_of x")
  have b: "0 < b" using q by (rule quotient_of_denom_pos)
  have x: "x = of_int a / of_int b" using q by (rule quotient_of_div)
  then have a: "0 < a" using assms b by (simp add: zero_less_divide_iff)
  let ?k = "bitlen a - bitlen b"
  have "(of_int a :: rat) < 2 powi (bitlen a)" by (rule bitlen_powi(2)[OF a])
  also have "(2::rat) powi (bitlen a) = 2 powi (?k + 1) * 2 powi (bitlen b - 1)"
    by (simp add: power_int_add[symmetric])
  also have "\<dots> \<le> 2 powi (?k + 1) * of_int b"
    by (rule mult_left_mono[OF bitlen_powi(1)[OF b]]) simp
  finally have up: "x < 2 powi (?k + 1)" using b by (simp add: x divide_less_eq)
  have "2 powi (?k - 1) * of_int b \<le> (2 :: rat) powi (?k - 1) * 2 powi (bitlen b)"
    by (rule mult_left_mono) (simp_all add: less_imp_le[OF bitlen_powi(2)[OF b]])
  also have "\<dots> = 2 powi (bitlen a - 1)" by (simp add: power_int_add[symmetric])
  also have "\<dots> \<le> of_int a" by (rule bitlen_powi(1)[OF a])
  finally have lo: "2 powi (?k - 1) \<le> x" using b by (simp add: x le_divide_eq)
  show "2 powi ilog2 x \<le> x" and "x < 2 powi (ilog2 x + 1)"
    using up lo by (auto simp: ilog2_def q Let_def)
qed

lemma ilog2_mono: "0 < x \<Longrightarrow> x \<le> y \<Longrightarrow> ilog2 x \<le> ilog2 y"
proof -
  assume a: "0 < x" "x \<le> y"
  then have "2 powi ilog2 x < (2::rat) powi (ilog2 y + 1)"
    using ilog2_bounds[of x] ilog2_bounds[of y] by linarith
  then show ?thesis by (simp add: powi_less_iff)
qed

lemma ilog2_eqI: "0 < x \<Longrightarrow> 2 powi k \<le> x \<Longrightarrow> x < 2 powi (k + 1) \<Longrightarrow> ilog2 x = k"
proof -
  assume a: "0 < x" "2 powi k \<le> x" "x < 2 powi (k + 1)"
  have "(2::rat) powi k < 2 powi (ilog2 x + 1)" "(2::rat) powi (ilog2 x) < 2 powi (k + 1)"
    using a ilog2_bounds[of x] by linarith+
  then show ?thesis by (simp add: powi_less_iff)
qed

subsection \<open>Rounding to a double\<close>

definition last_place :: "rat \<Rightarrow> int" where
  "last_place x = max (ilog2 x - 52) (- 1074)"

definition fl_at :: "int \<Rightarrow> rat \<Rightarrow> rat" where
  "fl_at e x = of_int (round_even (x / 2 powi e)) * 2 powi e"

definition flp :: "rat \<Rightarrow> rat" where
  "flp x = (if x = 0 then 0 else fl_at (last_place x) x)"

definition fl64 :: "rat \<Rightarrow> rat" where
  "fl64 x = (if x < 0 then - flp (- x) else flp x)"

lemma fl_at_mono: "x \<le> y \<Longrightarrow> fl_at e x \<le> fl_at e y"
  unfolding fl_at_def
  by (rule mult_right_mono) (simp_all add: round_even_mono divide_right_mono)

lemma fl_at_multiple: "fl_at e (of_int n * 2 powi e) = of_int n * 2 powi e"
  by (simp add: fl_at_def)

lemma powi_multiple: "e \<le> k \<Longrightarrow> \<exists>n. (2::rat) powi k = of_int n * 2 powi e"
proof -
  assume "e \<le> k"
  then have "(2::rat) powi k = 2 powi (k - e) * 2 powi e" by (simp add: power_int_add[symmetric])
  also have "(2::rat) powi (k - e) = of_int (2 ^ nat (k - e))" using \<open>e \<le> k\<close> by (simp add: power_int_def)
  finally show ?thesis by blast
qed

lemma fl_at_powi: "e \<le> k \<Longrightarrow> fl_at e (2 powi k) = 2 powi k"
  using powi_multiple[of e k] fl_at_multiple by metis

lemma fl_at_nonneg: "0 \<le> x \<Longrightarrow> 0 \<le> fl_at e x"
  using fl_at_mono[of 0 x e] by (simp add: fl_at_def round_even_def)

lemma flp_nonneg: "0 \<le> x \<Longrightarrow> 0 \<le> flp x"
  by (simp add: flp_def fl_at_nonneg)

lemma flp_mono:
  assumes "0 \<le> x" and "x \<le> y"
  shows "flp x \<le> flp y"
proof (cases "x = 0")
  case True
  with assms show ?thesis by (simp add: flp_nonneg) (simp add: flp_def fl_at_nonneg)
next
  case False
  with assms have pos: "0 < x" "0 < y" by simp_all
  show ?thesis
  proof (cases "last_place x = last_place y")
    case True
    with pos assms(2) show ?thesis by (simp add: flp_def fl_at_mono)
  next
    case neq: False
    have mono: "ilog2 x \<le> ilog2 y" using pos assms(2) by (intro ilog2_mono)
    with neq have ey: "last_place y = ilog2 y - 52" and lt: "ilog2 x < ilog2 y"
      and ex: "last_place x < last_place y" by (auto simp: last_place_def)
    have "x \<le> 2 powi (ilog2 y)"
      using ilog2_bounds(2)[OF pos(1)] powi_mono[of "ilog2 x + 1" "ilog2 y"] lt by linarith
    then have "fl_at (last_place x) x \<le> fl_at (last_place x) (2 powi (ilog2 y))" by (rule fl_at_mono)
    also have "\<dots> = 2 powi (ilog2 y)" using ex ey by (intro fl_at_powi) simp
    also have "\<dots> = fl_at (last_place y) (2 powi (ilog2 y))" using ey by (simp add: fl_at_powi)
    also have "\<dots> \<le> fl_at (last_place y) y" using ilog2_bounds(1)[OF pos(2)] by (rule fl_at_mono)
    finally show ?thesis using pos by (simp add: flp_def)
  qed
qed

subsection \<open>The numbers rounding leaves alone\<close>

definition has_form :: "rat \<Rightarrow> bool" where
  "has_form y \<longleftrightarrow> (\<exists>n e. y = of_int n * 2 powi e \<and> 0 \<le> n \<and> n \<le> 2 ^ 53 \<and> - 1074 \<le> e)"

lemma form_fixed:
  assumes "has_form y"
  shows "flp y = y"
proof -
  from assms obtain n e where y: "y = of_int n * 2 powi e" and n: "0 \<le> n" "n \<le> 2 ^ 53" and e: "- 1074 \<le> e"
    by (auto simp: has_form_def)
  show ?thesis
  proof (cases "n = 0")
    case True
    with y show ?thesis by (simp add: flp_def)
  next
    case False
    with n y have pos: "0 < y" by simp
    have "\<exists>m. y = of_int m * 2 powi (last_place y)"
    proof (cases "n = 2 ^ 53")
      case True
      have "y = 2 powi (e + 53)" by (simp add: y True power_int_add)
      moreover have "ilog2 (2 powi (e + 53)) = e + 53"
        by (rule ilog2_eqI) (simp_all add: powi_less_iff)
      ultimately have "last_place y = e + 1" using e by (simp add: last_place_def)
      with \<open>y = 2 powi (e + 53)\<close> show ?thesis using powi_multiple[of "e + 1" "e + 53"] by simp
    next
      case False
      with n have "(of_int n :: rat) < of_int (2 ^ 53)" by (simp only: of_int_less_iff)
      then have "y < of_int (2 ^ 53) * 2 powi e" unfolding y by (rule mult_strict_right_mono) simp
      also have "\<dots> = 2 powi (e + 53)" by (simp add: power_int_add)
      finally have "2 powi (ilog2 y) < (2::rat) powi (e + 53)" using ilog2_bounds(1)[OF pos] by linarith
      then have "last_place y \<le> e" using e by (simp add: powi_less_iff last_place_def)
      then obtain m where "(2::rat) powi e = of_int m * 2 powi (last_place y)" using powi_multiple by blast
      then have "y = of_int (n * m) * 2 powi (last_place y)" by (simp add: y)
      then show ?thesis by blast
    qed
    then show ?thesis using pos fl_at_multiple by (metis flp_def less_irrefl)
  qed
qed

lemma flp_form:
  assumes "0 \<le> x"
  shows "has_form (flp x)"
proof (cases "x = 0")
  case True
  then show ?thesis by (auto simp: flp_def has_form_def intro!: exI[of _ 0])
next
  case False
  with assms have pos: "0 < x" by simp
  let ?e = "last_place x" and ?n = "round_even (x / 2 powi last_place x)"
  have "x < 2 powi (ilog2 x + 1)" by (rule ilog2_bounds(2)[OF pos])
  also have "\<dots> \<le> 2 powi (?e + 53)" by (rule powi_mono) (simp add: last_place_def)
  also have "\<dots> = of_int (2 ^ 53) * 2 powi ?e" by (simp add: power_int_add)
  finally have "x / 2 powi ?e \<le> of_int (2 ^ 53)" by (simp add: pos_divide_le_eq)
  then have "?n \<le> 2 ^ 53" by (rule round_even_le_int)
  moreover have "0 \<le> ?n" using pos by (intro round_even_ge_int) simp
  moreover have "flp x = of_int ?n * 2 powi ?e" using pos by (simp add: flp_def fl_at_def)
  moreover have "- 1074 \<le> ?e" by (simp add: last_place_def)
  ultimately show ?thesis unfolding has_form_def by blast
qed

lemma form_double: "has_form y \<Longrightarrow> has_form (2 * y)"
proof -
  assume "has_form y"
  then obtain n e where "y = of_int n * 2 powi e" "0 \<le> n" "n \<le> 2 ^ 53" "- 1074 \<le> e" by (auto simp: has_form_def)
  then show ?thesis unfolding has_form_def
    by (intro exI[of _ n] exI[of _ "e + 1"]) (simp add: power_int_add)
qed

subsection \<open>What the statistics use\<close>

locale rounding =
  fixes fl :: "rat \<Rightarrow> rat"
  assumes mono: "x \<le> y \<Longrightarrow> fl x \<le> fl y"
    and idem: "fl (fl x) = fl x"
    and odd_fun: "fl (- x) = - fl x"
    and twice: "fl (2 * fl x) = 2 * fl x"
begin

lemma zero: "fl 0 = 0"
  using odd_fun[of 0] by simp

lemma nonneg: "0 \<le> x \<Longrightarrow> 0 \<le> fl x"
  using mono[of 0 x] zero by simp

lemma between:
  assumes "fl a = a" and "fl b = b" and "a \<le> x" and "x \<le> b"
  shows "a \<le> fl x" and "fl x \<le> b"
  using mono[OF assms(3)] mono[OF assms(4)] assms(1,2) by simp_all

lemma midpoint:
  assumes "fl a = a" and "fl b = b" and "a \<le> b"
  shows "a \<le> fl (fl (a + b) / 2)" and "fl (fl (a + b) / 2) \<le> b"
proof -
  have a2: "fl (2 * a) = 2 * a" and b2: "fl (2 * b) = 2 * b" using twice[of a] twice[of b] assms by simp_all
  have "2 * a \<le> fl (a + b)" "fl (a + b) \<le> 2 * b"
    using between[OF a2 b2, of "a + b"] assms(3) by simp_all
  then show "a \<le> fl (fl (a + b) / 2)" "fl (fl (a + b) / 2) \<le> b"
    using between[OF assms(1,2), of "fl (a + b) / 2"] by simp_all
qed

end

lemma fl64_mono: "x \<le> y \<Longrightarrow> fl64 x \<le> fl64 y"
proof (cases "0 \<le> x")
  case True
  assume "x \<le> y"
  with True show ?thesis by (simp add: fl64_def flp_mono)
next
  case False
  assume xy: "x \<le> y"
  show ?thesis
  proof (cases "0 \<le> y")
    case True
    have "0 \<le> flp (- x)" "0 \<le> flp y" using False True by (simp_all add: flp_nonneg)
    with False True show ?thesis by (simp add: fl64_def)
  next
    case neg: False
    with False xy show ?thesis by (simp add: fl64_def flp_mono)
  qed
qed

lemma fl64_form:
  "has_form (fl64 x) \<and> 0 \<le> x \<or> has_form (- fl64 x) \<and> x < 0"
  by (cases "x < 0") (simp_all add: fl64_def flp_form)

lemma fl64_fixed: "has_form y \<or> has_form (- y) \<Longrightarrow> fl64 y = y"
proof -
  assume a: "has_form y \<or> has_form (- y)"
  have nn: "0 \<le> z" if "has_form z" for z using that by (auto simp: has_form_def)
  show ?thesis
  proof (cases "has_form y")
    case True
    with nn[OF True] show ?thesis by (simp add: fl64_def form_fixed)
  next
    case False
    with a have m: "has_form (- y)" by blast
    then have "y \<le> 0" using nn[OF m] by simp
    with m form_fixed[OF m] show ?thesis by (cases "y = 0") (simp_all add: fl64_def flp_def)
  qed
qed

interpretation binary64: rounding fl64
proof
  fix x y :: rat
  show "x \<le> y \<Longrightarrow> fl64 x \<le> fl64 y" by (rule fl64_mono)
  show "fl64 (fl64 x) = fl64 x" using fl64_form[of x] fl64_fixed by blast
  show "fl64 (- x) = - fl64 x" by (cases "x = 0") (auto simp: fl64_def flp_def)
  show "fl64 (2 * fl64 x) = 2 * fl64 x"
    using fl64_form[of x] form_double[of "fl64 x"] form_double[of "- fl64 x"] by (intro fl64_fixed) auto
qed

lemma fl64_int:
  assumes "\<bar>n\<bar> \<le> 2 ^ 53"
  shows "fl64 (of_int n) = of_int n"
proof -
  have "has_form (of_int \<bar>n\<bar>)"
    unfolding has_form_def using assms by (intro exI[of _ "\<bar>n\<bar>"] exI[of _ 0]) simp
  then show ?thesis by (intro fl64_fixed) (cases "0 \<le> n"; simp)
qed

end
