(* ===== verification/Aggregation.thy ===== *)
theory Aggregation
  imports RunStatus Float64 "HOL-Library.Multiset"
begin

text \<open>
  The shared aggregation library (\<^verbatim>\<open>runtime/aggregation/shared.py\<close>): profiles, the
  signal of one run's output under the CV scoring profile, the statistics over the runs, and
  the generic profile that aggregates every numeric path of the outputs.

  A float is rounded with \<open>fl64\<close>; \<^verbatim>\<open>statistics.mean\<close> and
  \<^verbatim>\<open>statistics.pvariance\<close> of the supported Python (3.11) compute an exact fraction
  and round once. The iteration order of a Python set of strings depends on the hash seed of
  the process: it is the parameter \<open>set_iter\<close>.
\<close>

subsection \<open>Profiles\<close>

definition profile_generic :: string where "profile_generic = ''generic_passthrough''"
definition profile_cv :: string where "profile_cv = ''cv_scoring_v1''"

definition normalize_profile :: "string option \<Rightarrow> string result" where
  "normalize_profile p =
     (let n = lower (strip (case p of None \<Rightarrow> profile_generic | Some s \<Rightarrow> str_or s profile_generic))
      in if n \<notin> set [profile_generic, profile_cv]
         then Inl (ValueError (''Unsupported aggregation profile '' @ [CHR 0x27] @ (case p of None \<Rightarrow> ''None'' | Some s \<Rightarrow> s)
                @ [CHR 0x27] @ ''. Supported profiles: cv_scoring_v1, generic_passthrough''))
         else Inr n)"

subsection \<open>The signal of one output\<close>

record cv_signal =
  sg_score :: "rat option"
  sg_met :: bool
  sg_decision :: string

definition positive_decisions :: "string list" where
  "positive_decisions = [''approve'', ''approved'', ''accept'', ''accepted'', ''pass'', ''passed'',
     ''recommend'', ''recommended'', ''strong_match'']"

definition negative_decisions :: "string list" where
  "negative_decisions = [''reject'', ''rejected'', ''cannot_assess'', ''insufficient_information'',
     ''fail'', ''failed'']"

definition negative_statuses :: "string list" where
  "negative_statuses = [''insufficient_data'', ''insufficient_information'']"

text \<open>\<^verbatim>\<open>float(v) if isinstance(v, (int, float)) else None\<close>: a bool is an int.\<close>

fun py_float :: "json \<Rightarrow> rat option" where
  "py_float (JInt n) = Some (fl64 (of_int n))"
| "py_float (JFloat x _) = Some (fl64 x)"
| "py_float (JBool b) = Some (if b then 1 else 0)"
| "py_float _ = None"

definition sub_dict :: "dict \<Rightarrow> string \<Rightarrow> dict" where
  "sub_dict d k = (case dget d k of JObj e \<Rightarrow> e | _ \<Rightarrow> [])"

text \<open>\<^verbatim>\<open>all(bool(m.get("met")) for m in must_haves)\<close>: it stops at the first unmet one.\<close>

fun all_met :: "json list \<Rightarrow> bool result" where
  "all_met [] = Inr True"
| "all_met (JObj d # ms) = (if truthy (dget d ''met'') then all_met ms else Inr False)"
| "all_met (_ # ms) = Inl AttributeError"

definition cv_score_field :: "dict \<Rightarrow> json" where
  "cv_score_field out =
     (let s = dget_or out ''overall_score'' (dget out ''score'')
      in if s = JNull then dget (sub_dict out ''composite_score'') ''value'' else s)"

definition cv_decision_raw :: "dict \<Rightarrow> string" where
  "cv_decision_raw out =
     (let d = status_key (py_or (dget out ''decision'') (dget out ''final_decision''))
      in if d = [] then status_key (dget (sub_dict out ''eligibility'') ''status'') else d)"

definition cv_must_haves :: "dict \<Rightarrow> json" where
  "cv_must_haves out =
     (let m = dget_or out ''must_haves'' (py_or (dget_or out ''must_have_results'' (JList [])) (JList []))
      in if \<not> truthy m
         then (case dget (sub_dict out ''eligibility'') ''requirements_checklist'' of
                 JObj d \<Rightarrow> JList (filter is_dict (map snd d)) | _ \<Rightarrow> m)
         else m)"

definition cv_all_met :: "json \<Rightarrow> string \<Rightarrow> bool result" where
  "cv_all_met mh d =
     (if truthy mh then bind_res (py_iter mh) all_met
      else if d \<noteq> [] then Inr (d \<in> set positive_decisions)
      else Inr False)"

definition cv_decision :: "string \<Rightarrow> bool \<Rightarrow> string" where
  "cv_decision d met =
     (if d \<in> set positive_decisions then ''Approve''
      else if d \<in> set negative_decisions then ''Reject''
      else if met then ''Approve'' else ''Reject'')"

definition extract_cv_signal :: "dict \<Rightarrow> cv_signal option result" where
  "extract_cv_signal out =
     (let score = cv_score_field out; d = cv_decision_raw out; st = status_key (dget out ''status'');
          mh = cv_must_haves out
      in bind_res (cv_all_met mh d) (\<lambda>met.
           (let score' = (if score = JNull \<and> st \<in> set negative_statuses then JFloat 0 ''0.0'' else score)
            in if score' = JNull \<and> \<not> truthy mh \<and> d = [] \<and> st = [] then Inr None
               else Inr (Some \<lparr>sg_score = py_float score', sg_met = met, sg_decision = cv_decision d met\<rparr>))))"

subsection \<open>Statistics\<close>

definition median :: "rat list \<Rightarrow> rat" where
  "median xs =
     (let d = sort xs; n = length d
      in if odd n then d ! (n div 2) else fl64 (fl64 (d ! (n div 2 - 1) + d ! (n div 2)) / 2))"

definition mean :: "rat list \<Rightarrow> rat" where
  "mean xs = fl64 (sum_list xs / of_nat (length xs))"

definition pvariance :: "rat list \<Rightarrow> rat" where
  "pvariance xs =
     (let n = of_nat (length xs); sx = sum_list xs; sxx = sum_list (map (\<lambda>x. x * x) xs)
      in fl64 ((n * sxx - sx * sx) / n / n))"

text \<open>\<^verbatim>\<open>int(n * 0.1)\<close>, a product of doubles\<close>

definition tenth :: "nat \<Rightarrow> nat" where
  "tenth n = nat \<lfloor>fl64 (of_nat n * fl64 (1 / 10))\<rfloor>"

definition trim_count :: "nat \<Rightarrow> nat" where
  "trim_count n = (if n > 2 then max 1 (tenth n) else 0)"

definition slice :: "nat \<Rightarrow> nat \<Rightarrow> 'a list \<Rightarrow> 'a list" where
  "slice i j xs = take (j - i) (drop i xs)"

definition trimmed_mean :: "rat list \<Rightarrow> rat" where
  "trimmed_mean xs =
     (let s = sort xs; k = trim_count (length s);
          t = (if k \<noteq> 0 then slice k (length s - k) s else s)
      in mean (if t \<noteq> [] then t else xs))"

definition interquartile_mean :: "rat list \<Rightarrow> rat" where
  "interquartile_mean xs =
     (if length xs < 4 then mean xs
      else (let s = sort xs; q1 = length s div 4; q3 = 3 * length s div 4;
                m = slice q1 (q3 + 1) s
            in mean (if m \<noteq> [] then m else xs)))"

definition aggregate_values :: "rat list \<Rightarrow> string \<Rightarrow> rat" where
  "aggregate_values xs meth =
     (if xs = [] then 0
      else if meth = ''mean'' then mean xs
      else if meth = ''trimmed_mean'' then trimmed_mean xs
      else if meth = ''interquartile_mean'' then interquartile_mean xs
      else median xs)"

subsection \<open>The CV scoring profile\<close>

record cv_aggregate =
  ca_finalScore :: "rat option"
  ca_variance :: rat
  ca_finalDecision :: "string option"
  ca_mustHaveResult :: bool
  ca_sourceArtifacts :: "json list"
  ca_runsCount :: nat

text \<open>\<^verbatim>\<open>max(xs, key=f)\<close>: the first of the elements with the greatest key\<close>

fun max_by :: "('a \<Rightarrow> nat) \<Rightarrow> 'a \<Rightarrow> 'a list \<Rightarrow> 'a" where
  "max_by f b [] = b"
| "max_by f b (x # xs) = max_by f (if f x > f b then x else b) xs"

definition most_common :: "(string list \<Rightarrow> string list) \<Rightarrow> string list \<Rightarrow> string option" where
  "most_common set_iter ds =
     (if ds = [] then None
      else (case set_iter ds of [] \<Rightarrow> None | x # xs \<Rightarrow> Some (max_by (count_list ds) x xs)))"

definition aggregate_cv_scoring ::
  "(string list \<Rightarrow> string list) \<Rightarrow> dict list \<Rightarrow> json list \<Rightarrow> cv_aggregate option result" where
  "aggregate_cv_scoring set_iter outputs sources =
     (if outputs = [] then Inr None
      else bind_res (map_res extract_cv_signal outputs) (\<lambda>sigs.
        (let parsed = List.map_filter (\<lambda>s. s) sigs
         in if parsed = [] then Inr None
            else
              (let scores = List.map_filter sg_score parsed
               in Inr (Some
                 \<lparr>ca_finalScore = (if scores = [] then None else Some (median scores)),
                  ca_variance = (if length scores > 1 then pvariance scores else 0),
                  ca_finalDecision = most_common set_iter (map sg_decision parsed),
                  ca_mustHaveResult = list_all sg_met parsed,
                  ca_sourceArtifacts = sources,
                  ca_runsCount = length parsed\<rparr>)))))"

subsection \<open>The generic profile\<close>

definition key_path :: "string \<Rightarrow> string \<Rightarrow> string" where
  "key_path path k = (if path \<noteq> [] then path @ ''.'' @ k else k)"

definition index_path :: "string \<Rightarrow> nat \<Rightarrow> string" where
  "index_path path i = path @ ''['' @ nat_digits i @ '']''"

text \<open>\<^verbatim>\<open>visit\<close> fills one dict; \<open>acc\<close> is that dict.\<close>

fun visit :: "json \<Rightarrow> string \<Rightarrow> (string \<times> rat) list \<Rightarrow> (string \<times> rat) list"
and visit_items :: "(string \<times> json) list \<Rightarrow> string \<Rightarrow> (string \<times> rat) list \<Rightarrow> (string \<times> rat) list"
and visit_elems :: "json list \<Rightarrow> nat \<Rightarrow> string \<Rightarrow> (string \<times> rat) list \<Rightarrow> (string \<times> rat) list" where
  "visit (JObj d) path acc = visit_items d path acc"
| "visit (JList xs) path acc = visit_elems xs 0 path acc"
| "visit (JInt n) path acc = AList.update path (fl64 (of_int n)) acc"
| "visit (JFloat x t) path acc = AList.update path (fl64 x) acc"
| "visit (JBool b) path acc = acc"
| "visit (JStr s) path acc = acc"
| "visit JNull path acc = acc"
| "visit_items [] path acc = acc"
| "visit_items ((k, v) # d) path acc = visit_items d path (visit v (key_path path k) acc)"
| "visit_elems [] i path acc = acc"
| "visit_elems (x # xs) i path acc = visit_elems xs (Suc i) path (visit x (index_path path i) acc)"

definition extract_numeric_paths :: "dict \<Rightarrow> (string \<times> rat) list" where
  "extract_numeric_paths out = visit (JObj out) [] []"

text \<open>\<^verbatim>\<open>numeric_by_path[path].append(value)\<close> on the \<^verbatim>\<open>defaultdict(list)\<close>\<close>

definition append_at :: "string \<Rightarrow> rat \<Rightarrow> (string \<times> rat list) list \<Rightarrow> (string \<times> rat list) list" where
  "append_at p x acc = AList.update p ((case map_of acc p of None \<Rightarrow> [] | Some xs \<Rightarrow> xs) @ [x]) acc"

definition numeric_by_path :: "dict list \<Rightarrow> (string \<times> rat list) list" where
  "numeric_by_path outputs =
     fold (\<lambda>out acc. fold (\<lambda>(p, x). append_at p x) (extract_numeric_paths out) acc) outputs []"

record generic_aggregate =
  ga_method :: string
  ga_runCount :: nat
  ga_fieldAggregations :: "(string \<times> rat) list"
  ga_sourceArtifacts :: "json list"

definition aggregate_generic :: "dict list \<Rightarrow> string \<Rightarrow> json list \<Rightarrow> generic_aggregate option" where
  "aggregate_generic outputs meth sources =
     (if outputs = [] then None
      else Some \<lparr>ga_method = meth, ga_runCount = length outputs,
                 ga_fieldAggregations = map (\<lambda>(p, xs). (p, aggregate_values xs meth)) (numeric_by_path outputs),
                 ga_sourceArtifacts = sources\<rparr>)"

datatype aggregate = CvAggregate "cv_aggregate option" | GenericAggregate "generic_aggregate option"

definition aggregate_run_outputs ::
  "(string list \<Rightarrow> string list) \<Rightarrow> dict list \<Rightarrow> string option \<Rightarrow> string \<Rightarrow> json list \<Rightarrow> aggregate result" where
  "aggregate_run_outputs set_iter outputs profile meth sources =
     bind_res (normalize_profile profile) (\<lambda>n.
       if n = profile_cv then map_sum id CvAggregate (aggregate_cv_scoring set_iter outputs sources)
       else Inr (GenericAggregate (aggregate_generic outputs meth sources)))"

end
