(* ===== verification/AggregationLaws.thy ===== *)
theory AggregationLaws
  imports Aggregation
begin

text \<open>
  Laws of the statistics: each is a summary of the list it is given, in the sense of the
  locale \<open>summary\<close> (between the least and the greatest value, independent of the order), and
  what follows from that for the two profiles.
\<close>

subsection \<open>Summaries\<close>

definition doubles :: "rat list \<Rightarrow> bool" where
  "doubles xs \<longleftrightarrow> (\<forall>x \<in> set xs. fl64 x = x)"

locale summary =
  fixes agg :: "rat list \<Rightarrow> rat"
  assumes lower_bound: "xs \<noteq> [] \<Longrightarrow> doubles xs \<Longrightarrow> Min (set xs) \<le> agg xs"
    and upper_bound: "xs \<noteq> [] \<Longrightarrow> doubles xs \<Longrightarrow> agg xs \<le> Max (set xs)"
    and perm: "mset xs = mset ys \<Longrightarrow> agg xs = agg ys"
begin

lemma within:
  assumes "xs \<noteq> []" and "doubles xs" and "\<And>x. x \<in> set xs \<Longrightarrow> lo \<le> x \<and> x \<le> hi"
  shows "lo \<le> agg xs" and "agg xs \<le> hi"
proof -
  have "lo \<le> Min (set xs)" "Max (set xs) \<le> hi" using assms(1,3) by simp_all
  with lower_bound[OF assms(1,2)] upper_bound[OF assms(1,2)]
  show "lo \<le> agg xs" "agg xs \<le> hi" by simp_all
qed

lemma const_list:
  assumes "xs \<noteq> []" and "set xs \<subseteq> {c}" and "fl64 c = c"
  shows "agg xs = c"
proof -
  have "doubles xs" using assms by (auto simp: doubles_def)
  with within[of xs c c] assms show ?thesis by (metis antisym order_refl singletonD subsetD)
qed

lemma reversed: "agg (rev xs) = agg xs"
  by (rule perm) simp

end

lemma sort_perm: "mset xs = mset ys \<Longrightarrow> sort xs = sort ys"
  by (metis properties_for_sort mset_sort sorted_sort)

subsection \<open>The mean\<close>

lemma sum_list_between:
  fixes lo hi :: rat
  assumes "\<And>x. x \<in> set xs \<Longrightarrow> lo \<le> x \<and> x \<le> hi"
  shows "of_nat (length xs) * lo \<le> sum_list xs" "sum_list xs \<le> of_nat (length xs) * hi"
  using assms by (induction xs) (auto simp: algebra_simps add_mono)

lemma mean_between:
  assumes "xs \<noteq> []" and "fl64 lo = lo" and "fl64 hi = hi" and "\<And>x. x \<in> set xs \<Longrightarrow> lo \<le> x \<and> x \<le> hi"
  shows "lo \<le> mean xs" and "mean xs \<le> hi"
proof -
  have n: "(0::rat) < of_nat (length xs)" using assms(1) by simp
  have "lo \<le> sum_list xs / of_nat (length xs)" "sum_list xs / of_nat (length xs) \<le> hi"
    using sum_list_between[OF assms(4)] n by (simp_all add: le_divide_eq divide_le_eq mult.commute)
  with binary64.between[OF assms(2,3)] show "lo \<le> mean xs" "mean xs \<le> hi" by (simp_all add: mean_def)
qed

lemma doubles_Min_Max: "doubles xs \<Longrightarrow> xs \<noteq> [] \<Longrightarrow> fl64 (Min (set xs)) = Min (set xs) \<and> fl64 (Max (set xs)) = Max (set xs)"
  by (simp add: doubles_def)

lemma sum_list_perm: "mset xs = mset ys \<Longrightarrow> sum_list (xs :: rat list) = sum_list ys"
  by (metis sum_mset_sum_list)

lemma mean_perm: "mset xs = mset ys \<Longrightarrow> mean xs = mean ys"
  unfolding mean_def by (metis mset_eq_length sum_list_perm)

interpretation mean_summary: summary mean
proof
  fix xs ys :: "rat list"
  assume "xs \<noteq> []" "doubles xs"
  with mean_between[of xs "Min (set xs)" "Max (set xs)"] doubles_Min_Max
  show "Min (set xs) \<le> mean xs" "mean xs \<le> Max (set xs)" by simp_all
qed (rule mean_perm)

text \<open>The mean of any nonempty part of a list of doubles is within the bounds of the list.\<close>

lemma mean_part:
  assumes "ys \<noteq> []" and "set ys \<subseteq> set xs" and "doubles xs"
  shows "Min (set xs) \<le> mean ys" and "mean ys \<le> Max (set xs)"
proof -
  have ne: "xs \<noteq> []" using assms(1,2) by (cases xs) auto
  from doubles_Min_Max[OF assms(3) ne] assms(2)
  show "Min (set xs) \<le> mean ys" "mean ys \<le> Max (set xs)"
    using mean_between[OF assms(1), of "Min (set xs)" "Max (set xs)"] by (simp_all add: subset_iff)
qed

subsection \<open>The median\<close>

lemma median_perm: "mset xs = mset ys \<Longrightarrow> median xs = median ys"
  unfolding median_def by (drule sort_perm) (simp only:)

interpretation median_summary: summary median
proof
  fix xs ys :: "rat list"
  assume ne: "xs \<noteq> []" and d: "doubles xs"
  let ?d = "sort xs"
  have mem: "?d ! i \<in> set xs" if "i < length xs" for i
    using that by (metis length_sort nth_mem set_sort)
  show "Min (set xs) \<le> median xs" and "median xs \<le> Max (set xs)"
  proof (atomize (full), cases "odd (length xs)")
    case True
    have "?d ! (length xs div 2) \<in> set xs" using ne by (intro mem) simp
    with True show "Min (set xs) \<le> median xs \<and> median xs \<le> Max (set xs)" by (simp add: median_def Let_def)
  next
    case False
    let ?i = "length xs div 2"
    have i: "?i - 1 < length xs" "?i < length xs" using ne by (simp_all add: less_imp_diff_less)
    note a = mem[OF i(1)] and b = mem[OF i(2)]
    have "?d ! (?i - 1) \<le> ?d ! ?i" using i by (intro sorted_nth_mono) simp_all
    moreover have "fl64 (?d ! (?i - 1)) = ?d ! (?i - 1)" "fl64 (?d ! ?i) = ?d ! ?i"
      using d a b by (simp_all add: doubles_def)
    ultimately have "?d ! (?i - 1) \<le> median xs" "median xs \<le> ?d ! ?i"
      using binary64.midpoint False by (simp_all add: median_def Let_def)
    moreover have "Min (set xs) \<le> ?d ! (?i - 1)" "?d ! ?i \<le> Max (set xs)" using a b by simp_all
    ultimately show "Min (set xs) \<le> median xs \<and> median xs \<le> Max (set xs)" by linarith
  qed
qed (rule median_perm)

subsection \<open>The trimmed means\<close>

lemma set_slice: "set (slice i j xs) \<subseteq> set xs"
  unfolding slice_def by (meson order_trans set_drop_subset set_take_subset)

lemma length_slice: "j \<le> length xs \<Longrightarrow> length (slice i j xs) = j - i"
  by (simp add: slice_def)

lemma mean_of_nonempty:
  assumes "xs \<noteq> []" and "set ts \<subseteq> set xs"
  shows "\<exists>ys. ys \<noteq> [] \<and> set ys \<subseteq> set xs \<and> mean (if ts \<noteq> [] then ts else xs) = mean ys"
  by (rule exI[of _ "if ts \<noteq> [] then ts else xs"]) (use assms in auto)

lemma trimmed_part:
  assumes "xs \<noteq> []"
  shows "\<exists>ys. ys \<noteq> [] \<and> set ys \<subseteq> set xs \<and> trimmed_mean xs = mean ys"
proof -
  let ?s = "sort xs" and ?k = "trim_count (length (sort xs))"
  let ?t = "if ?k \<noteq> 0 then slice ?k (length ?s - ?k) ?s else ?s"
  have part: "set ?t \<subseteq> set xs" using set_slice[of ?k "length ?s - ?k" ?s] by simp
  have eq: "trimmed_mean xs = mean (if ?t \<noteq> [] then ?t else xs)"
    by (simp only: trimmed_mean_def Let_def)
  show ?thesis unfolding eq by (rule mean_of_nonempty[OF assms part])
qed

lemma interquartile_part:
  assumes "xs \<noteq> []"
  shows "\<exists>ys. ys \<noteq> [] \<and> set ys \<subseteq> set xs \<and> interquartile_mean xs = mean ys"
proof (cases "length xs < 4")
  case True
  with assms show ?thesis by (auto simp: interquartile_mean_def)
next
  case False
  let ?s = "sort xs"
  let ?m = "slice (length ?s div 4) (3 * length ?s div 4 + 1) ?s"
  have part: "set ?m \<subseteq> set xs" using set_slice[of _ _ ?s] by simp
  have eq: "interquartile_mean xs = mean (if ?m \<noteq> [] then ?m else xs)"
    using False by (simp only: interquartile_mean_def Let_def if_False)
  show ?thesis unfolding eq by (rule mean_of_nonempty[OF assms part])
qed

lemma trimmed_perm: "mset xs = mset ys \<Longrightarrow> trimmed_mean xs = trimmed_mean ys"
proof -
  assume m: "mset xs = mset ys"
  note s = sort_perm[OF m] and mean = mean_perm[OF m]
  show ?thesis unfolding trimmed_mean_def s Let_def using mean by simp
qed

lemma interquartile_perm: "mset xs = mset ys \<Longrightarrow> interquartile_mean xs = interquartile_mean ys"
proof -
  assume m: "mset xs = mset ys"
  note s = sort_perm[OF m] and mean = mean_perm[OF m] and len = mset_eq_length[OF m]
  show ?thesis unfolding interquartile_mean_def s len Let_def using mean by simp
qed

interpretation trimmed_summary: summary trimmed_mean
proof
  fix xs ys :: "rat list"
  assume ne: "xs \<noteq> []" and d: "doubles xs"
  from trimmed_part[OF ne] mean_part d
  show "Min (set xs) \<le> trimmed_mean xs" "trimmed_mean xs \<le> Max (set xs)" by metis+
qed (rule trimmed_perm)

interpretation interquartile_summary: summary interquartile_mean
proof
  fix xs ys :: "rat list"
  assume ne: "xs \<noteq> []" and d: "doubles xs"
  from interquartile_part[OF ne] mean_part d
  show "Min (set xs) \<le> interquartile_mean xs" "interquartile_mean xs \<le> Max (set xs)" by metis+
qed (rule interquartile_perm)

text \<open>The product of two doubles is floored to the exact tenth.\<close>

lemma fl64_tenth: "fl64 (1 / 10) = 3602879701896397 / 2 ^ 55"
  by code_simp

lemma quarters_fixed:
  assumes "k < 2 ^ 40"
  shows "fl64 (of_nat k + 15 / 16) = of_nat k + 15 / 16"
proof (rule fl64_fixed)
  have "(of_nat k + 15 / 16 :: rat) = of_int (int (16 * k + 15)) * 2 powi (- 4)"
    by (simp add: power_int_def field_simps)
  moreover have "int (16 * k + 15) \<le> 2 ^ 53" using assms by simp
  ultimately show "has_form (of_nat k + 15 / 16) \<or> has_form (- (of_nat k + 15 / 16))"
    unfolding has_form_def by (intro disjI1 exI[of _ "int (16 * k + 15)"] exI[of _ "- 4"]) simp
qed

lemma tenth_exact:
  assumes "n < 2 ^ 40"
  shows "tenth n = n div 10"
proof -
  let ?k = "n div 10" and ?x = "of_nat n * fl64 (1 / 10) :: rat"
  have split: "n = 10 * ?k + n mod 10" "n mod 10 \<le> 9" by simp_all
  have k: "?k < 2 ^ 40" using assms by simp
  have kn: "(of_nat n :: rat) \<le> 10 * of_nat ?k + 9" "10 * of_nat ?k \<le> (of_nat n :: rat)"
    using split by (metis (no_types) of_nat_add of_nat_le_iff of_nat_mult of_nat_numeral add_le_cancel_left)
       (metis split(1) le_add1 of_nat_le_iff of_nat_mult of_nat_numeral)
  have n40: "(of_nat n :: rat) \<le> 2 ^ 40"
    using assms by (metis less_imp_le of_nat_le_iff of_nat_numeral of_nat_power)
  have lo: "of_nat ?k \<le> ?x" unfolding fl64_tenth using kn(2) by simp
  have hi: "?x \<le> of_nat ?k + 15 / 16" unfolding fl64_tenth using kn(1) n40 by simp
  have "fl64 (of_nat ?k) = of_nat ?k" using fl64_int[of "int ?k"] k by simp
  with quarters_fixed[OF k] lo hi have "of_nat ?k \<le> fl64 ?x" "fl64 ?x \<le> of_nat ?k + 15 / 16"
    using binary64.between by blast+
  then have "\<lfloor>fl64 ?x\<rfloor> = int ?k" by (intro floor_unique) simp_all
  then show ?thesis by (simp add: tenth_def)
qed

subsection \<open>Every aggregation method is a summary\<close>

lemma aggregate_values_cases:
  assumes "xs \<noteq> []"
  shows "aggregate_values xs meth \<in> {mean xs, trimmed_mean xs, interquartile_mean xs, median xs}"
  using assms by (simp add: aggregate_values_def)

lemma aggregate_values_perm: "mset xs = mset ys \<Longrightarrow> aggregate_values xs meth = aggregate_values ys meth"
proof -
  assume m: "mset xs = mset ys"
  then have "xs = [] \<longleftrightarrow> ys = []" by auto
  with mean_summary.perm[OF m] trimmed_summary.perm[OF m] interquartile_summary.perm[OF m] median_summary.perm[OF m]
  show ?thesis by (simp add: aggregate_values_def)
qed

interpretation method_summary: summary "\<lambda>xs. aggregate_values xs meth" for meth
proof
  fix xs ys :: "rat list"
  assume ne: "xs \<noteq> []" and d: "doubles xs"
  note b = mean_summary.lower_bound mean_summary.upper_bound trimmed_summary.lower_bound trimmed_summary.upper_bound
    interquartile_summary.lower_bound interquartile_summary.upper_bound median_summary.lower_bound median_summary.upper_bound
  show "Min (set xs) \<le> aggregate_values xs meth" "aggregate_values xs meth \<le> Max (set xs)"
    using aggregate_values_cases[OF ne, of meth] b[OF ne d] by auto
qed (rule aggregate_values_perm)

subsection \<open>Scores are doubles\<close>

lemma fl64_one: "fl64 1 = 1"
  using fl64_int[of 1] by simp

lemma py_float_double: "py_float v = Some x \<Longrightarrow> fl64 x = x"
  by (cases v) (auto simp: binary64.idem binary64.zero fl64_one split: if_splits)

lemma extract_score_double:
  assumes "extract_cv_signal out = Inr (Some g)" and "sg_score g = Some x"
  shows "fl64 x = x"
  using assms by (auto simp: extract_cv_signal_def Let_def binary64.idem dest!: py_float_double split: if_splits)

subsection \<open>The runs as a multiset\<close>

definition cv_scores :: "cv_signal option list \<Rightarrow> rat list" where
  "cv_scores sigs = List.map_filter sg_score (List.map_filter (\<lambda>s. s) sigs)"

lemma mset_map_filter: "mset xs = mset ys \<Longrightarrow> mset (List.map_filter f xs) = mset (List.map_filter f ys)"
  by (simp add: List.map_filter_def)

lemma set_map_filter: "set (List.map_filter f xs) = {y. \<exists>x \<in> set xs. f x = Some y}"
  by (force simp: List.map_filter_def)

lemma map_res_image:
  assumes "map_res f xs = Inr ys"
  shows "ys = map (\<lambda>x. projr (f x)) xs" and "\<And>x. x \<in> set xs \<Longrightarrow> f x = Inr (projr (f x))"
proof -
  show eq: "f x = Inr (projr (f x))" if "x \<in> set xs" for x
    using map_res_Inr_set[OF assms that] by auto
  have "map_res f xs = Inr (map (\<lambda>x. projr (f x)) xs)" by (rule map_res_all) (rule eq)
  with assms show "ys = map (\<lambda>x. projr (f x)) xs" by simp
qed

lemma map_res_perm:
  assumes "map_res f xs = Inr ys" and "mset xs' = mset xs"
  shows "\<exists>ys'. map_res f xs' = Inr ys' \<and> mset ys' = mset ys"
proof -
  have "set xs' = set xs" using assms(2) by (rule mset_eq_setD)
  then have "map_res f xs' = Inr (map (\<lambda>x. projr (f x)) xs')"
    using map_res_image(2)[OF assms(1)] by (intro map_res_all) simp
  then show ?thesis using map_res_image(1)[OF assms(1)] assms(2) by simp
qed

lemma aggregate_cv_cases:
  assumes "aggregate_cv_scoring si outs src = Inr (Some ca)"
  obtains sigs parsed where "map_res extract_cv_signal outs = Inr sigs" "parsed = List.map_filter (\<lambda>s. s) sigs"
    "parsed \<noteq> []" "outs \<noteq> []"
    "ca_finalScore ca = (if cv_scores sigs = [] then None else Some (median (cv_scores sigs)))"
    "ca_variance ca = (if length (cv_scores sigs) > 1 then pvariance (cv_scores sigs) else 0)"
    "ca_finalDecision ca = most_common si (map sg_decision parsed)"
    "ca_mustHaveResult ca = list_all sg_met parsed" "ca_runsCount ca = length parsed"
  using assms by (auto simp: aggregate_cv_scoring_def cv_scores_def Let_def split: if_splits)

lemma cv_scores_from:
  assumes "map_res extract_cv_signal outs = Inr sigs" and "x \<in> set (cv_scores sigs)"
  shows "\<exists>out g. out \<in> set outs \<and> extract_cv_signal out = Inr (Some g) \<and> sg_score g = Some x"
proof -
  from assms(2) obtain g where g: "Some g \<in> set sigs" "sg_score g = Some x"
    by (auto simp: cv_scores_def set_map_filter)
  from g(1) have "Some g \<in> set (map (\<lambda>x. projr (extract_cv_signal x)) outs)"
    by (simp only: map_res_image(1)[OF assms(1)])
  then obtain out where out: "out \<in> set outs" "Some g = projr (extract_cv_signal out)" by auto
  have "extract_cv_signal out = Inr (Some g)"
    using map_res_image(2)[OF assms(1) out(1)] by (simp only: out(2)[symmetric])
  with out(1) g(2) show ?thesis by blast
qed

lemma cv_scores_doubles: "map_res extract_cv_signal outs = Inr sigs \<Longrightarrow> doubles (cv_scores sigs)"
  unfolding doubles_def by (meson cv_scores_from extract_score_double)

subsection \<open>The variance\<close>

lemma double_product_le: "2 * (x :: rat) * sum_list xs \<le> of_nat (length xs) * (x * x) + sum_list (map (\<lambda>y. y * y) xs)"
proof (induction xs)
  case Nil
  then show ?case by simp
next
  case (Cons y xs)
  have "0 \<le> (x - y) * (x - y)" by simp
  then have "2 * x * y \<le> x * x + y * y" by (simp add: algebra_simps)
  with Cons show ?case by (simp add: algebra_simps)
qed

lemma square_of_sum_le: "sum_list xs * sum_list xs \<le> of_nat (length xs) * sum_list (map (\<lambda>x. x * (x::rat)) xs)"
proof (induction xs)
  case Nil
  then show ?case by simp
next
  case (Cons x xs)
  with double_product_le[of x xs] show ?case by (simp add: algebra_simps)
qed

lemma pvariance_nonneg: "0 \<le> pvariance xs"
  unfolding pvariance_def Let_def
  by (rule binary64.nonneg) (simp add: square_of_sum_le divide_nonneg_nonneg)

lemma sum_list_const: "set xs \<subseteq> {c} \<Longrightarrow> sum_list (map f xs) = of_nat (length xs) * (f c :: rat)"
  by (induction xs) (auto simp: algebra_simps)

lemma pvariance_const: "set xs \<subseteq> {c} \<Longrightarrow> pvariance xs = 0"
proof -
  assume "set xs \<subseteq> {c}"
  then have "sum_list xs = of_nat (length xs) * c" "sum_list (map (\<lambda>x. x * x) xs) = of_nat (length xs) * (c * c)"
    using sum_list_const[of xs c "\<lambda>x. x"] sum_list_const[of xs c "\<lambda>x. x * x"] by simp_all
  then show ?thesis by (simp add: pvariance_def Let_def binary64.zero)
qed

lemma pvariance_perm: "mset xs = mset ys \<Longrightarrow> pvariance xs = pvariance ys"
proof -
  assume m: "mset xs = mset ys"
  then have "mset (map (\<lambda>x. x * x) xs) = mset (map (\<lambda>x. x * x) ys)" by simp
  then have "sum_list (map (\<lambda>x. x * x) xs) = sum_list (map (\<lambda>x. x * x) ys)" by (rule sum_list_perm)
  with sum_list_perm[OF m] mset_eq_length[OF m] show ?thesis by (simp add: pvariance_def)
qed

subsection \<open>The most common decision\<close>

definition enumerates :: "(string list \<Rightarrow> string list) \<Rightarrow> bool" where
  "enumerates si \<longleftrightarrow> (\<forall>xs. distinct (si xs) \<and> set (si xs) = set xs)"

lemma max_by_mem: "max_by f b xs \<in> insert b (set xs)"
  by (induction xs arbitrary: b) (auto split: if_splits)

lemma max_by_base: "f b \<le> f (max_by f b xs)"
proof (induction xs arbitrary: b)
  case Nil
  then show ?case by simp
next
  case (Cons y xs)
  have "f b \<le> f (if f y > f b then y else b)" by simp
  also have "\<dots> \<le> f (max_by f (if f y > f b then y else b) xs)" by (rule Cons.IH)
  finally show ?case by simp
qed

lemma max_by_ge: "x \<in> insert b (set xs) \<Longrightarrow> f x \<le> f (max_by f b xs)"
proof (induction xs arbitrary: b)
  case Nil
  then show ?case by simp
next
  case (Cons y xs)
  let ?m = "if f y > f b then y else b"
  consider "x \<in> set xs" | "x = b \<or> x = y" using Cons.prems by auto
  then have "f x \<le> f (max_by f ?m xs)"
  proof cases
    case 1
    then show ?thesis by (intro Cons.IH) simp
  next
    case 2
    then have "f x \<le> f ?m" by auto
    then show ?thesis using max_by_base[of f ?m xs] by (rule order_trans)
  qed
  then show ?case by simp
qed

lemma max_by_first: "\<forall>x \<in> set xs. f x \<le> f b \<Longrightarrow> max_by f b xs = b"
  by (induction xs) auto

lemma most_common_majority:
  assumes "enumerates si" and "d \<in> set ds" and "\<And>e. e \<noteq> d \<Longrightarrow> count_list ds e < count_list ds d"
  shows "most_common si ds = Some d"
proof -
  have s: "set (si ds) = set ds" using assms(1) by (simp add: enumerates_def)
  with assms(2) obtain x xs where x: "si ds = x # xs" by (cases "si ds") auto
  have "count_list ds d \<le> count_list ds (max_by (count_list ds) x xs)"
    using s x assms(2) by (intro max_by_ge) auto
  with assms(3) have "max_by (count_list ds) x xs = d" by (metis leD)
  with assms(2) x show ?thesis by (auto simp: most_common_def)
qed

subsection \<open>The values collected at one path\<close>

definition double_values :: "(string \<times> rat) list \<Rightarrow> bool" where
  "double_values acc \<longleftrightarrow> (\<forall>e \<in> set acc. fl64 (snd e) = snd e)"

lemma double_values_update: "double_values acc \<Longrightarrow> fl64 x = x \<Longrightarrow> double_values (AList.update p x acc)"
  by (induction acc) (auto simp: double_values_def)

lemma visit_doubles:
  "double_values acc \<Longrightarrow> double_values (visit v path acc)"
  "double_values acc \<Longrightarrow> double_values (visit_items d path acc)"
  "double_values acc \<Longrightarrow> double_values (visit_elems xs i path acc)"
  by (induction v path acc and d path acc and xs i path acc rule: visit_visit_items_visit_elems.induct)
     (simp_all add: double_values_update binary64.idem)

lemma visit_distinct:
  "distinct (map fst acc) \<Longrightarrow> distinct (map fst (visit v path acc))"
  "distinct (map fst acc) \<Longrightarrow> distinct (map fst (visit_items d path acc))"
  "distinct (map fst acc) \<Longrightarrow> distinct (map fst (visit_elems xs i path acc))"
  by (induction v path acc and d path acc and xs i path acc rule: visit_visit_items_visit_elems.induct)
     (simp_all add: distinct_update)

lemma extract_numeric_distinct: "distinct (map fst (extract_numeric_paths out))"
  unfolding extract_numeric_paths_def by (rule visit_distinct) simp

lemma extract_numeric_double: "map_of (extract_numeric_paths out) p = Some x \<Longrightarrow> fl64 x = x"
proof -
  assume "map_of (extract_numeric_paths out) p = Some x"
  then have "(p, x) \<in> set (extract_numeric_paths out)" by (rule map_of_SomeD)
  moreover have "double_values (extract_numeric_paths out)"
    unfolding extract_numeric_paths_def by (rule visit_doubles) (simp add: double_values_def)
  ultimately show ?thesis by (auto simp: double_values_def)
qed

definition values_at :: "(string \<times> rat list) list \<Rightarrow> string \<Rightarrow> rat list" where
  "values_at acc p = (case map_of acc p of None \<Rightarrow> [] | Some xs \<Rightarrow> xs)"

lemma append_at_get: "map_of (append_at q x acc) p = (if p = q then Some (values_at acc p @ [x]) else map_of acc p)"
  by (simp add: append_at_def values_at_def update_conv')

lemma fold_append_at:
  assumes "distinct (map fst es)"
  shows "map_of (fold (\<lambda>(p, x). append_at p x) es acc) p =
    (case map_of es p of None \<Rightarrow> map_of acc p | Some x \<Rightarrow> Some (values_at acc p @ [x]))"
  using assms
proof (induction es arbitrary: acc)
  case Nil
  then show ?case by simp
next
  case (Cons e es)
  obtain q x where e: "e = (q, x)" by (cases e)
  have "map_of es q = None" using Cons.prems e by (simp add: map_of_eq_None_iff)
  with Cons e show ?case by (auto simp: append_at_get values_at_def split: option.splits)
qed

text \<open>One path collects exactly the values the outputs have there, in the order of the outputs.\<close>

lemma numeric_by_path_at:
  "map_of (numeric_by_path outs) p =
     (let xs = List.map_filter (\<lambda>out. map_of (extract_numeric_paths out) p) outs
      in if xs = [] then None else Some xs)"
proof -
  have step: "map_of (fold (\<lambda>out acc. fold (\<lambda>(p, x). append_at p x) (extract_numeric_paths out) acc) outs acc) p =
     (let xs = List.map_filter (\<lambda>out. map_of (extract_numeric_paths out) p) outs
      in if xs = [] then map_of acc p else Some (values_at acc p @ xs))" for acc
  proof (induction outs arbitrary: acc)
    case Nil
    then show ?case by simp
  next
    case (Cons out outs)
    then show ?case
      by (auto simp: fold_append_at[OF extract_numeric_distinct] values_at_def Let_def split: option.splits)
  qed
  show ?thesis unfolding numeric_by_path_def step by (simp add: values_at_def Let_def)
qed

lemma field_aggregation_at:
  assumes "aggregate_generic outs meth src = Some g"
  shows "map_of (ga_fieldAggregations g) p =
     (let xs = List.map_filter (\<lambda>out. map_of (extract_numeric_paths out) p) outs
      in if xs = [] then None else Some (aggregate_values xs meth))"
proof -
  have "ga_fieldAggregations g = map (\<lambda>(p, xs). (p, aggregate_values xs meth)) (numeric_by_path outs)"
    using assms by (auto simp: aggregate_generic_def split: if_splits)
  then show ?thesis by (simp add: map_of_map[unfolded comp_def] numeric_by_path_at Let_def)
qed

end
