(* ===== verification/AggregationProperties.thy ===== *)
theory AggregationProperties
  imports AggregationLaws
begin

text \<open>The properties of the aggregation library, with two small outputs to apply them to.\<close>

definition demo_output :: "int \<Rightarrow> string \<Rightarrow> dict" where
  "demo_output n d = [(''overall_score'', JInt n), (''decision'', JStr d)]"

lemma demo_signal:
  "extract_cv_signal (demo_output 80 ''approve'') = Inr (Some \<lparr>sg_score = Some 80, sg_met = True, sg_decision = ''Approve''\<rparr>)"
  "extract_cv_signal (demo_output 60 ''reject'') = Inr (Some \<lparr>sg_score = Some 60, sg_met = False, sg_decision = ''Reject''\<rparr>)"
  by code_simp+

text \<open>C11: under the CV profile the final score lies between any bounds of the scores the single
  outputs give, rounding included: averaging the two middle scores never leaves their
  interval.\<close>

theorem cv_final_score_bounds:
  assumes "aggregate_cv_scoring si outs src = Inr (Some ca)" and "ca_finalScore ca = Some s"
    and "\<forall>out \<in> set outs. \<forall>g x. extract_cv_signal out = Inr (Some g) \<and> sg_score g = Some x \<longrightarrow> lo \<le> x \<and> x \<le> hi"
  shows "lo \<le> s \<and> s \<le> hi"
proof -
  from assms(1) obtain sigs parsed where sigs: "map_res extract_cv_signal outs = Inr sigs"
    and "parsed = List.map_filter (\<lambda>s. s) sigs" "parsed \<noteq> []" "outs \<noteq> []"
    and fs: "ca_finalScore ca = (if cv_scores sigs = [] then None else Some (median (cv_scores sigs)))"
    by (rule aggregate_cv_cases)
  then have s: "s = median (cv_scores sigs)" "cv_scores sigs \<noteq> []" using assms(2) by (simp_all split: if_splits)
  have b: "lo \<le> x \<and> x \<le> hi" if "x \<in> set (cv_scores sigs)" for x
    using cv_scores_from[OF sigs that] assms(3) by blast
  show ?thesis unfolding s(1) using median_summary.within[OF s(2) cv_scores_doubles[OF sigs] b] by blast
qed

theorem cv_final_score_bounds_witness:
  "\<exists>ca s. aggregate_cv_scoring remdups [demo_output 80 ''approve'', demo_output 60 ''reject''] [] = Inr (Some ca) \<and>
     ca_finalScore ca = Some s \<and> 60 \<le> s \<and> s \<le> 80"
proof -
  let ?outs = "[demo_output 80 ''approve'', demo_output 60 ''reject'']"
  have "case aggregate_cv_scoring remdups ?outs [] of Inr (Some ca) \<Rightarrow> ca_finalScore ca = Some 70 | _ \<Rightarrow> False"
    by code_simp
  then obtain ca where ca: "aggregate_cv_scoring remdups ?outs [] = Inr (Some ca)" "ca_finalScore ca = Some 70"
    by (auto split: sum.splits option.splits)
  with cv_final_score_bounds[OF ca, of 60 80] show ?thesis by (auto simp: demo_signal)
qed

text \<open>C12: the aggregate does not depend on the order in which the runs report: a permutation of
  the outputs that aggregates at all gives the same final score, variance, must-have verdict
  and run count.\<close>

theorem cv_order_independent:
  assumes "aggregate_cv_scoring si outs src = Inr (Some ca)" and "mset outs' = mset outs"
  shows "\<exists>ca'. aggregate_cv_scoring si' outs' src = Inr (Some ca') \<and>
    ca_finalScore ca' = ca_finalScore ca \<and> ca_variance ca' = ca_variance ca \<and>
    ca_mustHaveResult ca' = ca_mustHaveResult ca \<and> ca_runsCount ca' = ca_runsCount ca"
proof -
  from assms(1) obtain sigs parsed where sigs: "map_res extract_cv_signal outs = Inr sigs"
    and parsed: "parsed = List.map_filter (\<lambda>s. s) sigs" "parsed \<noteq> []" and ne: "outs \<noteq> []"
    and ca: "ca_finalScore ca = (if cv_scores sigs = [] then None else Some (median (cv_scores sigs)))"
      "ca_variance ca = (if length (cv_scores sigs) > 1 then pvariance (cv_scores sigs) else 0)"
      "ca_finalDecision ca = most_common si (map sg_decision parsed)"
      "ca_mustHaveResult ca = list_all sg_met parsed" "ca_runsCount ca = length parsed"
    by (rule aggregate_cv_cases)
  obtain sigs' where sigs': "map_res extract_cv_signal outs' = Inr sigs'" and m: "mset sigs' = mset sigs"
    using map_res_perm[OF sigs assms(2)] by blast
  let ?parsed' = "List.map_filter (\<lambda>s. s) sigs'"
  have mp: "mset ?parsed' = mset parsed" unfolding parsed(1) using m by (rule mset_map_filter)
  have ms: "mset (cv_scores sigs') = mset (cv_scores sigs)"
    unfolding cv_scores_def using m by (intro mset_map_filter)
  have "outs' \<noteq> []" "?parsed' \<noteq> []" using ne parsed(2) assms(2) mp by auto
  then obtain ca' where ca': "aggregate_cv_scoring si' outs' src = Inr (Some ca')"
    by (simp add: aggregate_cv_scoring_def sigs' Let_def)
  then obtain sigs2 parsed2 where two: "map_res extract_cv_signal outs' = Inr sigs2" "parsed2 = List.map_filter (\<lambda>s. s) sigs2"
    "parsed2 \<noteq> []" "outs' \<noteq> []"
    "ca_finalScore ca' = (if cv_scores sigs2 = [] then None else Some (median (cv_scores sigs2)))"
    "ca_variance ca' = (if length (cv_scores sigs2) > 1 then pvariance (cv_scores sigs2) else 0)"
    "ca_finalDecision ca' = most_common si' (map sg_decision parsed2)"
    "ca_mustHaveResult ca' = list_all sg_met parsed2" "ca_runsCount ca' = length parsed2"
    by (rule aggregate_cv_cases)
  have same: "sigs2 = sigs'" using two(1) sigs' by simp
  have "list_all sg_met ?parsed' = list_all sg_met parsed"
    using mset_eq_setD[OF mp] by (simp only: list_all_iff)
  moreover have "cv_scores sigs' = [] \<longleftrightarrow> cv_scores sigs = []" using mset_eq_length[OF ms] by auto
  ultimately show ?thesis
    using ca' ca two median_summary.perm[OF ms] pvariance_perm[OF ms] mset_eq_length[OF ms] mset_eq_length[OF mp]
    by (intro exI[of _ ca']) (simp add: same)
qed

theorem cv_order_independent_witness:
  "\<exists>ca ca'. aggregate_cv_scoring remdups [demo_output 80 ''approve'', demo_output 60 ''reject''] [] = Inr (Some ca) \<and>
     aggregate_cv_scoring remdups [demo_output 60 ''reject'', demo_output 80 ''approve''] [] = Inr (Some ca') \<and>
     ca_finalScore ca' = ca_finalScore ca"
proof -
  let ?outs = "[demo_output 80 ''approve'', demo_output 60 ''reject'']"
  have "case aggregate_cv_scoring remdups ?outs [] of Inr (Some ca) \<Rightarrow> True | _ \<Rightarrow> False"
    by code_simp
  then obtain ca where ca: "aggregate_cv_scoring remdups ?outs [] = Inr (Some ca)"
    by (auto split: sum.splits option.splits)
  with cv_order_independent[OF ca, of "[demo_output 60 ''reject'', demo_output 80 ''approve'']" remdups]
  show ?thesis by auto
qed

text \<open>The variance is never negative, and it is zero when the runs agree on the score.\<close>

lemma cv_variance_sound:
  assumes "aggregate_cv_scoring si outs src = Inr (Some ca)"
  shows "0 \<le> ca_variance ca \<and>
    ((\<forall>out \<in> set outs. \<forall>g x. extract_cv_signal out = Inr (Some g) \<and> sg_score g = Some x \<longrightarrow> x = c) \<longrightarrow>
       ca_variance ca = 0)"
proof -
  from assms obtain sigs parsed where sigs: "map_res extract_cv_signal outs = Inr sigs"
    and "parsed = List.map_filter (\<lambda>s. s) sigs" "parsed \<noteq> []" "outs \<noteq> []"
    "ca_finalScore ca = (if cv_scores sigs = [] then None else Some (median (cv_scores sigs)))"
    and v: "ca_variance ca = (if length (cv_scores sigs) > 1 then pvariance (cv_scores sigs) else 0)"
    by (rule aggregate_cv_cases)
  have "set (cv_scores sigs) \<subseteq> {c}"
    if "\<forall>out \<in> set outs. \<forall>g x. extract_cv_signal out = Inr (Some g) \<and> sg_score g = Some x \<longrightarrow> x = c"
    using that cv_scores_from[OF sigs] by blast
  with v pvariance_nonneg pvariance_const show ?thesis by auto
qed

text \<open>C13: a decision that strictly more runs give than any other is the final decision, in
  whatever order the set of decisions is iterated and the runs report.\<close>

theorem cv_majority_decides:
  assumes "aggregate_cv_scoring si outs src = Inr (Some ca)" and "enumerates si"
    and "map_res extract_cv_signal outs = Inr sigs" and "ds = map sg_decision (List.map_filter (\<lambda>s. s) sigs)"
    and "d \<in> set ds" and "\<And>e. e \<noteq> d \<Longrightarrow> count_list ds e < count_list ds d"
  shows "ca_finalDecision ca = Some d"
proof -
  from assms(1) have "ca_finalDecision ca = most_common si ds"
    by (rule aggregate_cv_cases) (use assms(3,4) in simp)
  also have "\<dots> = Some d" by (rule most_common_majority[OF assms(2,5,6)])
  finally show ?thesis .
qed

theorem cv_majority_decides_witness:
  "\<exists>ca. aggregate_cv_scoring remdups
      [demo_output 60 ''reject'', demo_output 80 ''approve'', demo_output 80 ''approve''] [] = Inr (Some ca) \<and>
     ca_finalDecision ca = Some ''Approve''"
proof -
  let ?outs = "[demo_output 60 ''reject'', demo_output 80 ''approve'', demo_output 80 ''approve'']"
  let ?sigs = "[Some \<lparr>sg_score = Some 60, sg_met = False, sg_decision = ''Reject''\<rparr>,
    Some \<lparr>sg_score = Some 80, sg_met = True, sg_decision = ''Approve''\<rparr>,
    Some \<lparr>sg_score = Some 80, sg_met = True, sg_decision = ''Approve''\<rparr>]"
  have sigs: "map_res extract_cv_signal ?outs = Inr ?sigs" by (simp add: demo_signal)
  have "case aggregate_cv_scoring remdups ?outs [] of Inr (Some ca) \<Rightarrow> True | _ \<Rightarrow> False"
    by code_simp
  then obtain ca where ca: "aggregate_cv_scoring remdups ?outs [] = Inr (Some ca)"
    by (auto split: sum.splits option.splits)
  have en: "enumerates remdups" by (simp add: enumerates_def)
  have "ca_finalDecision ca = Some ''Approve''"
    by (rule cv_majority_decides[OF ca en sigs refl]) simp_all
  with ca show ?thesis by blast
qed

text \<open>On a tie the final decision is decided by the iteration order of a set of strings,
  which differs between interpreter processes: either of two equally frequent decisions is the
  final one for some order.\<close>

lemma cv_tie_follows_set_order:
  assumes "map_res extract_cv_signal outs = Inr sigs"
    and "ds = map sg_decision (List.map_filter (\<lambda>s. s) sigs)"
    and "d \<in> set ds" and "\<And>e. count_list ds e \<le> count_list ds d"
  shows "\<exists>si ca. enumerates si \<and> aggregate_cv_scoring si outs src = Inr (Some ca) \<and> ca_finalDecision ca = Some d"
proof -
  let ?si = "\<lambda>xs. if d \<in> set xs then d # remdups (removeAll d xs) else remdups xs"
  have en: "enumerates ?si" by (auto simp: enumerates_def)
  have "List.map_filter (\<lambda>s. s) sigs \<noteq> []" using assms(2,3) by auto
  moreover from this have "outs \<noteq> []" using assms(1) by auto
  ultimately obtain ca where ca: "aggregate_cv_scoring ?si outs src = Inr (Some ca)"
    by (simp add: aggregate_cv_scoring_def assms(1) Let_def)
  have "ca_finalDecision ca = most_common ?si ds"
    by (rule aggregate_cv_cases[OF ca]) (use assms(1,2) in simp)
  also have "\<dots> = Some d"
    using assms(3,4) by (auto simp: most_common_def max_by_first)
  finally show ?thesis using en ca by blast
qed

lemma cv_tie_example:
  "(\<exists>si ca. enumerates si \<and> aggregate_cv_scoring si [demo_output 80 ''approve'', demo_output 60 ''reject''] [] = Inr (Some ca) \<and>
     ca_finalDecision ca = Some ''Approve'') \<and>
   (\<exists>si ca. enumerates si \<and> aggregate_cv_scoring si [demo_output 80 ''approve'', demo_output 60 ''reject''] [] = Inr (Some ca) \<and>
     ca_finalDecision ca = Some ''Reject'')"
proof -
  let ?outs = "[demo_output 80 ''approve'', demo_output 60 ''reject'']"
  let ?sigs = "[Some \<lparr>sg_score = Some 80, sg_met = True, sg_decision = ''Approve''\<rparr>,
    Some \<lparr>sg_score = Some 60, sg_met = False, sg_decision = ''Reject''\<rparr>]"
  have sigs: "map_res extract_cv_signal ?outs = Inr ?sigs" by (simp add: demo_signal)
  have "\<exists>si ca. enumerates si \<and> aggregate_cv_scoring si ?outs [] = Inr (Some ca) \<and> ca_finalDecision ca = Some ''Approve''"
    by (rule cv_tie_follows_set_order[OF sigs refl]) auto
  moreover have "\<exists>si ca. enumerates si \<and> aggregate_cv_scoring si ?outs [] = Inr (Some ca) \<and> ca_finalDecision ca = Some ''Reject''"
    by (rule cv_tie_follows_set_order[OF sigs refl]) auto
  ultimately show ?thesis by blast
qed

text \<open>One output the extraction cannot read is enough to make the whole aggregation raise:
  it raises exactly when some output's must-have list does, and then it is with the exception
  of one of them.\<close>

lemma cv_one_malformed_output_raises:
  "((\<exists>e. aggregate_cv_scoring si outs src = Inl e) \<longleftrightarrow> (\<exists>out \<in> set outs. \<exists>e. extract_cv_signal out = Inl e)) \<and>
   (\<forall>e. aggregate_cv_scoring si outs src = Inl e \<longrightarrow> (\<exists>out \<in> set outs. extract_cv_signal out = Inl e))"
proof -
  have "(\<exists>e. map_res extract_cv_signal outs = Inl e) \<longleftrightarrow> (\<exists>out \<in> set outs. \<exists>e. extract_cv_signal out = Inl e)"
    by (induction outs) (auto split: sum.splits)
  moreover have "map_res extract_cv_signal outs = Inl e \<Longrightarrow> \<exists>out \<in> set outs. extract_cv_signal out = Inl e" for e
    by (induction outs) (auto split: sum.splits)
  moreover have "aggregate_cv_scoring si outs src = Inl e \<longleftrightarrow> map_res extract_cv_signal outs = Inl e" for e
    by (auto simp: aggregate_cv_scoring_def bind_res_Inl_iff Let_def split: if_splits)
  ultimately show ?thesis by blast
qed

text \<open>C14: under the generic profile every path is aggregated over exactly the outputs that have
  a number there: a path no output has a number at is not reported, and at every other one the
  field is the summary of the numbers of all the outputs that have one, one per output, equal
  ones and those of few outputs included. Whatever the method, it lies within any bounds of those
  numbers and does not depend on the order of the outputs.\<close>

theorem generic_field_sound:
  assumes "aggregate_generic outs meth src = Some g"
    and "vals = List.map_filter (\<lambda>out. map_of (extract_numeric_paths out) p) outs"
  shows "map_of (ga_fieldAggregations g) p = (if vals = [] then None else Some (aggregate_values vals meth)) \<and>
    ga_runCount g = length outs \<and>
    (\<forall>v. map_of (ga_fieldAggregations g) p = Some v \<and> (\<forall>x \<in> set vals. lo \<le> x \<and> x \<le> hi) \<longrightarrow> lo \<le> v \<and> v \<le> hi) \<and>
    (\<forall>outs' g'. mset outs' = mset outs \<and> aggregate_generic outs' meth src = Some g' \<longrightarrow>
       map_of (ga_fieldAggregations g') p = map_of (ga_fieldAggregations g) p)"
proof (intro conjI allI impI)
  let ?vals = "\<lambda>outs. List.map_filter (\<lambda>out. map_of (extract_numeric_paths out) p) outs"
  have at: "map_of (ga_fieldAggregations g) p = (if vals = [] then None else Some (aggregate_values vals meth))"
    by (simp add: field_aggregation_at[OF assms(1)] assms(2) Let_def)
  then show "map_of (ga_fieldAggregations g) p = (if vals = [] then None else Some (aggregate_values vals meth))" .
  show "ga_runCount g = length outs" using assms(1) by (auto simp: aggregate_generic_def split: if_splits)
  have d: "doubles vals"
    unfolding doubles_def assms(2) by (auto simp: set_map_filter dest: extract_numeric_double)
  fix v
  assume v: "map_of (ga_fieldAggregations g) p = Some v \<and> (\<forall>x \<in> set vals. lo \<le> x \<and> x \<le> hi)"
  with at have "vals \<noteq> []" "v = aggregate_values vals meth" by (simp_all split: if_splits)
  with method_summary.within[OF _ d, of lo hi meth] v show "lo \<le> v" "v \<le> hi" by simp_all
next
  let ?vals = "\<lambda>outs. List.map_filter (\<lambda>out. map_of (extract_numeric_paths out) p) outs"
  fix outs' g'
  assume g': "mset outs' = mset outs \<and> aggregate_generic outs' meth src = Some g'"
  then have m: "mset (?vals outs') = mset (?vals outs)" by (intro mset_map_filter) simp
  have "?vals outs' = [] \<longleftrightarrow> ?vals outs = []" using mset_eq_length[OF m] by (metis length_0_conv)
  with method_summary.perm[OF m, of meth] g'
  show "map_of (ga_fieldAggregations g') p = map_of (ga_fieldAggregations g) p"
    by (simp add: field_aggregation_at[OF assms(1)] field_aggregation_at[of outs' meth src g'] Let_def)
qed

definition demo_nested :: "int \<Rightarrow> dict" where
  "demo_nested n = [(''scores'', JList [JObj [(''value'', JInt n)], JBool True])]"

theorem generic_field_sound_witness:
  "\<exists>g. aggregate_generic [demo_nested 1, [], demo_nested 4, demo_nested 4] ''mean'' [] = Some g \<and>
     map_of (ga_fieldAggregations g) ''scores[0].value'' = Some 3 \<and> map_of (ga_fieldAggregations g) ''scores[1]'' = None"
proof -
  let ?outs = "[demo_nested 1, [], demo_nested 4, demo_nested 4]"
  obtain g where g: "aggregate_generic ?outs ''mean'' [] = Some g" by (simp add: aggregate_generic_def)
  have "map_of (extract_numeric_paths (demo_nested 1)) ''scores[0].value'' = Some 1"
    "map_of (extract_numeric_paths (demo_nested 4)) ''scores[0].value'' = Some 4"
    "map_of (extract_numeric_paths []) ''scores[0].value'' = None"
    "map_of (extract_numeric_paths (demo_nested 1)) ''scores[1]'' = None"
    "map_of (extract_numeric_paths (demo_nested 4)) ''scores[1]'' = None"
    "map_of (extract_numeric_paths []) ''scores[1]'' = None" by code_simp+
  then have e: "List.map_filter (\<lambda>out. map_of (extract_numeric_paths out) ''scores[0].value'') ?outs = [1, 4, 4]"
    "List.map_filter (\<lambda>out. map_of (extract_numeric_paths out) ''scores[1]'') ?outs = []"
    by (simp_all add: map_filter_simps)
  have "fl64 3 = 3" by code_simp
  then have m: "aggregate_values [1, 4, 4] ''mean'' = 3" by (simp add: aggregate_values_def mean_def)
  from conjunct1[OF generic_field_sound[OF g refl, where p = "''scores[0].value''"]]
    conjunct1[OF generic_field_sound[OF g refl, where p = "''scores[1]''"]] g
  show ?thesis unfolding e m by simp
qed

text \<open>The trimmed mean drops a tenth of the runs, at least one, at each end: the floating
  point product \<^verbatim>\<open>len * 0.1\<close> is floored to the exact tenth, and the slice is never
  empty, so the fallback to the untrimmed values is never taken.\<close>

lemma trimmed_mean_drops_tenth:
  assumes "2 < length xs" and "length xs < 2 ^ 40"
  shows "trimmed_mean xs = mean (slice (max 1 (length xs div 10)) (length xs - max 1 (length xs div 10)) (sort xs)) \<and>
    length (slice (max 1 (length xs div 10)) (length xs - max 1 (length xs div 10)) (sort xs)) =
      length xs - 2 * max 1 (length xs div 10) \<and>
    0 < length xs - 2 * max 1 (length xs div 10)"
proof -
  let ?k = "max 1 (length xs div 10)"
  have tc: "trim_count (length xs) = ?k" using assms by (simp add: trim_count_def tenth_exact)
  have pos: "0 < length xs - 2 * ?k" using assms(1) by linarith
  have len: "length (slice ?k (length xs - ?k) (sort xs)) = length xs - 2 * ?k"
    by (subst length_slice) simp_all
  with pos have ne: "slice ?k (length xs - ?k) (sort xs) \<noteq> []" by (metis length_0_conv less_irrefl)
  have k: "?k \<noteq> 0" by simp
  have "trimmed_mean xs = mean (slice ?k (length xs - ?k) (sort xs))"
    unfolding trimmed_mean_def Let_def length_sort tc if_P[OF k] if_P[OF ne] ..
  with len pos show ?thesis by blast
qed

text \<open>A profile name is accepted exactly when it is one of the two known names up to case
  and surrounding blanks, or absent; the accepted name is canonical, and normalising it again
  changes nothing.\<close>

lemma normalize_profile_canonical:
  "(normalize_profile p = Inr n \<longrightarrow>
      n \<in> {profile_generic, profile_cv} \<and> normalize_profile (Some n) = Inr n) \<and>
   (\<forall>s. s \<noteq> [] \<longrightarrow> ((\<exists>e. normalize_profile (Some s) = Inl (ValueError e)) \<longleftrightarrow>
      lower (strip s) \<notin> {profile_generic, profile_cv})) \<and>
   normalize_profile None = Inr profile_generic"
proof -
  have g: "normalize_profile (Some profile_generic) = Inr profile_generic"
    "normalize_profile (Some profile_cv) = Inr profile_cv" "normalize_profile None = Inr profile_generic"
    by code_simp+
  have "normalize_profile p = Inr n \<Longrightarrow> n \<in> {profile_generic, profile_cv}"
    by (auto simp: normalize_profile_def Let_def split: if_splits)
  moreover have "s \<noteq> [] \<Longrightarrow> (\<exists>e. normalize_profile (Some s) = Inl (ValueError e)) \<longleftrightarrow>
      lower (strip s) \<notin> {profile_generic, profile_cv}" for s
    by (simp add: normalize_profile_def str_or_def Let_def)
  ultimately show ?thesis using g by auto
qed

end
