(* ===== verification/Contracts.thy ===== *)
theory Contracts
  imports PyValue
begin

text \<open>
  The wire contracts: \<^verbatim>\<open>normalize_completion_payload\<close> of
  \<^verbatim>\<open>orchestrator/engine_contracts.py\<close> and the message models of
  \<^verbatim>\<open>orchestrator/sb_contracts.py\<close>. A model class is a record;
  \<^verbatim>\<open>model_validate\<close> of its declared fields is a function from the dict
  (strict mode: a string field takes a str, an int field an int that is not a bool, unknown
  keys are ignored) and \<^verbatim>\<open>model_dump\<close> is the dict of all fields in order.
\<close>

subsection \<open>Completion payloads\<close>

text \<open>The payload is bytes, a string or a parsed value; \<open>decode\<close> is strict UTF-8.\<close>

datatype raw_payload = RawBytes string | RawValue json

definition aliases :: "(string \<times> string) list" where
  "aliases = [(''runId'', ''run_id''), (''durationMs'', ''duration_ms''),
     (''tokensPrompt'', ''tokens_prompt''), (''tokensCompletion'', ''tokens_completion''),
     (''errorMessage'', ''error_message''), (''correlationId'', ''correlation_id''),
     (''traceParent'', ''traceparent'')]"

definition apply_alias :: "string \<times> string \<Rightarrow> dict \<Rightarrow> dict" where
  "apply_alias a d =
     (case a of (source, target) \<Rightarrow>
        if dhas d source \<and> \<not> dhas d target then dset d target (dget d source) else d)"

definition normalize_dict :: "dict \<Rightarrow> dict" where
  "normalize_dict d = fold apply_alias aliases d"

definition normalize_completion_payload ::
  "(string \<Rightarrow> string option) \<Rightarrow> (string \<Rightarrow> json option) \<Rightarrow> raw_payload \<Rightarrow> dict result" where
  "normalize_completion_payload decode loads p =
     bind_res (case p of
         RawBytes b \<Rightarrow> (case decode b of None \<Rightarrow> Inl (ValueError []) | Some s \<Rightarrow> Inr (JStr s))
       | RawValue v \<Rightarrow> Inr v)
     (\<lambda>v. bind_res (case v of
         JStr s \<Rightarrow> (case loads s of None \<Rightarrow> Inl (ValueError ''completion payload is not valid JSON'') | Some w \<Rightarrow> Inr w)
       | _ \<Rightarrow> Inr v)
     (\<lambda>w. case w of
         JObj d \<Rightarrow> Inr (normalize_dict d)
       | _ \<Rightarrow> Inl (TypeError ''completion payload must be a JSON object'')))"

subsection \<open>Fields of a strict model\<close>

definition req_str :: "dict \<Rightarrow> string \<Rightarrow> string result" where
  "req_str d k = (case map_of d k of Some (JStr s) \<Rightarrow> Inr s | _ \<Rightarrow> Inl ValidationError)"

definition req_int :: "dict \<Rightarrow> string \<Rightarrow> int result" where
  "req_int d k = (case map_of d k of Some (JInt n) \<Rightarrow> Inr n | _ \<Rightarrow> Inl ValidationError)"

definition opt_str :: "dict \<Rightarrow> string \<Rightarrow> string option result" where
  "opt_str d k = (case map_of d k of None \<Rightarrow> Inr None | Some JNull \<Rightarrow> Inr None
     | Some (JStr s) \<Rightarrow> Inr (Some s) | _ \<Rightarrow> Inl ValidationError)"

definition opt_int :: "dict \<Rightarrow> string \<Rightarrow> int option result" where
  "opt_int d k = (case map_of d k of None \<Rightarrow> Inr None | Some JNull \<Rightarrow> Inr None
     | Some (JInt n) \<Rightarrow> Inr (Some n) | _ \<Rightarrow> Inl ValidationError)"

fun dump_opt_str :: "string option \<Rightarrow> json" where
  "dump_opt_str None = JNull"
| "dump_opt_str (Some s) = JStr s"

fun dump_opt_int :: "int option \<Rightarrow> json" where
  "dump_opt_int None = JNull"
| "dump_opt_int (Some n) = JInt n"

subsection \<open>Messages\<close>

record artifact_item =
  ai_name :: string
  ai_blob_uri :: string
  ai_mime :: "string option"
  ai_size_bytes :: "int option"
  ai_sha256 :: "string option"

fun validate_artifact :: "json \<Rightarrow> artifact_item result" where
  "validate_artifact (JObj d) =
     bind_res (req_str d ''name'') (\<lambda>n.
     bind_res (req_str d ''blob_uri'') (\<lambda>u.
     bind_res (opt_str d ''mime'') (\<lambda>m.
     bind_res (opt_int d ''size_bytes'') (\<lambda>z.
     bind_res (opt_str d ''sha256'') (\<lambda>h.
       Inr \<lparr>ai_name = n, ai_blob_uri = u, ai_mime = m, ai_size_bytes = z, ai_sha256 = h\<rparr>)))))"
| "validate_artifact _ = Inl ValidationError"

definition dump_artifact :: "artifact_item \<Rightarrow> json" where
  "dump_artifact a =
     JObj [(''name'', JStr (ai_name a)), (''blob_uri'', JStr (ai_blob_uri a)),
           (''mime'', dump_opt_str (ai_mime a)), (''size_bytes'', dump_opt_int (ai_size_bytes a)),
           (''sha256'', dump_opt_str (ai_sha256 a))]"

definition opt_artifacts :: "dict \<Rightarrow> artifact_item list option result" where
  "opt_artifacts d = (case map_of d ''artifacts'' of None \<Rightarrow> Inr None | Some JNull \<Rightarrow> Inr None
     | Some (JList xs) \<Rightarrow> bind_res (map_res validate_artifact xs) (\<lambda>as. Inr (Some as))
     | _ \<Rightarrow> Inl ValidationError)"

fun dump_artifacts :: "artifact_item list option \<Rightarrow> json" where
  "dump_artifacts None = JNull"
| "dump_artifacts (Some as) = JList (map dump_artifact as)"

record run_result_message =
  rm_run_id :: string
  rm_status :: string
  rm_duration_ms :: int
  rm_tokens_prompt :: int
  rm_tokens_completion :: int
  rm_error_message :: "string option"
  rm_correlation_id :: string
  rm_traceparent :: "string option"
  rm_artifacts :: "artifact_item list option"

definition validate_run_result :: "dict \<Rightarrow> run_result_message result" where
  "validate_run_result d =
     bind_res (req_str d ''run_id'') (\<lambda>r.
     bind_res (req_str d ''status'') (\<lambda>s.
     bind_res (req_int d ''duration_ms'') (\<lambda>n.
     bind_res (req_int d ''tokens_prompt'') (\<lambda>tp.
     bind_res (req_int d ''tokens_completion'') (\<lambda>tc.
     bind_res (opt_str d ''error_message'') (\<lambda>e.
     bind_res (req_str d ''correlation_id'') (\<lambda>c.
     bind_res (opt_str d ''traceparent'') (\<lambda>t.
     bind_res (opt_artifacts d) (\<lambda>a.
       Inr \<lparr>rm_run_id = r, rm_status = s, rm_duration_ms = n, rm_tokens_prompt = tp,
            rm_tokens_completion = tc, rm_error_message = e, rm_correlation_id = c,
            rm_traceparent = t, rm_artifacts = a\<rparr>)))))))))"

definition dump_run_result :: "run_result_message \<Rightarrow> dict" where
  "dump_run_result m =
     [(''run_id'', JStr (rm_run_id m)), (''status'', JStr (rm_status m)),
      (''duration_ms'', JInt (rm_duration_ms m)), (''tokens_prompt'', JInt (rm_tokens_prompt m)),
      (''tokens_completion'', JInt (rm_tokens_completion m)),
      (''error_message'', dump_opt_str (rm_error_message m)),
      (''correlation_id'', JStr (rm_correlation_id m)),
      (''traceparent'', dump_opt_str (rm_traceparent m)),
      (''artifacts'', dump_artifacts (rm_artifacts m))]"

record finish_run_request =
  fr_status :: string
  fr_duration_ms :: int
  fr_tokens_prompt :: int
  fr_tokens_completion :: int
  fr_error_message :: "string option"
  fr_correlation_id :: "string option"
  fr_traceparent :: "string option"
  fr_artifacts :: "artifact_item list option"

definition validate_finish_run :: "dict \<Rightarrow> finish_run_request result" where
  "validate_finish_run d =
     bind_res (req_str d ''status'') (\<lambda>s.
     bind_res (req_int d ''duration_ms'') (\<lambda>n.
     bind_res (req_int d ''tokens_prompt'') (\<lambda>tp.
     bind_res (req_int d ''tokens_completion'') (\<lambda>tc.
     bind_res (opt_str d ''error_message'') (\<lambda>e.
     bind_res (opt_str d ''correlation_id'') (\<lambda>c.
     bind_res (opt_str d ''traceparent'') (\<lambda>t.
     bind_res (opt_artifacts d) (\<lambda>a.
       Inr \<lparr>fr_status = s, fr_duration_ms = n, fr_tokens_prompt = tp, fr_tokens_completion = tc,
            fr_error_message = e, fr_correlation_id = c, fr_traceparent = t, fr_artifacts = a\<rparr>))))))))"

record run_message =
  msg_message_id :: string
  msg_run_id :: string
  msg_engine :: string
  msg_cv_blob_uris :: "string list"
  msg_prompt_blob_uri :: "string option"
  msg_correlation_id :: string
  msg_enqueued_at :: string

text \<open>
  \<^verbatim>\<open>RunMessage(...).model_dump_json()\<close> as the platform builds it: the parameters it
  never sets keep their defaults.
\<close>

definition dump_run_message :: "run_message \<Rightarrow> json" where
  "dump_run_message m =
     JObj [(''message_id'', JStr (msg_message_id m)), (''run_id'', JStr (msg_run_id m)),
           (''engine'', JStr (msg_engine m)),
           (''parameters'', JObj [(''cv_blob_uris'', JList (map JStr (msg_cv_blob_uris m))),
              (''spec_blob_uri'', JNull), (''prompt_blob_uri'', dump_opt_str (msg_prompt_blob_uri m)),
              (''run_profile'', JNull), (''return_artifacts'', JBool True), (''output'', JNull),
              (''aoai'', JNull)]),
           (''correlation_id'', JStr (msg_correlation_id m)),
           (''enqueued_at'', JStr (msg_enqueued_at m))]"

subsection \<open>Laws\<close>

lemma dhas_apply_alias: "dhas (apply_alias a d) k \<longleftrightarrow> dhas d k \<or> k = snd a \<and> dhas d (fst a)"
  by (cases a) (auto simp: apply_alias_def)

lemma dget_apply_alias: "dhas d k \<Longrightarrow> dget (apply_alias a d) k = dget d k"
  by (cases a) (auto simp: apply_alias_def)

lemma dget_alias_new: "\<not> dhas d t \<Longrightarrow> dget (apply_alias (s, t) d) t = dget d s"
  by (auto simp: apply_alias_def dget_no_key)

lemma fold_alias_keeps: "dhas d k \<Longrightarrow> dhas (fold apply_alias as d) k \<and> dget (fold apply_alias as d) k = dget d k"
proof (induction as arbitrary: d)
  case Nil
  then show ?case by simp
next
  case (Cons a as)
  then show ?case using dhas_apply_alias[of a d k] dget_apply_alias[of d k a] by simp
qed

lemma fold_alias_dhas:
  assumes "\<forall>a \<in> set as. \<forall>b \<in> set as. fst a \<noteq> snd b"
  shows "dhas (fold apply_alias as d) k \<longleftrightarrow> dhas d k \<or> (\<exists>a \<in> set as. k = snd a \<and> dhas d (fst a))"
  using assms
proof (induction as arbitrary: d)
  case Nil
  then show ?case by simp
next
  case (Cons a as)
  have src: "dhas (apply_alias a d) (fst b) \<longleftrightarrow> dhas d (fst b)" if "b \<in> set as" for b
    using Cons.prems that by (auto simp: dhas_apply_alias)
  have "dhas (fold apply_alias (a # as) d) k \<longleftrightarrow>
      dhas (apply_alias a d) k \<or> (\<exists>b \<in> set as. k = snd b \<and> dhas (apply_alias a d) (fst b))"
    unfolding fold_Cons comp_apply by (rule Cons.IH) (use Cons.prems in simp)
  also have "\<dots> \<longleftrightarrow> (dhas d k \<or> k = snd a \<and> dhas d (fst a)) \<or> (\<exists>b \<in> set as. k = snd b \<and> dhas d (fst b))"
    unfolding dhas_apply_alias[of a d k] using src by blast
  also have "\<dots> \<longleftrightarrow> dhas d k \<or> (\<exists>b \<in> set (a # as). k = snd b \<and> dhas d (fst b))"
    by (simp only: list.set) blast
  finally show ?case .
qed

lemma alias_names_differ: "\<forall>a \<in> set aliases. \<forall>b \<in> set aliases. fst a \<noteq> snd b"
  by (simp add: aliases_def)

lemma alias_targets_distinct: "distinct (map snd aliases)"
  by (simp add: aliases_def)

lemma fold_alias_value:
  assumes "\<forall>a \<in> set as. \<forall>b \<in> set as. fst a \<noteq> snd b" and "distinct (map snd as)"
    and "(s, t) \<in> set as" and "dhas d s" and "\<not> dhas d t"
  shows "dget (fold apply_alias as d) t = dget d s"
  using assms
proof (induction as arbitrary: d)
  case Nil
  then show ?case by simp
next
  case (Cons a as)
  show ?case
  proof (cases "a = (s, t)")
    case True
    have "dhas (apply_alias a d) t" using Cons.prems(4) True by (simp add: dhas_apply_alias)
    then show ?thesis using fold_alias_keeps[of "apply_alias a d" t as] Cons.prems(4,5) True
      by (simp add: dget_alias_new)
  next
    case False
    from False Cons.prems(3) have mem: "(s, t) \<in> set as" by simp
    then have "t \<in> set (map snd as)" by force
    with Cons.prems(2) have "t \<noteq> snd a" by (metis distinct.simps(2) list.simps(9))
    note st = mem this
    have pre: "\<forall>a \<in> set as. \<forall>b \<in> set as. fst a \<noteq> snd b" "distinct (map snd as)"
      using Cons.prems(1,2) by simp_all
    have "dhas (apply_alias a d) s" "\<not> dhas (apply_alias a d) t" "dget (apply_alias a d) s = dget d s"
      using Cons.prems(4,5) st(2) by (simp_all add: dhas_apply_alias dget_apply_alias)
    with Cons.IH[OF pre mem, of "apply_alias a d"] show ?thesis by simp
  qed
qed

lemma apply_alias_id: "dhas d (snd a) \<or> \<not> dhas d (fst a) \<Longrightarrow> apply_alias a d = d"
  by (cases a) (auto simp: apply_alias_def)

lemma fold_alias_id: "\<forall>a \<in> set as. dhas d (snd a) \<or> \<not> dhas d (fst a) \<Longrightarrow> fold apply_alias as d = d"
  by (induction as) (simp_all add: apply_alias_id)

lemma normalize_dict_closed:
  "a \<in> set aliases \<Longrightarrow> dhas (normalize_dict d) (snd a) \<or> \<not> dhas (normalize_dict d) (fst a)"
  unfolding normalize_dict_def fold_alias_dhas[OF alias_names_differ] using alias_names_differ by auto

lemma normalize_dict_idem: "normalize_dict (normalize_dict d) = normalize_dict d"
  unfolding normalize_dict_def[of "normalize_dict d"] by (rule fold_alias_id) (use normalize_dict_closed in blast)

lemma validate_dump_artifact: "validate_artifact (dump_artifact a) = Inr a"
  by (cases "ai_mime a"; cases "ai_size_bytes a"; cases "ai_sha256 a")
     (simp_all add: dump_artifact_def req_str_def opt_str_def opt_int_def)

lemma validate_dump_artifacts: "map_res validate_artifact (map dump_artifact as) = Inr as"
  by (induction as) (simp_all add: validate_dump_artifact)

lemma run_result_accepts:
  "validate_run_result (dump_run_result m) = Inr m" "normalize_dict (dump_run_result m) = dump_run_result m"
proof -
  show "validate_run_result (dump_run_result m) = Inr m"
    by (cases "rm_error_message m"; cases "rm_traceparent m"; cases "rm_artifacts m")
       (simp_all add: validate_run_result_def dump_run_result_def req_str_def req_int_def opt_str_def
         opt_artifacts_def validate_dump_artifacts del: map_map)
  show "normalize_dict (dump_run_result m) = dump_run_result m"
    unfolding normalize_dict_def by (rule fold_alias_id) (simp add: aliases_def dump_run_result_def)
qed

subsection \<open>The properties\<close>

text \<open>C16: normalising a completion payload gives every canonical field the value of its
  canonical spelling when that is there and of its alias otherwise, leaves every field that is
  not an alias target alone, and is idempotent: a redelivered normalised payload stays as it
  is.\<close>

theorem completion_payload_canonical:
  assumes "normalize_completion_payload decode loads (RawValue (JObj d)) = Inr n"
  shows "(\<forall>(s, t) \<in> set aliases. dget n t = (if dhas d t then dget d t else dget d s) \<and>
           (dhas n t \<longleftrightarrow> dhas d t \<or> dhas d s)) \<and>
    (\<forall>k. k \<notin> snd ` set aliases \<longrightarrow> dget n k = dget d k \<and> dhas n k = dhas d k) \<and>
    normalize_completion_payload decode loads (RawValue (JObj n)) = Inr n"
proof -
  have n: "n = normalize_dict d" using assms by (simp add: normalize_completion_payload_def)
  have has: "dhas n k \<longleftrightarrow> dhas d k \<or> (\<exists>a \<in> set aliases. k = snd a \<and> dhas d (fst a))" for k
    unfolding n normalize_dict_def by (rule fold_alias_dhas[OF alias_names_differ])
  have one: "dget n t = (if dhas d t then dget d t else dget d s) \<and> (dhas n t \<longleftrightarrow> dhas d t \<or> dhas d s)"
    if st: "(s, t) \<in> set aliases" for s t
  proof -
    have uniq: "a = (s, t)" if "a \<in> set aliases" "t = snd a" for a
    proof -
      have "inj_on snd (set aliases)" using alias_targets_distinct by (simp add: distinct_map)
      then show ?thesis by (rule inj_onD) (use that st in simp_all)
    qed
    have "(\<exists>a \<in> set aliases. t = snd a \<and> dhas d (fst a)) \<longleftrightarrow> dhas d s"
    proof
      assume "\<exists>a \<in> set aliases. t = snd a \<and> dhas d (fst a)"
      then obtain a where a: "a \<in> set aliases" "t = snd a" "dhas d (fst a)" by blast
      from uniq[OF a(1,2)] a(3) show "dhas d s" by simp
    qed (intro bexI[OF _ st], simp)
    then have ht: "dhas n t \<longleftrightarrow> dhas d t \<or> dhas d s" unfolding has by blast
    have "dget n t = dget d t" if "dhas d t"
      using fold_alias_keeps[OF that, of aliases] by (simp add: n normalize_dict_def)
    moreover have "dget n t = dget d s" if "\<not> dhas d t" "dhas d s"
      using fold_alias_value[OF alias_names_differ alias_targets_distinct st that(2,1)]
      by (simp add: n normalize_dict_def)
    moreover have "dget n t = dget d s" if "\<not> dhas d t" "\<not> dhas d s"
      using ht that by (simp add: dget_no_key)
    ultimately show ?thesis using ht by auto
  qed
  have other: "dget n k = dget d k \<and> dhas n k = dhas d k" if "k \<notin> snd ` set aliases" for k
  proof -
    have "dhas n k \<longleftrightarrow> dhas d k" unfolding has using that by blast
    moreover have "dget n k = dget d k" if "dhas d k"
      using fold_alias_keeps[OF that, of aliases] by (simp add: n normalize_dict_def)
    ultimately show ?thesis by (metis dget_no_key)
  qed
  have "normalize_completion_payload decode loads (RawValue (JObj n)) = Inr n"
    by (simp add: normalize_completion_payload_def n normalize_dict_idem)
  with one other show ?thesis by blast
qed

theorem completion_payload_canonical_witness:
  "\<exists>n. normalize_completion_payload Some (\<lambda>s. None)
      (RawValue (JObj [(''runId'', JStr ''r1''), (''duration_ms'', JInt 5), (''durationMs'', JInt 9)])) = Inr n \<and>
    dget n ''run_id'' = JStr ''r1'' \<and> dget n ''duration_ms'' = JInt 5"
proof -
  let ?d = "[(''runId'', JStr ''r1''), (''duration_ms'', JInt 5), (''durationMs'', JInt 9)]"
  obtain n where n: "normalize_completion_payload Some (\<lambda>s. None) (RawValue (JObj ?d)) = Inr n"
    by (simp add: normalize_completion_payload_def)
  have "(''runId'', ''run_id'') \<in> set aliases" "(''durationMs'', ''duration_ms'') \<in> set aliases"
    by (simp_all add: aliases_def)
  with completion_payload_canonical[OF n] have "dget n ''run_id'' = JStr ''r1''" "dget n ''duration_ms'' = JInt 5"
    by fastforce+
  with n show ?thesis by blast
qed

text \<open>A run result message survives being dumped, sent and validated again, and it needs
  no normalisation: what the platform dumps is already canonical.\<close>

lemma run_result_roundtrip:
  "validate_run_result (dump_run_result m) = Inr m \<and> normalize_dict (dump_run_result m) = dump_run_result m"
  using run_result_accepts[of m] by blast

end
