(* ===== verification/Tracing.thy ===== *)
theory Tracing
  imports PyValue
begin

text \<open>
  Trace metadata: \<^verbatim>\<open>extract_trace_metadata\<close> and \<^verbatim>\<open>_parse_traceparent\<close> of
  \<^verbatim>\<open>runtime/events.py\<close> (the latter is repeated in
  \<^verbatim>\<open>orchestrator/functions/result_intake/__init__.py\<close>). Python's
  \<^verbatim>\<open>str.split\<close> with a one-character separator and \<^verbatim>\<open>int(s, 16)\<close> are
  written out: the latter takes blanks around the number, a sign, a prefix \<^verbatim>\<open>0x\<close> and
  single underscores between digits.
\<close>

subsection \<open>Splitting\<close>

fun split_on :: "char \<Rightarrow> string \<Rightarrow> string list" where
  "split_on c [] = [[]]"
| "split_on c (x # xs) =
     (if x = c then [] # split_on c xs
      else (case split_on c xs of [] \<Rightarrow> [[x]] | p # ps \<Rightarrow> (x # p) # ps))"

lemma split_on_nonempty [simp]: "split_on c s \<noteq> []"
  by (induction s) (auto split: list.splits)

lemma split_on_clean: "c \<notin> set s \<Longrightarrow> split_on c s = [s]"
  by (induction s) auto

lemma split_on_append: "c \<notin> set s \<Longrightarrow> split_on c (s @ c # t) = s # split_on c t"
  by (induction s) auto

lemma split_on_parts: "p \<in> set (split_on c s) \<Longrightarrow> c \<notin> set p"
proof (induction s arbitrary: p)
  case Nil
  then show ?case by simp
next
  case (Cons x s)
  then show ?case by (cases "split_on c s") (auto split: if_splits)
qed

lemma join_split: "join [c] (split_on c s) = s"
proof (induction s)
  case Nil
  then show ?case by simp
next
  case (Cons x s)
  obtain p ps where ps: "split_on c s = p # ps" by (cases "split_on c s") auto
  show ?case
  proof (cases "x = c")
    case True
    with Cons ps show ?thesis by simp
  next
    case False
    with Cons ps show ?thesis by (cases ps) auto
  qed
qed

subsection \<open>\<^verbatim>\<open>int(s, 16)\<close>\<close>

definition hex_val :: "char \<Rightarrow> nat option" where
  "hex_val c =
     (let n = codept c
      in if 48 \<le> n \<and> n \<le> 57 then Some (n - 48)
         else if 65 \<le> n \<and> n \<le> 70 then Some (n - 55)
         else if 97 \<le> n \<and> n \<le> 102 then Some (n - 87) else None)"

definition ascii_space :: "char \<Rightarrow> bool" where
  "ascii_space c \<longleftrightarrow> (let n = codept c in (9 \<le> n \<and> n \<le> 13) \<or> n = 32)"

definition int_blank :: "string \<Rightarrow> char \<Rightarrow> bool" where
  \<comment> \<open>a string with a character above 127 goes through the Unicode table first\<close>
  "int_blank s = (if list_all (\<lambda>c. codept c < 128) s then ascii_space else py_space)"

definition int_strip :: "string \<Rightarrow> string" where
  "int_strip s = rev (dropWhile (int_blank s) (rev (dropWhile (int_blank s) s)))"

fun hex_run :: "nat \<Rightarrow> string \<Rightarrow> nat option" where
  "hex_run acc [] = Some acc"
| "hex_run acc (c # cs) =
     (if c = CHR ''_''
      then (case cs of [] \<Rightarrow> None
            | d # ds \<Rightarrow> (case hex_val d of None \<Rightarrow> None | Some v \<Rightarrow> hex_run (16 * acc + v) ds))
      else (case hex_val c of None \<Rightarrow> None | Some v \<Rightarrow> hex_run (16 * acc + v) cs))"

definition hex_number :: "string \<Rightarrow> nat option" where
  "hex_number s =
     (case s of [] \<Rightarrow> None
      | c # cs \<Rightarrow> (case hex_val c of None \<Rightarrow> None | Some v \<Rightarrow> hex_run v cs))"

fun drop_prefix :: "string \<Rightarrow> string" where
  "drop_prefix (z # x # cs) =
     (if z = CHR ''0'' \<and> x \<in> set ''xX''
      then (case cs of u # us \<Rightarrow> (if u = CHR ''_'' then us else cs) | [] \<Rightarrow> [])
      else z # x # cs)"
| "drop_prefix s = s"

definition int16 :: "string \<Rightarrow> int option" where
  "int16 s =
     (let t = int_strip s
      in case t of
           [] \<Rightarrow> None
         | c # cs \<Rightarrow>
             (if c = CHR ''-'' then map_option (\<lambda>n. - int n) (hex_number (drop_prefix cs))
              else if c = CHR ''+'' then map_option int (hex_number (drop_prefix cs))
              else map_option int (hex_number (drop_prefix t))))"

subsection \<open>The traceparent\<close>

record span_context =
  sc_trace_id :: int
  sc_span_id :: int
  sc_flags :: int

definition parse_traceparent :: "string \<Rightarrow> span_context option" where
  "parse_traceparent tp =
     (if tp = [] then None
      else (case split_on CHR ''-'' tp of
        [p0, p1, p2, p3] \<Rightarrow>
          (if p0 \<noteq> ''00'' then None
           else (case int16 p1 of None \<Rightarrow> None
             | Some t \<Rightarrow> (case int16 p2 of None \<Rightarrow> None
               | Some s \<Rightarrow> (case int16 p3 of None \<Rightarrow> None
                 | Some f \<Rightarrow>
                     (if t = 0 \<or> s = 0 then None
                      else Some \<lparr>sc_trace_id = t, sc_span_id = s, sc_flags = f\<rparr>)))))
      | _ \<Rightarrow> None))"

definition links_from_traceparent :: "string \<Rightarrow> span_context list" where
  "links_from_traceparent tp = (case parse_traceparent tp of None \<Rightarrow> [] | Some c \<Rightarrow> [c])"

text \<open>The result intake repeats both, line by line, for the links of its spans.\<close>

definition intake_parse_traceparent :: "string \<Rightarrow> span_context option" where
  "intake_parse_traceparent tp = parse_traceparent tp"

definition intake_links_from_traceparent :: "string \<Rightarrow> span_context list" where
  "intake_links_from_traceparent tp = (case intake_parse_traceparent tp of None \<Rightarrow> [] | Some c \<Rightarrow> [c])"

lemma intake_links: "intake_links_from_traceparent tp = links_from_traceparent tp"
  by (simp add: intake_links_from_traceparent_def links_from_traceparent_def intake_parse_traceparent_def)

subsection \<open>Metadata from the carriers\<close>

text \<open>
  Service Bus application properties have string or bytes keys and values. \<open>decode\<close> is
  \<^verbatim>\<open>bytes.decode("utf-8", errors="ignore")\<close>.
\<close>

datatype prop_key = StrKey string | BytesKey string
datatype carried = Value json | Bytes string

fun carried_truthy :: "carried \<Rightarrow> bool" where
  "carried_truthy (Value v) = truthy v"
| "carried_truthy (Bytes b) = (b \<noteq> [])"

fun carried_str :: "(string \<Rightarrow> string) \<Rightarrow> carried \<Rightarrow> string" where
  "carried_str decode (Value v) = py_str v"
| "carried_str decode (Bytes b) = decode b"

type_synonym props = "(prop_key \<times> carried) list"

definition prop_get :: "props \<Rightarrow> prop_key \<Rightarrow> carried" where
  "prop_get ps k = (case map_of ps k of None \<Rightarrow> Value JNull | Some v \<Rightarrow> v)"

fun first_truthy :: "carried list \<Rightarrow> carried" where
  "first_truthy [] = Value (JStr [])"
| "first_truthy (v # vs) = (if carried_truthy v then v else first_truthy vs)"

definition extract_trace_metadata :: "(string \<Rightarrow> string) \<Rightarrow> dict \<Rightarrow> props \<Rightarrow> dict \<Rightarrow> string \<times> string" where
  "extract_trace_metadata decode headers ps payload =
     (carried_str decode (first_truthy
        [Value (dget headers ''x-correlation-id''), Value (dget headers ''X-Correlation-Id''),
         prop_get ps (StrKey ''correlationId''), prop_get ps (BytesKey ''correlationId''),
         Value (dget payload ''correlation_id''), Value (dget payload ''correlationId'')]),
      carried_str decode (first_truthy
        [Value (dget headers ''traceparent''),
         prop_get ps (StrKey ''traceparent''), prop_get ps (BytesKey ''traceparent''),
         Value (dget payload ''traceparent''), Value (dget payload ''traceParent'')]))"

subsection \<open>Laws\<close>

fun hex_digits :: "nat \<Rightarrow> string" where
  "hex_digits n = (if n < 16 then [digit_char n] else hex_digits (n div 16) @ [digit_char (n mod 16)])"

declare hex_digits.simps [simp del]

lemma digit_codept: "d < 16 \<Longrightarrow> codept (digit_char d) = (if d < 10 then 48 + d else 87 + d)"
  by (simp add: digit_char_def codept_def)

lemma hex_val_digit: "d < 16 \<Longrightarrow> hex_val (digit_char d) = Some d"
  by (auto simp: hex_val_def digit_codept Let_def)

lemma digit_plain:
  assumes "d < 16"
  shows "digit_char d \<noteq> CHR ''_''" "digit_char d \<noteq> CHR ''-''" "digit_char d \<noteq> CHR ''+''"
    "digit_char d \<notin> set ''xX''" "\<not> ascii_space (digit_char d)" "codept (digit_char d) < 128"
proof -
  have c: "codept CHR ''_'' = 95" "codept CHR ''-'' = 45" "codept CHR ''+'' = 43" "codept CHR ''x'' = 120"
    "codept CHR ''X'' = 88" by (simp_all add: codept_def)
  show "digit_char d \<noteq> CHR ''_''" "digit_char d \<noteq> CHR ''-''" "digit_char d \<noteq> CHR ''+''"
    "digit_char d \<notin> set ''xX''"
    using digit_codept[OF assms] c assms by (auto split: if_splits)
  show "\<not> ascii_space (digit_char d)" "codept (digit_char d) < 128"
    using digit_codept[OF assms] assms by (auto simp: ascii_space_def Let_def split: if_splits)
qed

lemma hex_digits_chars: "c \<in> set (hex_digits n) \<Longrightarrow> \<exists>d < 16. c = digit_char d"
proof (induction n rule: hex_digits.induct)
  case (1 n)
  then show ?case
    by (cases "n < 16") (auto simp: hex_digits.simps[of n] intro: exI[of _ "n mod 16"])
qed

lemma hex_digits_nonempty [simp]: "hex_digits n \<noteq> []"
  by (subst hex_digits.simps) simp

lemma hex_run_snoc:
  assumes "\<forall>c \<in> set cs. \<exists>d < 16. c = digit_char d" and "d < 16"
  shows "hex_run acc (cs @ [digit_char d]) = map_option (\<lambda>n. 16 * n + d) (hex_run acc cs)"
  using assms
proof (induction cs arbitrary: acc)
  case Nil
  then show ?case by (simp add: digit_plain hex_val_digit)
next
  case (Cons c cs)
  then obtain e where "e < 16" "c = digit_char e" by auto
  with Cons show ?case by (simp add: digit_plain hex_val_digit)
qed

definition all_digits :: "string \<Rightarrow> bool" where
  "all_digits s \<longleftrightarrow> (\<forall>c \<in> set s. \<exists>d < 16. c = digit_char d)"

lemma all_digits_hex: "all_digits (hex_digits n)"
  using hex_digits_chars by (simp add: all_digits_def)

lemma hex_number_run: "all_digits s \<Longrightarrow> s \<noteq> [] \<Longrightarrow> hex_number s = hex_run 0 s"
  by (cases s) (auto simp: hex_number_def all_digits_def hex_val_digit digit_plain)

lemma hex_run_digits: "hex_run 0 (hex_digits n) = Some n"
proof (induction n rule: hex_digits.induct)
  case (1 n)
  show ?case
  proof (cases "n < 16")
    case True
    then show ?thesis by (simp add: hex_digits.simps[of n] hex_val_digit digit_plain)
  next
    case False
    with 1 have "hex_run 0 (hex_digits (n div 16)) = Some (n div 16)" by simp
    with hex_run_snoc[of "hex_digits (n div 16)" "n mod 16" 0] False show ?thesis
      using hex_digits_chars by (simp add: hex_digits.simps[of n])
  qed
qed

lemma strip_none: "(\<And>c. c \<in> set s \<Longrightarrow> \<not> P c) \<Longrightarrow> rev (dropWhile P (rev (dropWhile P s))) = s"
proof -
  assume a: "\<And>c. c \<in> set s \<Longrightarrow> \<not> P c"
  then have "dropWhile P s = s" "dropWhile P (rev s) = rev s"
    by (metis dropWhile_eq_self_iff hd_in_set set_rev)+
  then show ?thesis by simp
qed

lemma int16_digits:
  assumes "all_digits s" and "s \<noteq> []"
  shows "int16 s = map_option int (hex_run 0 s)"
proof -
  have plain: "\<exists>d < 16. c = digit_char d" if "c \<in> set s" for c using assms(1) that by (simp add: all_digits_def)
  have "int_blank s = ascii_space"
    using plain digit_plain(6) by (auto simp: int_blank_def list_all_iff)
  then have st: "int_strip s = s"
    using plain digit_plain(5) unfolding int_strip_def by (intro strip_none) auto
  have dp: "drop_prefix s = s"
  proof (cases s rule: drop_prefix.cases)
    case (1 z x cs)
    then have "x \<notin> set ''xX''" using plain[of x] digit_plain(4) by auto
    with 1 show ?thesis by auto
  qed auto
  obtain c cs where c: "s = c # cs" using assms(2) by (cases s) auto
  then have "c \<noteq> CHR ''-''" "c \<noteq> CHR ''+''" using plain[of c] digit_plain(2,3) by auto
  with c st dp hex_number_run[OF assms] show ?thesis by (simp add: int16_def)
qed

text \<open>A field of a traceparent: hexadecimal digits padded with zeros to a width.\<close>

lemma digit_zero: "digit_char 0 = CHR ''0''"
  by code_simp

definition padded :: "nat \<Rightarrow> nat \<Rightarrow> string" where
  "padded k n = replicate (k - length (hex_digits n)) (digit_char 0) @ hex_digits n"

lemma hex_run_zeros: "hex_run 0 (replicate m (digit_char 0) @ s) = hex_run 0 s"
  by (induction m) (simp_all add: hex_val_digit digit_plain)

lemma padded_digits: "all_digits (padded k n)"
  using all_digits_hex[of n] by (auto simp: padded_def all_digits_def intro: exI[of _ 0])

lemma int16_padded: "int16 (padded k n) = Some (int n)"
  using padded_digits[of k n] by (subst int16_digits) (simp_all add: padded_def hex_run_zeros hex_run_digits)

lemma padded_no_dash: "CHR ''-'' \<notin> set (padded k n)"
  using padded_digits[of k n] digit_plain(2) unfolding all_digits_def by metis

definition format_traceparent :: "nat \<Rightarrow> nat \<Rightarrow> nat \<Rightarrow> string" where
  "format_traceparent t s f = ''00'' @ ''-'' @ padded 32 t @ ''-'' @ padded 16 s @ ''-'' @ padded 2 f"

text \<open>C15: a traceparent in the W3C layout, whatever the ids, is decoded to exactly its ids
  and flags, and to nothing when one of the ids is zero.\<close>

theorem traceparent_roundtrip:
  "parse_traceparent (format_traceparent t s f) =
     (if t = 0 \<or> s = 0 then None
      else Some \<lparr>sc_trace_id = int t, sc_span_id = int s, sc_flags = int f\<rparr>)"
proof -
  have "split_on CHR ''-'' (''00'' @ CHR ''-'' # padded 32 t @ CHR ''-'' # padded 16 s @ CHR ''-'' # padded 2 f) =
      [''00'', padded 32 t, padded 16 s, padded 2 f]"
    by (subst split_on_append; simp add: split_on_append split_on_clean padded_no_dash)
  then have parts: "split_on CHR ''-'' (format_traceparent t s f) = [''00'', padded 32 t, padded 16 s, padded 2 f]"
    by (simp add: format_traceparent_def)
  have ne: "format_traceparent t s f \<noteq> []" by (simp add: format_traceparent_def)
  show ?thesis unfolding parse_traceparent_def parts using ne by (simp add: int16_padded)
qed

end
