(* ===== verification/Storage.thy ===== *)
theory Storage
  imports PyValue
begin

text \<open>
  The blob container the platform writes to and reads from. A blob is addressed by its
  container and its path; its content is the text that was encoded. \<^verbatim>\<open>upload_blob\<close>
  with \<^verbatim>\<open>overwrite=False\<close> raises \<^verbatim>\<open>ResourceExistsError\<close> when the
  blob is there, \<^verbatim>\<open>download_blob\<close> raises \<^verbatim>\<open>ResourceNotFoundError\<close>
  when it is not. The locale \<open>blob_store\<close> states that documented behaviour; the components
  call the container over a network that may lose a request or its answer.
\<close>

type_synonym blob_key = "string \<times> string"
type_synonym blobs = "blob_key \<rightharpoonup> string"

definition upload_blob :: "blob_key \<Rightarrow> string \<Rightarrow> bool \<Rightarrow> blobs \<Rightarrow> blobs result" where
  "upload_blob k data overwrite s =
     (if \<not> overwrite \<and> s k \<noteq> None then Inl ResourceExists else Inr (s(k \<mapsto> data)))"

definition download_blob :: "blob_key \<Rightarrow> blobs \<Rightarrow> string result" where
  "download_blob k s = (case s k of None \<Rightarrow> Inl ResourceNotFound | Some d \<Rightarrow> Inr d)"

locale blob_store =
  fixes upload :: "'k \<Rightarrow> 'd \<Rightarrow> bool \<Rightarrow> 's \<Rightarrow> 's result"
    and download :: "'k \<Rightarrow> 's \<Rightarrow> 'd result"
  assumes upload_overwrites: "\<exists>s'. upload k d True s = Inr s'"
    and upload_refused: "upload k d False s = Inl e \<longleftrightarrow> e = ResourceExists \<and> (\<exists>x. download k s = Inr x)"
    and read_back: "upload k d ow s = Inr s' \<Longrightarrow> download k s' = Inr d"
    and read_other: "upload k d ow s = Inr s' \<Longrightarrow> k' \<noteq> k \<Longrightarrow> download k' s' = download k' s"
begin

definition present :: "'k \<Rightarrow> 's \<Rightarrow> bool" where
  "present k s \<longleftrightarrow> (\<exists>x. download k s = Inr x)"

lemma upload_present: "upload k d ow s = Inr s' \<Longrightarrow> present k s'"
  by (simp add: present_def read_back)

lemma present_stays: "upload k' d ow s = Inr s' \<Longrightarrow> present k s \<Longrightarrow> present k s'"
  using read_other[of k' d ow s s' k] read_back[of k' d ow s s'] by (cases "k = k'") (auto simp: present_def)

lemma claim_outcome:
  "upload k d False s = Inl ResourceExists \<and> present k s \<or>
   (\<exists>s'. upload k d False s = Inr s' \<and> \<not> present k s \<and> present k s')"
proof (cases "upload k d False s")
  case (Inl e)
  then show ?thesis using upload_refused[of k d s e] by (simp add: present_def)
next
  case (Inr s')
  then have "\<not> present k s" using upload_refused[of k d s ResourceExists] by (auto simp: present_def)
  with Inr show ?thesis by (simp add: upload_present)
qed

lemma second_claim_refused:
  assumes "upload k d False s = Inr s'" and "upload k' d' ow s' = Inr s''"
  shows "upload k d'' False s'' = Inl ResourceExists"
proof -
  have "present k s''" using upload_present[OF assms(1)] by (rule present_stays[OF assms(2)])
  then show ?thesis by (simp add: upload_refused present_def)
qed

end

interpretation container: blob_store upload_blob download_blob
  by unfold_locales (auto simp: upload_blob_def download_blob_def split: option.splits if_splits)

subsection \<open>Calls over the network\<close>

text \<open>
  A call of the SDK may fail for reasons of transport, before the container sees the request or
  after it did, when only the answer is lost; either way the caller gets an exception. A
  network says what becomes of the next call for each blob.
\<close>

datatype transport = Answered | RequestLost | ReplyLost

type_synonym network = "blob_key \<Rightarrow> transport"

definition reliable :: network where
  "reliable = (\<lambda>k. Answered)"

definition put_blob :: "network \<Rightarrow> blob_key \<Rightarrow> string \<Rightarrow> bool \<Rightarrow> blobs \<Rightarrow> blobs \<times> unit result" where
  "put_blob net k data overwrite s =
     (case net k of
        RequestLost \<Rightarrow> (s, Inl TransportError)
      | ReplyLost \<Rightarrow> (case upload_blob k data overwrite s of Inl e \<Rightarrow> (s, Inl TransportError) | Inr s' \<Rightarrow> (s', Inl TransportError))
      | Answered \<Rightarrow> (case upload_blob k data overwrite s of Inl e \<Rightarrow> (s, Inl e) | Inr s' \<Rightarrow> (s', Inr ())))"

definition get_blob :: "network \<Rightarrow> blob_key \<Rightarrow> blobs \<Rightarrow> string result" where
  "get_blob net k s = (if net k = Answered then download_blob k s else Inl TransportError)"

lemma reliable_answers [simp]: "reliable k = Answered"
  by (simp add: reliable_def)

text \<open>A write that is not answered has happened or not; one with overwriting never fails otherwise.\<close>

lemma put_cases:
  obtains (written) "put_blob net k data True s = (s(k \<mapsto> data), Inr ())" "net k = Answered"
  | (lost) "put_blob net k data True s = (s, Inl TransportError)" "net k = RequestLost"
  | (unanswered) "put_blob net k data True s = (s(k \<mapsto> data), Inl TransportError)" "net k = ReplyLost"
  by (cases "net k") (simp_all add: put_blob_def upload_blob_def)

lemma put_Inr: "put_blob net k data ow s = (s', Inr u) \<Longrightarrow> net k = Answered \<and> upload_blob k data ow s = Inr s'"
  by (auto simp: put_blob_def split: transport.splits sum.splits)

lemma put_answered [simp]: "net k = Answered \<Longrightarrow> put_blob net k data True s = (s(k \<mapsto> data), Inr ())"
  by (simp add: put_blob_def upload_blob_def)

lemma put_other: "put_blob net k data ow s = (s', r) \<Longrightarrow> k' \<noteq> k \<Longrightarrow> s' k' = s k'"
  by (auto simp: put_blob_def upload_blob_def split: transport.splits if_splits)

lemma put_keeps: "k' \<noteq> k \<Longrightarrow> fst (put_blob net k data ow s) k' = s k'"
  using put_other by (metis surj_pair fst_conv)

lemma put_result: "snd (put_blob net k data True s) = (if net k = Answered then Inr () else Inl TransportError)"
  by (cases rule: put_cases[of net k data s]) simp_all

lemma get_answered [simp]: "net k = Answered \<Longrightarrow> get_blob net k s = download_blob k s"
  by (simp add: get_blob_def)

lemma get_Inr: "get_blob net k s = Inr d \<longleftrightarrow> net k = Answered \<and> s k = Some d"
  by (simp add: get_blob_def download_blob_def split: option.split)

lemma container_present: "container.present k s \<longleftrightarrow> s k \<noteq> None"
  by (auto simp: container.present_def download_blob_def split: option.splits)

subsection \<open>The paths the platform uses\<close>

definition run_index_path :: "string \<Rightarrow> string" where
  "run_index_path run_id = ''run-index/'' @ run_id @ ''.json''"

definition result_marker_path :: "string \<Rightarrow> string" where
  "result_marker_path run_id = ''result-delivery/'' @ run_id @ ''.json''"

definition batch_prompt_path :: "string \<Rightarrow> string" where
  "batch_prompt_path batch_id = ''batches/'' @ batch_id @ ''/prompt.txt''"

definition batch_result_path :: "string \<Rightarrow> string" where
  "batch_result_path batch_id = ''batches/'' @ batch_id @ ''/result.json''"

lemma paths_inj [simp]:
  "run_index_path a = run_index_path b \<longleftrightarrow> a = b"
  "result_marker_path a = result_marker_path b \<longleftrightarrow> a = b"
  "batch_prompt_path a = batch_prompt_path b \<longleftrightarrow> a = b"
  "batch_result_path a = batch_result_path b \<longleftrightarrow> a = b"
  by (simp_all add: run_index_path_def result_marker_path_def batch_prompt_path_def batch_result_path_def)

lemma paths_apart [simp]:
  "run_index_path a \<noteq> result_marker_path b" "result_marker_path b \<noteq> run_index_path a"
  "run_index_path a \<noteq> batch_prompt_path b" "run_index_path a \<noteq> batch_result_path b"
  "batch_result_path b \<noteq> run_index_path a" "batch_result_path b \<noteq> result_marker_path a"
  "batch_prompt_path b \<noteq> run_index_path a" "batch_prompt_path b \<noteq> result_marker_path a"
  "result_marker_path a \<noteq> batch_result_path b" "result_marker_path a \<noteq> batch_prompt_path b"
  by (simp_all add: run_index_path_def result_marker_path_def batch_prompt_path_def batch_result_path_def)

end
