(* ===== verification/Intake.thy ===== *)
theory Intake
  imports Contracts Tracing Storage Progress JsonLaws
begin

text \<open>
  The result intake (\<^verbatim>\<open>orchestrator/functions/result_intake/__init__.py\<close>): the
  Service Bus trigger and the HTTP fallback, which look the run up, claim the delivery with a
  marker blob and raise the external event of the run. The state they share is the blob
  container and the events raised on the Durable client so far. A handler returns the state
  with its answer, also when the answer is an exception: what was written stays written.
  Spans, metrics and log lines are left out.
\<close>

subsection \<open>State and environment\<close>

record raised_event =
  re_instance :: json
  re_name :: string
  re_payload :: dict

record host =
  h_blobs :: blobs
  h_raised :: "raised_event list"

text \<open>
  \<open>ie_account\<close> and \<open>ie_container\<close> are settings; \<open>ie_net\<close> is the network to the
  container; \<open>ie_float\<close> reads
  the text of a float for \<^verbatim>\<open>json.loads\<close>; \<open>ie_raise\<close> is the answer
  of the Durable client to one \<^verbatim>\<open>raise_event\<close>; \<open>ie_explain\<close> words a validation
  error.
\<close>

record intake_env =
  ie_account :: string
  ie_container :: string
  ie_net :: network
  ie_decode :: "string \<Rightarrow> string option"
  ie_decode_ignore :: "string \<Rightarrow> string"
  ie_float :: "string \<Rightarrow> json option"
  ie_raise :: "raised_event \<Rightarrow> unit result"
  ie_explain :: "dict \<Rightarrow> string"

definition ie_loads :: "intake_env \<Rightarrow> string \<Rightarrow> json option" where
  "ie_loads env = json_loads (ie_float env)"

definition lookup_batch_id :: "intake_env \<Rightarrow> string \<Rightarrow> blobs \<Rightarrow> json result" where
  "lookup_batch_id env run_id s =
     (if ie_account env = [] then Inr JNull
      else (case get_blob (ie_net env) (ie_container env, run_index_path run_id) s of
          Inl ResourceNotFound \<Rightarrow> Inr JNull
        | Inl e \<Rightarrow> Inl e
        | Inr data \<Rightarrow> (case ie_loads env data of
              None \<Rightarrow> Inr JNull
            | Some (JObj d) \<Rightarrow> Inr (dget d ''batchId'')
            | Some _ \<Rightarrow> Inl AttributeError)))"

definition claim_marker :: "json \<Rightarrow> string \<Rightarrow> string \<Rightarrow> string \<Rightarrow> json" where
  "claim_marker batch_id run_id cid tp =
     JObj [(''batchId'', batch_id), (''runId'', JStr run_id), (''correlationId'', JStr cid),
           (''traceparent'', JStr tp)]"

definition claim_result_delivery ::
  "intake_env \<Rightarrow> json \<Rightarrow> string \<Rightarrow> string \<Rightarrow> string \<Rightarrow> blobs \<Rightarrow> blobs \<times> bool result" where
  "claim_result_delivery env batch_id run_id cid tp s =
     (if ie_account env = [] then (s, Inr True)
      else (case put_blob (ie_net env) (ie_container env, result_marker_path run_id)
                   (json_dumps (claim_marker batch_id run_id cid tp)) False s of
          (s', Inr _) \<Rightarrow> (s', Inr True)
        | (s', Inl e) \<Rightarrow> (s', if e = ResourceExists then Inr False else Inl e)))"

definition raise_event :: "intake_env \<Rightarrow> raised_event \<Rightarrow> host \<Rightarrow> host \<times> unit result" where
  "raise_event env ev w =
     (case ie_raise env ev of
        Inl e \<Rightarrow> (w, Inl e)
      | Inr _ \<Rightarrow> (w\<lparr>h_raised := h_raised w @ [ev]\<rparr>, Inr ()))"

definition run_event_name :: "string \<Rightarrow> string" where
  "run_event_name run_id = ''run-'' @ run_id"

subsection \<open>The Service Bus trigger\<close>

record sb_message =
  sb_body :: string
  sb_props :: props

definition sb_payload :: "run_result_message \<Rightarrow> string \<Rightarrow> dict" where
  "sb_payload m tp =
     (if tp \<noteq> [] then dset (dump_run_result m) ''traceparent'' (JStr tp) else dump_run_result m)"

definition sb_accept :: "intake_env \<Rightarrow> sb_message \<Rightarrow> run_result_message result" where
  "sb_accept env msg =
     (case ie_decode env (sb_body msg) of
        None \<Rightarrow> Inl (ValueError [])
      | Some s \<Rightarrow> bind_res (normalize_completion_payload (ie_decode env) (ie_loads env) (RawValue (JStr s)))
                    validate_run_result)"

definition sb_result_handler :: "intake_env \<Rightarrow> sb_message \<Rightarrow> host \<Rightarrow> host \<times> unit result" where
  "sb_result_handler env msg w =
     (case sb_accept env msg of
        Inl e \<Rightarrow> (w, Inl e)
      | Inr m \<Rightarrow>
          (case lookup_batch_id env (rm_run_id m) (h_blobs w) of
             Inl e \<Rightarrow> (w, Inl e)
           | Inr JNull \<Rightarrow> (w, Inr ())
           | Inr batch_id \<Rightarrow>
               (let tp = snd (extract_trace_metadata (ie_decode_ignore env) [] (sb_props msg) (dump_run_result m));
                    (s', ok) = claim_result_delivery env batch_id (rm_run_id m) (rm_correlation_id m) tp (h_blobs w);
                    w' = w\<lparr>h_blobs := s'\<rparr>
                in case ok of
                     Inl e \<Rightarrow> (w', Inl e)
                   | Inr first \<Rightarrow>
                       (if \<not> first then (w', Inr ())
                        else raise_event env
                          \<lparr>re_instance = batch_id, re_name = run_event_name (rm_run_id m),
                           re_payload = sb_payload m tp\<rparr> w'))))"

subsection \<open>The HTTP fallback\<close>

record http_response =
  hr_status :: nat
  hr_body :: string

record patch_request =
  pq_run_id :: string
  pq_body :: "json option"
  pq_headers :: dict

definition http_payload :: "string \<Rightarrow> finish_run_request \<Rightarrow> string \<Rightarrow> string \<Rightarrow> dict" where
  "http_payload run_id f cid tp =
     (let d = [(''run_id'', JStr run_id), (''status'', JStr (fr_status f)),
               (''duration_ms'', JInt (fr_duration_ms f)), (''tokens_prompt'', JInt (fr_tokens_prompt f)),
               (''tokens_completion'', JInt (fr_tokens_completion f)),
               (''error_message'', dump_opt_str (fr_error_message f)), (''correlation_id'', JStr cid),
               (''artifacts'', (case fr_artifacts f of None \<Rightarrow> JNull
                  | Some as \<Rightarrow> (if as \<noteq> [] then JList (map dump_artifact as) else JNull)))]
      in if tp \<noteq> [] then dset d ''traceparent'' (JStr tp) else d)"

definition http_patch_run :: "intake_env \<Rightarrow> patch_request \<Rightarrow> host \<Rightarrow> host \<times> http_response result" where
  "http_patch_run env rq w =
     (let run_id = pq_run_id rq in
      if run_id = [] then (w, Inr \<lparr>hr_status = 400, hr_body = ''run_id required''\<rparr>)
      else (case pq_body rq of
        None \<Rightarrow> (w, Inr \<lparr>hr_status = 400, hr_body = ''invalid json''\<rparr>)
      | Some body \<Rightarrow>
          (case normalize_completion_payload (ie_decode env) (ie_loads env) (RawValue body) of
             Inl e \<Rightarrow> (w, Inr \<lparr>hr_status = 400, hr_body = ''invalid json''\<rparr>)
           | Inr d \<Rightarrow>
               (case validate_finish_run d of
                  Inl e \<Rightarrow> (w, Inr \<lparr>hr_status = 400, hr_body = ''invalid FinishRunRequest: '' @ ie_explain env d\<rparr>)
                | Inr f \<Rightarrow>
                    (case lookup_batch_id env run_id (h_blobs w) of
                       Inl e \<Rightarrow> (w, Inl e)
                     | Inr JNull \<Rightarrow> (w, Inr \<lparr>hr_status = 404, hr_body = ''unknown run_id''\<rparr>)
                     | Inr batch_id \<Rightarrow>
                         (let (cid, tp) = extract_trace_metadata (ie_decode_ignore env) (pq_headers rq) [] d;
                              (s', ok) = claim_result_delivery env batch_id run_id cid tp (h_blobs w);
                              w' = w\<lparr>h_blobs := s'\<rparr>
                          in case ok of
                               Inl e \<Rightarrow> (w', Inl e)
                             | Inr first \<Rightarrow>
                                 (if \<not> first then (w', Inr \<lparr>hr_status = 202, hr_body = []\<rparr>)
                                  else map_prod id (map_sum id (\<lambda>_. \<lparr>hr_status = 202, hr_body = []\<rparr>))
                                    (raise_event env
                                      \<lparr>re_instance = batch_id, re_name = run_event_name run_id,
                                       re_payload = http_payload run_id f cid tp\<rparr> w'))))))))"

subsection \<open>What a delivery does to the shared state\<close>

text \<open>
  Either handler ends in one of three ways: it leaves the state alone, it claims and raises,
  or it claims and does not come to raise, because the client refuses the event or the answer to
  the claim is lost.
\<close>

definition marker_there :: "intake_env \<Rightarrow> string \<Rightarrow> host \<Rightarrow> bool" where
  "marker_there env run_id w \<longleftrightarrow> h_blobs w (ie_container env, result_marker_path run_id) \<noteq> None"

definition claimed :: "intake_env \<Rightarrow> string \<Rightarrow> host \<Rightarrow> host \<Rightarrow> bool" where
  "claimed env run_id w w' \<longleftrightarrow>
     \<not> marker_there env run_id w \<and>
     (\<exists>data. h_blobs w' = (h_blobs w)((ie_container env, result_marker_path run_id) \<mapsto> data))"

text \<open>
  A claim that raised has left the marker alone, or written it when only the answer was lost.
\<close>

lemma claim_result_delivery_cases:
  assumes "ie_account env \<noteq> []" and "claim_result_delivery env b run_id cid tp (h_blobs w) = (s', r)"
  shows "r = Inr True \<and> claimed env run_id w (w\<lparr>h_blobs := s'\<rparr>) \<or>
         r = Inr False \<and> s' = h_blobs w \<and> marker_there env run_id w \<or>
         r = Inl TransportError \<and> s' = h_blobs w \<or>
         r = Inl TransportError \<and> claimed env run_id w (w\<lparr>h_blobs := s'\<rparr>) \<and>
           ie_net env (ie_container env, result_marker_path run_id) = ReplyLost"
  using assms
  by (auto simp: claim_result_delivery_def put_blob_def upload_blob_def claimed_def marker_there_def
      split: if_splits transport.splits)

text \<open>
  What the orchestrator can rely on in the payload of the event of run \<open>x\<close>;
  \<open>evidence_typed\<close> are the types of its fields.
\<close>

definition evidence_typed :: "dict \<Rightarrow> bool" where
  "evidence_typed d \<longleftrightarrow>
     plain (JObj d) \<and> is_str (dget d ''status'') \<and> opt_string (dget d ''correlation_id'') \<and>
     opt_string (dget d ''traceparent'') \<and>
     (case dget d ''artifacts'' of JNull \<Rightarrow> True | JList xs \<Rightarrow> list_all is_dict xs | _ \<Rightarrow> False)"

definition sound_payload :: "string \<Rightarrow> dict \<Rightarrow> bool" where
  "sound_payload x d \<longleftrightarrow> dindex d ''run_id'' = Inr (JStr x) \<and> artifacts_ok d \<and> evidence_typed d"

inductive delivery_effect :: "intake_env \<Rightarrow> host \<Rightarrow> host \<Rightarrow> bool" for env where
  nothing: "delivery_effect env w w"
| raised: "claimed env run_id w w' \<Longrightarrow> h_raised w' = h_raised w @ [ev] \<Longrightarrow> re_name ev = run_event_name run_id \<Longrightarrow>
    lookup_batch_id env run_id (h_blobs w) = Inr (re_instance ev) \<Longrightarrow> re_instance ev \<noteq> JNull \<Longrightarrow>
    sound_payload run_id (re_payload ev) \<Longrightarrow>
    delivery_effect env w w'"
| refused: "claimed env run_id w w' \<Longrightarrow> h_raised w' = h_raised w \<Longrightarrow>
    re_name ev = run_event_name run_id \<and> ie_raise env ev = Inl e \<or>
    ie_net env (ie_container env, result_marker_path run_id) = ReplyLost \<Longrightarrow> delivery_effect env w w'"

inductive_cases delivery_effectE: "delivery_effect env w w'"

lemma raise_event_effect:
  assumes "claimed env run_id w w1" and "h_raised w1 = h_raised w" and "re_name ev = run_event_name run_id"
    and "lookup_batch_id env run_id (h_blobs w) = Inr (re_instance ev)" and "re_instance ev \<noteq> JNull"
    and "sound_payload run_id (re_payload ev)"
  shows "delivery_effect env w (fst (raise_event env ev w1))"
proof (cases "ie_raise env ev")
  case (Inl e)
  then show ?thesis using assms by (auto simp: raise_event_def intro: delivery_effect.refused)
next
  case (Inr u)
  have "claimed env run_id w (w1\<lparr>h_raised := h_raised w1 @ [ev]\<rparr>)"
    using assms(1) by (simp add: claimed_def)
  then show ?thesis using assms Inr
    by (auto simp: raise_event_def intro!: delivery_effect.raised)
qed

subsection \<open>Bodies as JSON text\<close>

lemma plain_optional [simp]: "plain (dump_opt_str x)" "plain (dump_opt_int n)"
  by (cases x; cases n; simp)+

lemma plain_artifacts [simp]: "plain (dump_artifacts as)"
  by (cases as) (auto simp: dump_artifact_def)

text \<open>The text of a dumped result or message reads back as it was.\<close>

lemma run_result_read [simp]: "json_loads pf (json_dumps (JObj (dump_run_result m))) = Some (JObj (dump_run_result m))"
  by (rule json_roundtrip) (simp add: dump_run_result_def)

lemma run_message_read [simp]: "json_loads pf (json_dumps (dump_run_message m)) = Some (dump_run_message m)"
  by (rule json_roundtrip) (auto simp: dump_run_message_def)

end
