(* ===== verification/IntakeLaws.thy ===== *)
theory IntakeLaws
  imports Intake
begin

text \<open>
  Both ways in have one effect on the shared state (\<open>delivery_effect\<close>), and that is all
  the guarantees about repeated deliveries need: the locale \<open>delivery_path\<close> states it,
  each handler and their mixture interpret it.
\<close>

lemma dump_artifacts_ok: "artifact_names (map dump_artifact as) = Inr (map JStr (filter (\<lambda>s. s \<noteq> []) (map ai_name as)))"
  by (induction as) (simp_all add: dump_artifact_def)

lemma opt_string_dump [simp]: "opt_string (dump_opt_str x)"
  by (cases x) simp_all

lemma artifact_dicts [simp]: "list_all is_dict (map dump_artifact as)"
  by (simp add: list_all_iff dump_artifact_def)

lemma plain_dumped [simp]: "\<forall>x \<in> set (map dump_artifact as). plain x"
  by (auto simp: dump_artifact_def)

lemma sb_payload_typed: "evidence_typed (sb_payload m tp)"
proof -
  have "case dump_artifacts (rm_artifacts m) of JNull \<Rightarrow> True | JList xs \<Rightarrow> list_all is_dict xs | _ \<Rightarrow> False"
    by (cases "rm_artifacts m") simp_all
  moreover have "plain (JObj (dump_run_result m))" by (simp add: dump_run_result_def)
  ultimately show ?thesis
    by (simp add: evidence_typed_def sb_payload_def dump_run_result_def dset_def)
qed

lemma http_payload_typed: "evidence_typed (http_payload x f cid tp)"
proof (cases "fr_artifacts f = None \<or> fr_artifacts f = Some []")
  case True
  then show ?thesis by (auto simp: evidence_typed_def http_payload_def dset_def Let_def)
next
  case False
  then obtain as where "fr_artifacts f = Some as" "as \<noteq> []" by auto
  then show ?thesis by (simp add: evidence_typed_def http_payload_def dset_def Let_def del: set_map)
qed

lemma sb_payload_sound: "sound_payload (rm_run_id m) (sb_payload m tp)"
  using sb_payload_typed[of m tp]
  by (cases "rm_artifacts m")
     (auto simp: sound_payload_def sb_payload_def dump_run_result_def artifacts_ok_def dset_def py_or_def dump_artifacts_ok
       simp del: map_map)

lemma http_payload_sound: "sound_payload x (http_payload x f cid tp)"
  using http_payload_typed[of x f cid tp]
  by (cases "fr_artifacts f")
     (auto simp: sound_payload_def http_payload_def artifacts_ok_def dset_def py_or_def dump_artifacts_ok Let_def
       simp del: map_map)

lemma sb_effect: "delivery_effect env w (fst (sb_result_handler env msg w))"
proof (cases "sb_accept env msg")
  case (Inl e)
  then show ?thesis by (simp add: sb_result_handler_def delivery_effect.nothing)
next
  case acc: (Inr m)
  show ?thesis
  proof (cases "\<exists>b. lookup_batch_id env (rm_run_id m) (h_blobs w) = Inr b \<and> b \<noteq> JNull")
    case False
    then show ?thesis
      by (auto simp: sb_result_handler_def acc delivery_effect.nothing split: sum.splits json.splits)
  next
    case True
    then obtain b where b: "lookup_batch_id env (rm_run_id m) (h_blobs w) = Inr b" "b \<noteq> JNull" by blast
    then have acct: "ie_account env \<noteq> []" by (auto simp: lookup_batch_id_def)
    define tp where "tp = snd (extract_trace_metadata (ie_decode_ignore env) [] (sb_props msg) (dump_run_result m))"
    obtain s' ok where cl: "claim_result_delivery env b (rm_run_id m) (rm_correlation_id m) tp (h_blobs w) = (s', ok)"
      by (cases "claim_result_delivery env b (rm_run_id m) (rm_correlation_id m) tp (h_blobs w)")
    have handler: "sb_result_handler env msg w =
       (case ok of Inl e \<Rightarrow> (w\<lparr>h_blobs := s'\<rparr>, Inl e)
        | Inr first \<Rightarrow> (if \<not> first then (w\<lparr>h_blobs := s'\<rparr>, Inr ())
            else raise_event env \<lparr>re_instance = b, re_name = run_event_name (rm_run_id m), re_payload = sb_payload m tp\<rparr>
               (w\<lparr>h_blobs := s'\<rparr>)))"
      using b cl by (cases b) (simp_all add: sb_result_handler_def acc tp_def Let_def split: sum.split)
    from claim_result_delivery_cases[OF acct cl] show ?thesis
      unfolding handler using b sb_payload_sound
      by (auto intro!: raise_event_effect[where run_id = "rm_run_id m"] intro: delivery_effect.nothing delivery_effect.refused)
  qed
qed

lemma http_effect: "delivery_effect env w (fst (http_patch_run env rq w))"
proof (cases "\<exists>d f b. pq_run_id rq \<noteq> [] \<and> (\<exists>body. pq_body rq = Some body \<and>
    normalize_completion_payload (ie_decode env) (ie_loads env) (RawValue body) = Inr d) \<and>
    validate_finish_run d = Inr f \<and> lookup_batch_id env (pq_run_id rq) (h_blobs w) = Inr b \<and> b \<noteq> JNull")
  case False
  then have "fst (http_patch_run env rq w) = w"
    by (auto simp: http_patch_run_def Let_def split: option.splits sum.splits json.splits)
  then show ?thesis by (simp add: delivery_effect.nothing)
next
  case True
  then obtain body d f b where req: "pq_run_id rq \<noteq> []" "pq_body rq = Some body"
    "normalize_completion_payload (ie_decode env) (ie_loads env) (RawValue body) = Inr d"
    "validate_finish_run d = Inr f" and b: "lookup_batch_id env (pq_run_id rq) (h_blobs w) = Inr b" "b \<noteq> JNull"
    by blast
  then have acct: "ie_account env \<noteq> []" by (auto simp: lookup_batch_id_def)
  obtain cid tp where tr: "extract_trace_metadata (ie_decode_ignore env) (pq_headers rq) [] d = (cid, tp)"
    by (cases "extract_trace_metadata (ie_decode_ignore env) (pq_headers rq) [] d")
  obtain s' ok where cl: "claim_result_delivery env b (pq_run_id rq) cid tp (h_blobs w) = (s', ok)"
    by (cases "claim_result_delivery env b (pq_run_id rq) cid tp (h_blobs w)")
  have handler: "fst (http_patch_run env rq w) =
     (case ok of Inl e \<Rightarrow> w\<lparr>h_blobs := s'\<rparr>
      | Inr first \<Rightarrow> (if \<not> first then w\<lparr>h_blobs := s'\<rparr>
          else fst (raise_event env \<lparr>re_instance = b, re_name = run_event_name (pq_run_id rq),
                 re_payload = http_payload (pq_run_id rq) f cid tp\<rparr> (w\<lparr>h_blobs := s'\<rparr>))))"
    using b cl by (cases b) (simp_all add: http_patch_run_def req tr Let_def split: sum.split)
  from claim_result_delivery_cases[OF acct cl] show ?thesis
    unfolding handler using b http_payload_sound
    by (auto intro!: raise_event_effect[where run_id = "pq_run_id rq"] intro: delivery_effect.nothing delivery_effect.refused)
qed

subsection \<open>What repeated deliveries come to\<close>

definition raised_for :: "string \<Rightarrow> host \<Rightarrow> nat" where
  "raised_for run_id w = length (filter (\<lambda>e. re_name e = run_event_name run_id) (h_raised w))"

definition once :: "intake_env \<Rightarrow> host \<Rightarrow> bool" where
  "once env w \<longleftrightarrow> (\<forall>r. raised_for r w \<le> (if marker_there env r w then 1 else 0))"

lemma run_event_name_inj [simp]: "run_event_name a = run_event_name b \<longleftrightarrow> a = b"
  by (simp add: run_event_name_def)

lemma claimed_markers: "claimed env run_id w w' \<Longrightarrow> marker_there env r w' \<longleftrightarrow> r = run_id \<or> marker_there env r w"
  by (auto simp: claimed_def marker_there_def)

lemma effect_cases:
  assumes "delivery_effect env w w'"
  obtains (nothing) "w' = w"
  | (raised) run_id ev where "claimed env run_id w w'" "h_raised w' = h_raised w @ [ev]"
      "re_name ev = run_event_name run_id" "lookup_batch_id env run_id (h_blobs w) = Inr (re_instance ev)"
      "re_instance ev \<noteq> JNull" "sound_payload run_id (re_payload ev)"
  | (refused) run_id ev e where "claimed env run_id w w'" "h_raised w' = h_raised w"
      "re_name ev = run_event_name run_id \<and> ie_raise env ev = Inl e \<or>
       ie_net env (ie_container env, result_marker_path run_id) = ReplyLost"
  using assms by (elim delivery_effectE) auto

lemma effect_markers: "delivery_effect env w w' \<Longrightarrow> marker_there env r w \<Longrightarrow> marker_there env r w'"
  by (elim delivery_effectE) (auto dest: claimed_markers)

lemma effect_raised_marked:
  assumes "delivery_effect env w w'" and "marker_there env r w"
  shows "raised_for r w' = raised_for r w"
  using assms(1)
proof (cases rule: effect_cases)
  case nothing
  then show ?thesis by simp
next
  case (raised run_id ev)
  have "run_id \<noteq> r" using raised(1) assms(2) by (auto simp: claimed_def)
  with raised show ?thesis by (simp add: raised_for_def)
next
  case (refused run_id ev e)
  then show ?thesis by (simp add: raised_for_def)
qed

lemma effect_once:
  assumes "delivery_effect env w w'" and "once env w"
  shows "once env w'"
  using assms(1)
proof (cases rule: effect_cases)
  case nothing
  with assms(2) show ?thesis by simp
next
  case (raised run_id ev)
  have zero: "raised_for run_id w = 0"
    using assms(2) raised(1) by (auto simp: once_def claimed_def dest: spec[of _ run_id])
  show ?thesis unfolding once_def
  proof
    fix r
    have "raised_for r w' = raised_for r w + (if r = run_id then 1 else 0)"
      using raised(2,3) by (simp add: raised_for_def)
    with zero assms(2) claimed_markers[OF raised(1), of r]
    show "raised_for r w' \<le> (if marker_there env r w' then 1 else 0)"
      by (auto simp: once_def dest: spec[of _ r] split: if_splits)
  qed
next
  case (refused run_id ev e)
  show ?thesis unfolding once_def
  proof
    fix r
    have "raised_for r w' = raised_for r w" using refused(2) by (simp add: raised_for_def)
    moreover have "raised_for r w \<le> (if marker_there env r w then 1 else 0)" using assms(2) by (simp add: once_def)
    ultimately show "raised_for r w' \<le> (if marker_there env r w' then 1 else 0)"
      using claimed_markers[OF refused(1), of r] by (auto split: if_splits)
  qed
qed

text \<open>
  The network and the answers of the Durable client may be others for each delivery.
\<close>

abbreviation under :: "intake_env \<Rightarrow> network \<Rightarrow> (raised_event \<Rightarrow> unit result) \<Rightarrow> intake_env" where
  "under env net r \<equiv> env\<lparr>ie_net := net, ie_raise := r\<rparr>"

lemma conditions_irrelevant [simp]:
  "marker_there (env\<lparr>ie_raise := r\<rparr>) x w = marker_there env x w" "marker_there (env\<lparr>ie_net := net\<rparr>) x w = marker_there env x w"
  "claimed (env\<lparr>ie_raise := r\<rparr>) x w w' = claimed env x w w'" "claimed (env\<lparr>ie_net := net\<rparr>) x w w' = claimed env x w w'"
  "once (env\<lparr>ie_raise := r\<rparr>) w = once env w" "once (env\<lparr>ie_net := net\<rparr>) w = once env w"
  by (simp_all add: marker_there_def claimed_def once_def)

locale delivery_path =
  fixes env :: intake_env and deliver :: "'q \<Rightarrow> host \<Rightarrow> host"
  assumes effect: "\<exists>net r. delivery_effect (under env net r) w (deliver q w)"
begin

lemma keeps_marker: "marker_there env x w \<Longrightarrow> marker_there env x (deliver q w)"
  using effect[of w q] effect_markers[of "under env net r" for net r] by fastforce

lemma keeps_once_step: "once env w \<Longrightarrow> once env (deliver q w)"
  using effect[of w q] effect_once[of "under env net r" for net r] by fastforce

lemma drops: "marker_there env x w \<Longrightarrow> raised_for x (deliver q w) = raised_for x w"
  using effect[of w q] effect_raised_marked[of "under env net r" for net r] by fastforce

lemma keeps_once: "once env w \<Longrightarrow> once env (fold deliver qs w)"
  by (induction qs arbitrary: w) (auto intro: keeps_once_step)

lemma keeps_markers: "marker_there env r w \<Longrightarrow> marker_there env r (fold deliver qs w)"
  by (induction qs arbitrary: w) (auto intro: keeps_marker)

lemma marked_is_dropped: "marker_there env r w \<Longrightarrow> raised_for r (fold deliver qs w) = raised_for r w"
proof (induction qs arbitrary: w)
  case (Cons q qs)
  have "raised_for r (fold deliver qs (deliver q w)) = raised_for r (deliver q w)"
    using Cons.prems by (intro Cons.IH keeps_marker)
  also have "\<dots> = raised_for r w" using Cons.prems by (rule drops)
  finally show ?case by simp
qed simp

lemma at_most_once: "h_raised w = [] \<Longrightarrow> raised_for r (fold deliver qs w) \<le> 1"
proof -
  assume "h_raised w = []"
  then have "once env w" by (simp add: once_def raised_for_def)
  then have "once env (fold deliver qs w)" by (rule keeps_once)
  then have "raised_for r (fold deliver qs w) \<le> (if marker_there env r (fold deliver qs w) then 1 else 0)"
    by (simp add: once_def)
  then show ?thesis by (simp split: if_splits)
qed

end

datatype ingress = ViaServiceBus sb_message | ViaHttp patch_request

fun deliver_result :: "intake_env \<Rightarrow> ingress \<Rightarrow> host \<Rightarrow> host" where
  "deliver_result env (ViaServiceBus m) w = fst (sb_result_handler env m w)"
| "deliver_result env (ViaHttp q) w = fst (http_patch_run env q w)"

lemma deliver_effect_of: "delivery_effect env w (deliver_result env q w)"
  by (cases q) (simp_all add: sb_effect http_effect)

lemma conditions_exist: "delivery_effect env w w' \<Longrightarrow> \<exists>net r. delivery_effect (under env net r) w w'"
  by (rule exI[of _ "ie_net env"], rule exI[of _ "ie_raise env"]) simp

interpretation service_bus: delivery_path env "\<lambda>m w. fst (sb_result_handler env m w)" for env
  by unfold_locales (rule conditions_exist[OF sb_effect])

interpretation http: delivery_path env "\<lambda>q w. fst (http_patch_run env q w)" for env
  by unfold_locales (rule conditions_exist[OF http_effect])

interpretation intake: delivery_path env "deliver_result env" for env
  by unfold_locales (rule conditions_exist[OF deliver_effect_of])

text \<open>A delivery with the conditions it happens under.\<close>

type_synonym attempt = "network \<times> (raised_event \<Rightarrow> unit result) \<times> ingress"

fun attempt_result :: "intake_env \<Rightarrow> attempt \<Rightarrow> host \<Rightarrow> host" where
  "attempt_result env (net, r, q) w = deliver_result (under env net r) q w"

lemma attempt_over [simp]: "attempt_result (env\<lparr>ie_net := n\<rparr>) = attempt_result env"
proof (intro ext)
  fix a w
  show "attempt_result (env\<lparr>ie_net := n\<rparr>) a w = attempt_result env a w" by (cases a) simp
qed

interpretation attempts: delivery_path env "attempt_result env" for env
proof
  fix w and a :: attempt
  obtain net r q where "a = (net, r, q)" by (cases a)
  then show "\<exists>net r. delivery_effect (under env net r) w (attempt_result env a w)"
    using deliver_effect_of[of "under env net r" w q] by auto
qed

text \<open>Looking a run up, accepting a body and the marker do not depend on the Durable client.\<close>

lemma env_raise [simp]:
  "ie_account (env\<lparr>ie_raise := r\<rparr>) = ie_account env" "ie_container (env\<lparr>ie_raise := r\<rparr>) = ie_container env"
  "ie_decode (env\<lparr>ie_raise := r\<rparr>) = ie_decode env" "ie_loads (env\<lparr>ie_raise := r\<rparr>) = ie_loads env"
  by (simp_all add: ie_loads_def)

lemma env_net [simp]:
  "ie_account (env\<lparr>ie_net := n\<rparr>) = ie_account env" "ie_container (env\<lparr>ie_net := n\<rparr>) = ie_container env"
  "ie_decode (env\<lparr>ie_net := n\<rparr>) = ie_decode env" "ie_loads (env\<lparr>ie_net := n\<rparr>) = ie_loads env"
  by (simp_all add: ie_loads_def)

lemma raise_irrelevant [simp]:
  "lookup_batch_id (env\<lparr>ie_raise := r\<rparr>) x s = lookup_batch_id env x s"
  "sb_accept (env\<lparr>ie_raise := r\<rparr>) msg = sb_accept env msg" "sb_accept (env\<lparr>ie_net := n\<rparr>) msg = sb_accept env msg"
  unfolding lookup_batch_id_def sb_accept_def env_raise env_net by simp_all

subsection \<open>A delivery that is let in\<close>

lemma validate_finish_of_result:
  "validate_finish_run (dump_run_result m) =
     Inr \<lparr>fr_status = rm_status m, fr_duration_ms = rm_duration_ms m, fr_tokens_prompt = rm_tokens_prompt m,
          fr_tokens_completion = rm_tokens_completion m, fr_error_message = rm_error_message m,
          fr_correlation_id = Some (rm_correlation_id m), fr_traceparent = rm_traceparent m,
          fr_artifacts = rm_artifacts m\<rparr>"
  by (cases "rm_error_message m"; cases "rm_traceparent m"; cases "rm_artifacts m")
     (simp_all add: validate_finish_run_def dump_run_result_def req_str_def req_int_def opt_str_def
       opt_artifacts_def validate_dump_artifacts)

definition claim_answered :: "intake_env \<Rightarrow> string \<Rightarrow> bool" where
  "claim_answered env run_id \<longleftrightarrow> ie_net env (ie_container env, result_marker_path run_id) = Answered"

lemma fresh_claim:
  assumes "ie_account env \<noteq> []" and "\<not> marker_there env run_id w" and "claim_answered env run_id"
  shows "claim_result_delivery env b run_id cid tp (h_blobs w) =
    ((h_blobs w)((ie_container env, result_marker_path run_id) \<mapsto> json_dumps (claim_marker b run_id cid tp)), Inr True)"
  using assms by (simp add: claim_result_delivery_def put_blob_def upload_blob_def marker_there_def claim_answered_def)

lemma sb_let_in:
  assumes "sb_accept env msg = Inr m" and "lookup_batch_id env (rm_run_id m) (h_blobs w) = Inr b" and "b \<noteq> JNull"
    and "\<not> marker_there env (rm_run_id m) w" and "claim_answered env (rm_run_id m)"
    and "tp = snd (extract_trace_metadata (ie_decode_ignore env) [] (sb_props msg) (dump_run_result m))"
  shows "sb_result_handler env msg w =
    raise_event env \<lparr>re_instance = b, re_name = run_event_name (rm_run_id m), re_payload = sb_payload m tp\<rparr>
      (w\<lparr>h_blobs := (h_blobs w)((ie_container env, result_marker_path (rm_run_id m)) \<mapsto>
          json_dumps (claim_marker b (rm_run_id m) (rm_correlation_id m) tp))\<rparr>)"
proof -
  have "ie_account env \<noteq> []" using assms(2,3) by (auto simp: lookup_batch_id_def)
  from fresh_claim[OF this assms(4,5)] assms(1-3) show ?thesis
    by (cases b) (simp_all add: sb_result_handler_def assms(6) Let_def)
qed

lemma lookup_other_blob: "k \<noteq> (ie_container env, run_index_path x) \<Longrightarrow> lookup_batch_id env x (s(k \<mapsto> v)) = lookup_batch_id env x s"
  unfolding lookup_batch_id_def get_blob_def download_blob_def by auto

text \<open>A run that is found over some network is found over any that answers.\<close>

lemma lookup_over:
  assumes "lookup_batch_id env x s = Inr b" and "net (ie_container env, run_index_path x) = Answered"
  shows "lookup_batch_id (env\<lparr>ie_net := net\<rparr>) x s = Inr b"
  using assms unfolding lookup_batch_id_def env_net get_blob_def by (auto split: if_splits)

lemma sb_dropped:
  assumes "sb_accept env msg = Inr m" and "lookup_batch_id env (rm_run_id m) (h_blobs w) = Inr b" and "b \<noteq> JNull"
    and "marker_there env (rm_run_id m) w" and "claim_answered env (rm_run_id m)"
  shows "sb_result_handler env msg w = (w, Inr ())"
  using assms by (cases b)
    (auto simp: sb_result_handler_def claim_result_delivery_def lookup_batch_id_def put_blob_def upload_blob_def marker_there_def
      claim_answered_def Let_def)

text \<open>A claim whose answer is lost: the marker is there, the handler ends with the exception.\<close>

lemma sb_claim_lost:
  assumes "sb_accept env msg = Inr m" and "lookup_batch_id env (rm_run_id m) (h_blobs w) = Inr b" and "b \<noteq> JNull"
    and "\<not> marker_there env (rm_run_id m) w" and "ie_net env (ie_container env, result_marker_path (rm_run_id m)) = ReplyLost"
  shows "snd (sb_result_handler env msg w) = Inl TransportError" and "h_raised (fst (sb_result_handler env msg w)) = h_raised w"
    and "marker_there env (rm_run_id m) (fst (sb_result_handler env msg w))"
proof -
  have "ie_account env \<noteq> []" using assms(2,3) by (auto simp: lookup_batch_id_def)
  then have "claim_result_delivery env b (rm_run_id m) cid tp (h_blobs w) =
      ((h_blobs w)((ie_container env, result_marker_path (rm_run_id m)) \<mapsto> json_dumps (claim_marker b (rm_run_id m) cid tp)),
       Inl TransportError)" for cid tp
    using assms(4,5) by (simp add: claim_result_delivery_def put_blob_def upload_blob_def marker_there_def)
  with assms(1-3) show "snd (sb_result_handler env msg w) = Inl TransportError" "h_raised (fst (sb_result_handler env msg w)) = h_raised w"
    "marker_there env (rm_run_id m) (fst (sb_result_handler env msg w))"
    by (cases b; simp add: sb_result_handler_def marker_there_def Let_def)+
qed

lemma http_let_in:
  assumes "pq_run_id rq \<noteq> []" and "pq_body rq = Some body"
    and "normalize_completion_payload (ie_decode env) (ie_loads env) (RawValue body) = Inr d"
    and "validate_finish_run d = Inr f"
    and "lookup_batch_id env (pq_run_id rq) (h_blobs w) = Inr b" and "b \<noteq> JNull"
    and "\<not> marker_there env (pq_run_id rq) w" and "claim_answered env (pq_run_id rq)"
    and "extract_trace_metadata (ie_decode_ignore env) (pq_headers rq) [] d = (cid, tp)"
  shows "http_patch_run env rq w =
    map_prod id (map_sum id (\<lambda>_. \<lparr>hr_status = 202, hr_body = []\<rparr>))
      (raise_event env \<lparr>re_instance = b, re_name = run_event_name (pq_run_id rq),
         re_payload = http_payload (pq_run_id rq) f cid tp\<rparr>
      (w\<lparr>h_blobs := (h_blobs w)((ie_container env, result_marker_path (pq_run_id rq)) \<mapsto>
          json_dumps (claim_marker b (pq_run_id rq) cid tp))\<rparr>))"
proof -
  have "ie_account env \<noteq> []" using assms(5,6) by (auto simp: lookup_batch_id_def)
  from fresh_claim[OF this assms(7,8)] assms show ?thesis
    by (cases b) (simp_all add: http_patch_run_def Let_def)
qed

text \<open>The trace metadata of a message without carriers of its own, and the two payloads.\<close>

lemma trace_of_result:
  assumes "extract_trace_metadata dec [] [] (dump_run_result m) = (cid, tp)"
  shows "cid = rm_correlation_id m" and "tp = (case rm_traceparent m of None \<Rightarrow> [] | Some t \<Rightarrow> t)"
  using assms
  by (cases "rm_traceparent m"; cases "rm_correlation_id m = []";
      auto simp: extract_trace_metadata_def prop_get_def dump_run_result_def split: if_splits)+

lemma payloads_untraced:
  assumes "k \<noteq> ''correlation_id''" and "k \<noteq> ''traceparent''"
  shows "py_or (dget (sb_payload m tp) k) JNull =
      py_or (dget (http_payload (rm_run_id m) \<lparr>fr_status = rm_status m, fr_duration_ms = rm_duration_ms m,
          fr_tokens_prompt = rm_tokens_prompt m,
          fr_tokens_completion = rm_tokens_completion m, fr_error_message = rm_error_message m,
          fr_correlation_id = Some (rm_correlation_id m), fr_traceparent = rm_traceparent m,
          fr_artifacts = rm_artifacts m\<rparr> cid tp') k) JNull"
  using assms
  by (cases "rm_artifacts m") (auto simp: sb_payload_def http_payload_def dump_run_result_def py_or_def Let_def)

lemma payload_traces:
  "dget (sb_payload m tp) ''correlation_id'' = JStr (rm_correlation_id m)"
  "dget (http_payload x f cid tp) ''correlation_id'' = JStr cid"
  "tp \<noteq> [] \<Longrightarrow> dget (sb_payload m tp) ''traceparent'' = JStr tp"
  "tp \<noteq> [] \<Longrightarrow> dget (http_payload x f cid tp) ''traceparent'' = JStr tp"
  by (simp_all add: sb_payload_def http_payload_def dump_run_result_def Let_def)

lemma payloads_agree:
  assumes "tp = (case rm_traceparent m of None \<Rightarrow> [] | Some t \<Rightarrow> t)"
  shows "py_or (dget (sb_payload m tp) k) JNull =
      py_or (dget (http_payload (rm_run_id m) \<lparr>fr_status = rm_status m, fr_duration_ms = rm_duration_ms m,
          fr_tokens_prompt = rm_tokens_prompt m,
          fr_tokens_completion = rm_tokens_completion m, fr_error_message = rm_error_message m,
          fr_correlation_id = Some (rm_correlation_id m), fr_traceparent = rm_traceparent m,
          fr_artifacts = rm_artifacts m\<rparr> (rm_correlation_id m) tp) k) JNull"
  using assms
  by (cases "rm_traceparent m"; cases "rm_artifacts m")
     (auto simp: sb_payload_def http_payload_def dump_run_result_def py_or_def Let_def)

end
