(* ===== verification/IntakeProperties.thy ===== *)
theory IntakeProperties
  imports IntakeLaws
begin

text \<open>The properties of the result intake, applied to one result of one known run.\<close>

definition demo_message :: run_result_message where
  "demo_message = \<lparr>rm_run_id = ''r1'', rm_status = ''Succeeded'', rm_duration_ms = 5, rm_tokens_prompt = 1,
     rm_tokens_completion = 2, rm_error_message = None, rm_correlation_id = ''c'', rm_traceparent = None,
     rm_artifacts = Some []\<rparr>"

definition demo_env :: intake_env where
  "demo_env = \<lparr>ie_account = ''acct'', ie_container = ''batch-results'', ie_net = reliable, ie_decode = Some, ie_decode_ignore = (\<lambda>s. s),
     ie_float = (\<lambda>t. None), ie_raise = (\<lambda>ev. Inr ()), ie_explain = (\<lambda>d. [])\<rparr>"

definition demo_host :: host where
  "demo_host = \<lparr>h_blobs = [(''batch-results'', run_index_path ''r1'') \<mapsto> json_dumps (JObj [(''batchId'', JStr ''b1'')])], h_raised = []\<rparr>"

definition demo_sb :: sb_message where "demo_sb = \<lparr>sb_body = json_dumps (JObj (dump_run_result demo_message)), sb_props = []\<rparr>"

definition demo_patch :: patch_request where
  "demo_patch = \<lparr>pq_run_id = ''r1'', pq_body = Some (JObj (dump_run_result demo_message)), pq_headers = []\<rparr>"

lemma demo_accepted: "sb_accept demo_env demo_sb = Inr demo_message"
  using run_result_accepts[of demo_message]
  by (simp add: sb_accept_def demo_env_def demo_sb_def normalize_completion_payload_def ie_loads_def)

lemma demo_known: "lookup_batch_id demo_env ''r1'' (h_blobs demo_host) = Inr (JStr ''b1'')"
  by (simp add: lookup_batch_id_def demo_env_def demo_host_def download_blob_def ie_loads_def)

lemma demo_answered: "claim_answered demo_env x"
  by (simp add: claim_answered_def demo_env_def)

lemma demo_unmarked: "\<not> marker_there demo_env ''r1'' demo_host"
  by (simp add: marker_there_def demo_env_def demo_host_def)

text \<open>C18: whatever arrives over Service Bus and HTTP, in any order, as often as the
  transports redeliver, and whatever becomes of each call to the container and to the Durable
  client, the event of one run is raised at most once.\<close>

theorem results_raised_at_most_once:
  "raised_for x (fold (attempt_result env) qs \<lparr>h_blobs = s, h_raised = []\<rparr>) \<le> 1"
  by (rule attempts.at_most_once) simp

text \<open>C19: both paths have one effect up to their trace carriers: the first delivery of a known
  run, as a Service Bus message or as the HTTP request with the same body, claims the run with a
  marker at the same path and raises the same event on the owning batch, with payloads that agree
  on every field but the correlation id and the traceparent. The correlation id is that of the
  body by Service Bus and the extracted one by HTTP; the traceparents are what the extraction makes of the
  message properties and of the request headers, with the body behind them. Without trace properties and headers, or when both carry one correlation id and one
  traceparent, the markers are equal and the payloads agree on every field; a falsy value (an
  empty artifact list, an empty traceparent) may read as missing.\<close>

theorem both_paths_one_effect:
  assumes "sb_accept env msg = Inr m" and "rm_run_id m \<noteq> []"
    and "pq_run_id rq = rm_run_id m" and "pq_body rq = Some (JObj (dump_run_result m))"
    and "lookup_batch_id env (rm_run_id m) (h_blobs w) = Inr b" and "b \<noteq> JNull"
    and "\<not> marker_there env (rm_run_id m) w" and "claim_answered env (rm_run_id m)" and "\<And>ev. ie_raise env ev = Inr ()"
    and tp1: "tp1 = snd (extract_trace_metadata (ie_decode_ignore env) [] (sb_props msg) (dump_run_result m))"
    and tp2: "extract_trace_metadata (ie_decode_ignore env) (pq_headers rq) [] (dump_run_result m) = (cid, tp2)"
    and k: "k = (ie_container env, result_marker_path (rm_run_id m))"
  shows "\<exists>e1 e2. h_raised (fst (sb_result_handler env msg w)) = h_raised w @ [e1] \<and>
    h_raised (fst (http_patch_run env rq w)) = h_raised w @ [e2] \<and>
    h_blobs (fst (sb_result_handler env msg w)) =
      (h_blobs w)(k \<mapsto> json_dumps (claim_marker b (rm_run_id m) (rm_correlation_id m) tp1)) \<and>
    h_blobs (fst (http_patch_run env rq w)) = (h_blobs w)(k \<mapsto> json_dumps (claim_marker b (rm_run_id m) cid tp2)) \<and>
    re_instance e1 = b \<and> re_instance e2 = b \<and> re_name e1 = run_event_name (rm_run_id m) \<and> re_name e2 = re_name e1 \<and>
    (\<forall>f. f \<noteq> ''correlation_id'' \<and> f \<noteq> ''traceparent'' \<longrightarrow>
       py_or (dget (re_payload e1) f) JNull = py_or (dget (re_payload e2) f) JNull) \<and>
    (sb_props msg = [] \<and> pq_headers rq = [] \<or> cid = rm_correlation_id m \<and> tp1 = tp2 \<and> tp1 \<noteq> [] \<longrightarrow>
       h_blobs (fst (sb_result_handler env msg w)) = h_blobs (fst (http_patch_run env rq w)) \<and>
       (\<forall>f. py_or (dget (re_payload e1) f) JNull = py_or (dget (re_payload e2) f) JNull))"
proof -
  let ?f = "\<lparr>fr_status = rm_status m, fr_duration_ms = rm_duration_ms m, fr_tokens_prompt = rm_tokens_prompt m,
    fr_tokens_completion = rm_tokens_completion m, fr_error_message = rm_error_message m,
    fr_correlation_id = Some (rm_correlation_id m), fr_traceparent = rm_traceparent m, fr_artifacts = rm_artifacts m\<rparr>"
  let ?p1 = "sb_payload m tp1" and ?p2 = "http_payload (rm_run_id m) ?f cid tp2"
  have norm: "normalize_completion_payload (ie_decode env) (ie_loads env) (RawValue (JObj (dump_run_result m))) = Inr (dump_run_result m)"
    using run_result_accepts[of m] by (simp add: normalize_completion_payload_def)
  note sb = sb_let_in[OF assms(1,5,6,7,8) tp1]
  note http = http_let_in[OF assms(2)[folded assms(3)] assms(4) norm validate_finish_of_result
      assms(5)[folded assms(3)] assms(6) assms(7)[folded assms(3)] assms(8)[folded assms(3)] tp2]
  have same: "cid = rm_correlation_id m \<and> tp1 = tp2 \<and> (\<forall>f. py_or (dget ?p1 f) JNull = py_or (dget ?p2 f) JNull)"
    if "sb_props msg = [] \<and> pq_headers rq = [] \<or> cid = rm_correlation_id m \<and> tp1 = tp2 \<and> tp1 \<noteq> []"
    using that
  proof
    assume "sb_props msg = [] \<and> pq_headers rq = []"
    with tp1 tp2 have "extract_trace_metadata (ie_decode_ignore env) [] [] (dump_run_result m) = (cid, tp2)" "tp1 = tp2" by simp_all
    with trace_of_result[OF this(1)] payloads_agree[of tp2 m] show ?thesis by simp
  next
    assume t: "cid = rm_correlation_id m \<and> tp1 = tp2 \<and> tp1 \<noteq> []"
    have "py_or (dget ?p1 f) JNull = py_or (dget ?p2 f) JNull" for f
      using t payload_traces payloads_untraced[of f m tp1 cid tp2]
      by (cases "f = ''correlation_id'' \<or> f = ''traceparent''") auto
    with t show ?thesis by simp
  qed
  show ?thesis
  proof (cases "sb_props msg = [] \<and> pq_headers rq = [] \<or> cid = rm_correlation_id m \<and> tp1 = tp2 \<and> tp1 \<noteq> []")
    case True
    note c = conjunct1[OF same[OF True]] conjunct1[OF conjunct2[OF same[OF True]]]
    note agree = conjunct2[OF conjunct2[OF same[OF True]], rule_format]
    show ?thesis
      unfolding sb http raise_event_def using assms(3,9) by (simp add: k c agree[unfolded c])
  next
    case False
    show ?thesis
      unfolding sb http raise_event_def using assms(3,9) by (simp add: k payloads_untraced) (use False in blast)
  qed
qed

theorem both_paths_one_effect_witness:
  "\<exists>e1 e2. h_raised (fst (sb_result_handler demo_env demo_sb demo_host)) = [e1] \<and>
     h_raised (fst (http_patch_run demo_env demo_patch demo_host)) = [e2] \<and>
     h_blobs (fst (sb_result_handler demo_env demo_sb demo_host)) = h_blobs (fst (http_patch_run demo_env demo_patch demo_host)) \<and>
     py_or (dget (re_payload e1) ''status'') JNull = py_or (dget (re_payload e2) ''status'') JNull"
proof -
  have id: "rm_run_id demo_message = ''r1''" by (simp add: demo_message_def)
  have shape: "pq_run_id demo_patch = ''r1''" "pq_body demo_patch = Some (JObj (dump_run_result demo_message))"
    "sb_props demo_sb = []" "pq_headers demo_patch = []" "h_raised demo_host = []"
    by (simp_all add: demo_patch_def demo_sb_def demo_host_def)
  have ok: "ie_raise demo_env ev = Inr ()" for ev by (simp add: demo_env_def)
  obtain cid tp where tr: "extract_trace_metadata (ie_decode_ignore demo_env) (pq_headers demo_patch) [] (dump_run_result demo_message) = (cid, tp)"
    by (metis surj_pair)
  from both_paths_one_effect[OF demo_accepted, of demo_patch demo_host "JStr ''b1''", unfolded id shape, OF _ _ _ demo_known _ demo_unmarked
      demo_answered ok refl tr[unfolded shape] refl] show ?thesis by simp blast
qed

text \<open>C20: a delivery that claims its run and does not come to raise the event, because the
  client refuses it or because only the answer to the claim is lost, loses the result: the
  handler ends with the exception, so the transport redelivers, and every later delivery of that
  run, on either path, over any network and with any client, is dropped as a duplicate.\<close>

theorem failed_raise_loses_result:
  assumes "sb_accept env msg = Inr m" and "lookup_batch_id env (rm_run_id m) (h_blobs w) = Inr b" and "b \<noteq> JNull"
    and "\<not> marker_there env (rm_run_id m) w"
    and lost: "claim_answered env (rm_run_id m) \<and> (\<forall>ev. ie_raise env ev = Inl TransportError) \<or>
      ie_net env (ie_container env, result_marker_path (rm_run_id m)) = ReplyLost"
  shows "snd (sb_result_handler env msg w) = Inl TransportError \<and>
    raised_for (rm_run_id m) (fold (attempt_result env) qs (fst (sb_result_handler env msg w))) = raised_for (rm_run_id m) w"
proof -
  let ?w1 = "fst (sb_result_handler env msg w)"
  have "snd (sb_result_handler env msg w) = Inl TransportError \<and> marker_there env (rm_run_id m) ?w1 \<and> h_raised ?w1 = h_raised w"
    using lost
  proof
    assume l: "claim_answered env (rm_run_id m) \<and> (\<forall>ev. ie_raise env ev = Inl TransportError)"
    from sb_let_in[OF assms(1-4) conjunct1[OF l] refl] l show ?thesis by (simp add: raise_event_def marker_there_def)
  next
    assume "ie_net env (ie_container env, result_marker_path (rm_run_id m)) = ReplyLost"
    from sb_claim_lost[OF assms(1-4) this] show ?thesis by blast
  qed
  with attempts.marked_is_dropped[of env "rm_run_id m" ?w1 qs] show ?thesis by (simp add: raised_for_def)
qed

theorem failed_raise_loses_result_witness:
  "raised_for ''r1'' (fold (attempt_result demo_env) [(reliable, \<lambda>ev. Inr (), ViaServiceBus demo_sb), (reliable, \<lambda>ev. Inr (), ViaHttp demo_patch)]
      (fst (sb_result_handler (demo_env\<lparr>ie_net := (\<lambda>k. if k = (''batch-results'', result_marker_path ''r1'') then ReplyLost else Answered)\<rparr>)
        demo_sb demo_host))) = 0"
proof -
  let ?net = "\<lambda>k. if k = (''batch-results'', result_marker_path ''r1'') then ReplyLost else Answered"
  let ?env = "demo_env\<lparr>ie_net := ?net\<rparr>"
  have "sb_accept ?env demo_sb = Inr demo_message" using demo_accepted by simp
  moreover have id: "rm_run_id demo_message = ''r1''" by (simp add: demo_message_def)
  moreover have "lookup_batch_id ?env ''r1'' (h_blobs demo_host) = Inr (JStr ''b1'')"
    by (rule lookup_over[OF demo_known]) (simp add: demo_env_def)
  moreover have "\<not> marker_there ?env ''r1'' demo_host" using demo_unmarked by simp
  moreover have "ie_net ?env (ie_container ?env, result_marker_path ''r1'') = ReplyLost" by (simp add: demo_env_def)
  ultimately have "raised_for ''r1'' (fold (attempt_result demo_env) [(reliable, \<lambda>ev. Inr (), ViaServiceBus demo_sb), (reliable, \<lambda>ev. Inr (), ViaHttp demo_patch)]
      (fst (sb_result_handler ?env demo_sb demo_host))) = raised_for ''r1'' demo_host"
    using failed_raise_loses_result[of ?env demo_sb demo_message demo_host "JStr ''b1''"
        "[(reliable, \<lambda>ev. Inr (), ViaServiceBus demo_sb), (reliable, \<lambda>ev. Inr (), ViaHttp demo_patch)]"] by simp
  then show ?thesis by (simp add: raised_for_def demo_host_def)
qed

text \<open>
  A result for a run the platform never dispatched changes nothing: Service Bus acknowledges and
  drops it, the HTTP path answers 404 to a well-formed request.
\<close>

lemma unknown_run_is_dropped:
  assumes "sb_accept env msg = Inr m" and "lookup_batch_id env (rm_run_id m) (h_blobs w) = Inr JNull"
    and "pq_run_id rq = rm_run_id m" and "rm_run_id m \<noteq> []" and "pq_body rq = Some (JObj (dump_run_result m))"
  shows "sb_result_handler env msg w = (w, Inr ()) \<and>
    http_patch_run env rq w = (w, Inr \<lparr>hr_status = 404, hr_body = ''unknown run_id''\<rparr>)"
proof -
  have "normalize_completion_payload (ie_decode env) (ie_loads env) (RawValue (JObj (dump_run_result m))) = Inr (dump_run_result m)"
    using run_result_accepts[of m] by (simp add: normalize_completion_payload_def)
  with assms show ?thesis
    by (simp add: sb_result_handler_def http_patch_run_def validate_finish_of_result Let_def)
qed

end
