(* ===== verification/Finalize.thy ===== *)
theory Finalize
  imports Orchestrator Aggregation Storage
begin

text \<open>
  \<^verbatim>\<open>finalize_batch\<close>, \<^verbatim>\<open>_aggregate\<close> and
  \<^verbatim>\<open>_read_output_artifact\<close> of \<^verbatim>\<open>orchestrator/functions/fanout/__init__.py\<close>:
  the activity that groups the results by application, orders the runs, aggregates the outputs
  of the succeeded ones and stores the final document.
\<close>

subsection \<open>Reading one output artifact\<close>

text \<open>
  \<open>fz_fetch\<close> downloads the blob at a URI as text, with any exception as an error;
  \<open>fz_float\<close> reads the text of a float; \<open>fz_set_iter\<close> is the iteration order of a set of strings; \<open>fz_text\<close> is the
  decimal text of a float.
\<close>

record run_payload =
  rp_runId :: json
  rp_runIndex :: nat
  rp_documentId :: string
  rp_status :: json
  rp_durationMs :: json
  rp_tokensPrompt :: json
  rp_tokensCompletion :: json
  rp_correlationId :: json
  rp_traceparent :: json
  rp_artifacts :: json
  rp_errorMessage :: json

record cv_block =
  cb_applicationId :: string
  cb_documentId :: string
  cb_runs :: "run_payload list"
  cb_aggregated :: "cv_aggregate option"
  cb_error :: "json option"

record finalize_env =
  fz_container :: string
  fz_net :: network
  fz_fetch :: "json \<Rightarrow> string result"
  fz_float :: "string \<Rightarrow> json option"
  fz_set_iter :: "string list \<Rightarrow> string list"
  fz_text :: "rat \<Rightarrow> string"

definition fz_raw_decode :: "finalize_env \<Rightarrow> string \<Rightarrow> json option" where
  "fz_raw_decode env = raw_decode (fz_float env)"

definition lstrip :: "string \<Rightarrow> string" where
  "lstrip s = dropWhile py_space s"

definition ends_with :: "string \<Rightarrow> string \<Rightarrow> bool" where
  "ends_with suffix s \<longleftrightarrow> drop (length s - length suffix) s = suffix"

fun is_output_json :: "json \<Rightarrow> bool" where
  "is_output_json (JObj d) \<longleftrightarrow> dget d ''name'' = JStr ''output.json'' \<and> truthy (dget d ''blob_uri'')"
| "is_output_json _ \<longleftrightarrow> False"

fun is_json_artifact :: "json \<Rightarrow> bool" where
  "is_json_artifact (JObj d) \<longleftrightarrow>
     (case dget d ''name'' of JStr s \<Rightarrow> ends_with ''.json'' (lower s) | _ \<Rightarrow> False) \<and> truthy (dget d ''blob_uri'')"
| "is_json_artifact _ \<longleftrightarrow> False"

definition select_artifact :: "json list \<Rightarrow> json option" where
  "select_artifact items =
     (case List.find is_output_json items of Some a \<Rightarrow> Some a | None \<Rightarrow> List.find is_json_artifact items)"

definition read_output_artifact :: "finalize_env \<Rightarrow> json list \<Rightarrow> dict option" where
  "read_output_artifact env items =
     (case select_artifact items of
        Some (JObj a) \<Rightarrow>
          (case fz_fetch env (dget a ''blob_uri'') of
             Inl e \<Rightarrow> None
           | Inr text \<Rightarrow> (case fz_raw_decode env (lstrip text) of
                 Some (JObj d) \<Rightarrow> Some d
               | _ \<Rightarrow> None))
      | _ \<Rightarrow> None)"

lemma is_output_jsonE:
  assumes "is_output_json b"
  obtains d where "b = JObj d" "dget d ''name'' = JStr ''output.json''" "truthy (dget d ''blob_uri'')"
  using assms by (cases b) simp_all

subsection \<open>Aggregating the runs of one application\<close>

definition source_artifacts :: "json list \<Rightarrow> json list" where
  "source_artifacts items =
     List.map_filter (\<lambda>a. case a of
         JObj d \<Rightarrow> Some (JObj [(''name'', dget d ''name''), (''blob_uri'', dget d ''blob_uri''),
                               (''sha256'', dget d ''sha256'')])
       | _ \<Rightarrow> None) items"

fun collect_outputs :: "finalize_env \<Rightarrow> run_payload list \<Rightarrow> (dict list \<times> json list) result" where
  "collect_outputs env [] = Inr ([], [])"
| "collect_outputs env (r # rs) =
     bind_res (py_iter (py_or (rp_artifacts r) (JList []))) (\<lambda>items.
     bind_res (collect_outputs env rs) (\<lambda>(outs, srcs).
       Inr ((case read_output_artifact env items of None \<Rightarrow> outs | Some d \<Rightarrow> d # outs),
            source_artifacts items @ srcs)))"

definition succeeded :: "run_payload \<Rightarrow> bool" where
  "succeeded r \<longleftrightarrow> rp_status r = JStr ''Succeeded''"

definition aggregate_runs :: "finalize_env \<Rightarrow> run_payload list \<Rightarrow> cv_aggregate option result" where
  "aggregate_runs env runs =
     (if runs = [] then Inr None
      else if filter succeeded runs = [] then Inr None
      else bind_res (collect_outputs env (filter succeeded runs)) (\<lambda>(outs, srcs).
        bind_res (aggregate_run_outputs (fz_set_iter env) outs (Some profile_cv) ''median'' srcs) (\<lambda>a.
          Inr (case a of CvAggregate ca \<Rightarrow> ca | GenericAggregate ga \<Rightarrow> None))))"

subsection \<open>The final document\<close>

definition run_payload_of :: "cv_ref \<Rightarrow> tagged_result \<Rightarrow> run_payload" where
  "run_payload_of cv r =
     (let d = tr_result r in
      \<lparr>rp_runId = dget d ''run_id'', rp_runIndex = tr_run_index r, rp_documentId = cv_documentId cv,
       rp_status = dget d ''status'', rp_durationMs = dget d ''duration_ms'',
       rp_tokensPrompt = dget d ''tokens_prompt'', rp_tokensCompletion = dget d ''tokens_completion'',
       rp_correlationId = dget d ''correlation_id'', rp_traceparent = dget d ''traceparent'',
       rp_artifacts = dget d ''artifacts'', rp_errorMessage = dget d ''error_message''\<rparr>)"

definition app_runs :: "tagged_result list \<Rightarrow> string \<Rightarrow> tagged_result list" where
  "app_runs results app_id = sort_key tr_run_index (filter (\<lambda>r. tr_application_id r = app_id) results)"

definition first_error :: "tagged_result list \<Rightarrow> json" where
  "first_error runs =
     (case List.find (\<lambda>r. dget (tr_result r) ''status'' \<noteq> JStr ''Succeeded'' \<and>
                          truthy (dget (tr_result r) ''error_message'')) runs of
        None \<Rightarrow> JNull | Some r \<Rightarrow> dget (tr_result r) ''error_message'')"

definition cv_block_of :: "finalize_env \<Rightarrow> tagged_result list \<Rightarrow> cv_ref \<Rightarrow> cv_block result" where
  "cv_block_of env results cv =
     (let runs = app_runs results (cv_applicationId cv);
          payloads = map (run_payload_of cv) runs
      in bind_res (aggregate_runs env payloads) (\<lambda>agg.
           Inr \<lparr>cb_applicationId = cv_applicationId cv, cb_documentId = cv_documentId cv,
                cb_runs = payloads, cb_aggregated = agg,
                cb_error = (if truthy (first_error runs) then Some (first_error runs) else None)\<rparr>))"

definition finalize_document :: "finalize_env \<Rightarrow> finalize_input \<Rightarrow> cv_block list result" where
  "finalize_document env inp = map_res (cv_block_of env (fi_run_results inp)) (fi_cvs inp)"

text \<open>The dict the activity stores and returns, with its keys in the order they are written.\<close>

definition nat_json :: "nat \<Rightarrow> json" where
  "nat_json n = JInt (int n)"

definition or_null :: "('a \<Rightarrow> json) \<Rightarrow> 'a option \<Rightarrow> json" where
  "or_null f v = (case v of None \<Rightarrow> JNull | Some x \<Rightarrow> f x)"

definition run_payload_dict :: "run_payload \<Rightarrow> dict" where
  "run_payload_dict r =
     [(''runId'', rp_runId r), (''runIndex'', nat_json (rp_runIndex r)), (''documentId'', JStr (rp_documentId r)),
      (''status'', rp_status r), (''durationMs'', rp_durationMs r), (''tokensPrompt'', rp_tokensPrompt r),
      (''tokensCompletion'', rp_tokensCompletion r), (''correlationId'', rp_correlationId r),
      (''traceparent'', rp_traceparent r), (''artifacts'', rp_artifacts r), (''errorMessage'', rp_errorMessage r)]"

definition aggregate_dict :: "(rat \<Rightarrow> string) \<Rightarrow> cv_aggregate \<Rightarrow> dict" where
  "aggregate_dict txt a =
     [(''finalScore'', or_null (\<lambda>x. JFloat x (txt x)) (ca_finalScore a)),
      (''variance'', JFloat (ca_variance a) (txt (ca_variance a))), (''finalDecision'', or_null JStr (ca_finalDecision a)),
      (''mustHaveResult'', JBool (ca_mustHaveResult a)), (''sourceArtifacts'', JList (ca_sourceArtifacts a)),
      (''runsCount'', nat_json (ca_runsCount a))]"

definition cv_block_dict :: "(rat \<Rightarrow> string) \<Rightarrow> cv_block \<Rightarrow> dict" where
  "cv_block_dict txt b =
     [(''applicationId'', JStr (cb_applicationId b)), (''documentId'', JStr (cb_documentId b)),
      (''runs'', JList (map (\<lambda>r. JObj (run_payload_dict r)) (cb_runs b))),
      (''aggregated'', or_null (\<lambda>a. JObj (aggregate_dict txt a)) (cb_aggregated b)),
      (''error'', or_null (\<lambda>m. JObj [(''code'', JStr ''RUN_FAILED''), (''message'', m)]) (cb_error b))]"

definition result_doc :: "(rat \<Rightarrow> string) \<Rightarrow> cv_block list \<Rightarrow> json" where
  "result_doc txt doc = JObj [(''cvs'', JList (map (\<lambda>b. JObj (cv_block_dict txt b)) doc))]"

definition finalize_batch :: "finalize_env \<Rightarrow> finalize_input \<Rightarrow> blobs \<Rightarrow> blobs \<times> cv_block list result" where
  "finalize_batch env inp s =
     (case finalize_document env inp of
        Inl e \<Rightarrow> (s, Inl e)
      | Inr doc \<Rightarrow>
          (case put_blob (fz_net env) (fz_container env, batch_result_path (fi_batch_id inp))
                  (json_dumps (result_doc (fz_text env) doc)) True s of
             (s', r) \<Rightarrow> (s', map_sum id (\<lambda>_. doc) r)))"

subsection \<open>Laws\<close>

lemma finalize_batch_Inr:
  assumes "finalize_batch env inp s = (s', Inr doc)"
  shows "finalize_document env inp = Inr doc"
    and "upload_blob (fz_container env, batch_result_path (fi_batch_id inp)) (json_dumps (result_doc (fz_text env) doc)) True s = Inr s'"
  using assms by (auto simp: finalize_batch_def map_sum_Inr_iff split: sum.splits prod.splits dest: put_Inr)

lemma finalize_batch_answered:
  assumes "fz_net env (fz_container env, batch_result_path (fi_batch_id inp)) = Answered" and "finalize_document env inp = Inr doc"
  shows "finalize_batch env inp s =
    (s((fz_container env, batch_result_path (fi_batch_id inp)) \<mapsto> json_dumps (result_doc (fz_text env) doc)), Inr doc)"
  using assms by (simp add: finalize_batch_def)

text \<open>The document does not depend on the state of the network.\<close>

lemma finalize_document_net [simp]: "finalize_document (env\<lparr>fz_net := net\<rparr>) inp = finalize_document env inp"
proof -
  have reads: "fz_raw_decode (env\<lparr>fz_net := net\<rparr>) = fz_raw_decode env" "fz_fetch (env\<lparr>fz_net := net\<rparr>) = fz_fetch env"
    by (simp_all add: fz_raw_decode_def)
  have "read_output_artifact (env\<lparr>fz_net := net\<rparr>) = read_output_artifact env"
    by (rule ext) (unfold read_output_artifact_def reads, rule refl)
  then have "collect_outputs (env\<lparr>fz_net := net\<rparr>) rs = collect_outputs env rs" for rs by (induction rs) simp_all
  then have outs: "collect_outputs (env\<lparr>fz_net := net\<rparr>) = collect_outputs env" by (rule ext)
  have "aggregate_runs (env\<lparr>fz_net := net\<rparr>) = aggregate_runs env"
    by (rule ext) (unfold aggregate_runs_def outs, simp)
  then have "cv_block_of (env\<lparr>fz_net := net\<rparr>) = cv_block_of env"
    by (intro ext) (unfold cv_block_of_def, simp only:)
  then show ?thesis by (simp add: finalize_document_def)
qed

lemma finalize_length: "finalize_document env inp = Inr doc \<Longrightarrow> length doc = length (fi_cvs inp)"
  by (auto simp: finalize_document_def dest: map_res_length)

lemma collect_outputs_runs:
  "collect_outputs env rs = Inr (outs, srcs) \<Longrightarrow>
     outs = List.map_filter (\<lambda>r. case py_iter (py_or (rp_artifacts r) (JList [])) of
        Inl e \<Rightarrow> None | Inr items \<Rightarrow> read_output_artifact env items) rs"
  by (induction rs arbitrary: outs srcs) (auto split: option.splits)

lemma aggregate_profile:
  "aggregate_run_outputs si outs (Some profile_cv) m srcs = map_sum id CvAggregate (aggregate_cv_scoring si outs srcs)"
proof -
  have "normalize_profile (Some profile_cv) = Inr profile_cv" by code_simp
  then show ?thesis by (simp add: aggregate_run_outputs_def)
qed

lemma app_runs_perm:
  assumes "mset rs' = mset rs" and "distinct (map (\<lambda>r. (tr_application_id r, tr_run_index r)) rs)"
  shows "app_runs rs' a = app_runs rs a"
proof -
  let ?P = "\<lambda>r. tr_application_id r = a"
  have "inj_on tr_run_index (set (filter ?P rs))"
    using assms(2) by (auto simp: distinct_map inj_on_def)
  moreover have m: "mset (filter ?P rs') = mset (filter ?P rs)" using assms(1) by simp
  moreover from this have "set (filter ?P rs') = set (filter ?P rs)" by (rule mset_eq_setD)
  ultimately have "sort_key tr_run_index (filter ?P rs') = sort_key tr_run_index (filter ?P rs)"
    by (intro sort_key_inj_key_eq) simp_all
  then show ?thesis by (simp add: app_runs_def)
qed

lemma finalize_perm:
  assumes "mset rs' = mset rs" and "distinct (map (\<lambda>r. (tr_application_id r, tr_run_index r)) rs)"
  shows "finalize_document env \<lparr>fi_batch_id = b, fi_cvs = cvs, fi_run_results = rs'\<rparr> =
     finalize_document env \<lparr>fi_batch_id = b, fi_cvs = cvs, fi_run_results = rs\<rparr>"
proof -
  have "cv_block_of env rs' = cv_block_of env rs"
    by (rule ext) (simp add: cv_block_of_def app_runs_perm[OF assms])
  then show ?thesis by (simp add: finalize_document_def)
qed

lemma cv_block_fields:
  assumes "cv_block_of env rs cv = Inr b"
  shows "cb_applicationId b = cv_applicationId cv" and "cb_documentId b = cv_documentId cv"
    and "cb_runs b = map (run_payload_of cv) (app_runs rs (cv_applicationId cv))"
    and "aggregate_runs env (map (run_payload_of cv) (app_runs rs (cv_applicationId cv))) = Inr (cb_aggregated b)"
  using assms by (auto simp: cv_block_of_def Let_def)

lemma aggregate_runs_outputs:
  assumes "aggregate_runs env runs = Inr a" and "p \<in> set (filter succeeded runs)"
  obtains outs srcs where "collect_outputs env (filter succeeded runs) = Inr (outs, srcs)"
    "aggregate_cv_scoring (fz_set_iter env) outs srcs = Inr a"
proof -
  have ne: "filter succeeded runs \<noteq> []" using assms(2) by (metis empty_iff empty_set)
  then have ne0: "runs \<noteq> []" by auto
  from assms(1) obtain outs srcs x where co: "collect_outputs env (filter succeeded runs) = Inr (outs, srcs)"
    and x: "map_sum id CvAggregate (aggregate_cv_scoring (fz_set_iter env) outs srcs) = Inr x"
    and a: "a = (case x of CvAggregate ca \<Rightarrow> ca | GenericAggregate ga \<Rightarrow> None)"
    unfolding aggregate_runs_def if_not_P[OF ne0] if_not_P[OF ne] aggregate_profile
    by (auto simp del: map_sum.simps)
  from x obtain ca where "aggregate_cv_scoring (fz_set_iter env) outs srcs = Inr ca" "x = CvAggregate ca"
    by (cases "aggregate_cv_scoring (fz_set_iter env) outs srcs") auto
  with co a show thesis by (intro that) simp_all
qed

lemma block_without_success:
  assumes "cv_block_of env rs cv = Inr b"
    and "\<forall>r \<in> set rs. tr_application_id r = cv_applicationId cv \<longrightarrow> dget (tr_result r) ''status'' \<noteq> JStr ''Succeeded''"
  shows "cb_aggregated b = None"
proof -
  have "filter succeeded (map (run_payload_of cv) (app_runs rs (cv_applicationId cv))) = []"
    using assms(2) by (auto simp: filter_empty_conv app_runs_def succeeded_def run_payload_of_def Let_def)
  with cv_block_fields(4)[OF assms(1)] show ?thesis by (simp add: aggregate_runs_def split: if_splits)
qed

text \<open>
  Making the document can only fail on what a succeeded run has written: an output whose
  must-have list cannot be read as a list of dicts. An artifact that cannot be fetched or is no
  JSON dict is left out.
\<close>

definition usable_output :: "finalize_env \<Rightarrow> dict \<Rightarrow> bool" where
  "usable_output env d \<longleftrightarrow>
     (dget d ''status'' = JStr ''Succeeded'' \<longrightarrow>
      (case py_iter (py_or (dget d ''artifacts'') (JList [])) of
         Inl e \<Rightarrow> True
       | Inr items \<Rightarrow> (case read_output_artifact env items of
             None \<Rightarrow> True
           | Some out \<Rightarrow> (case extract_cv_signal out of Inl e \<Rightarrow> False | Inr s \<Rightarrow> True))))"

lemma aggregate_cv_succeeds:
  assumes "\<And>out. out \<in> set outs \<Longrightarrow> \<exists>s. extract_cv_signal out = Inr s"
  shows "\<exists>a. aggregate_cv_scoring si outs srcs = Inr a"
proof -
  have "map_res extract_cv_signal outs = Inr (map (\<lambda>out. projr (extract_cv_signal out)) outs)"
    using assms by (intro map_res_all) fastforce
  then show ?thesis by (simp add: aggregate_cv_scoring_def Let_def)
qed

lemma collect_outputs_usable:
  assumes "\<And>r. r \<in> set rs \<Longrightarrow> \<exists>items. py_iter (py_or (rp_artifacts r) (JList [])) = Inr items \<and>
    (\<forall>out. read_output_artifact env items = Some out \<longrightarrow> (\<exists>s. extract_cv_signal out = Inr s))"
  shows "\<exists>outs srcs. collect_outputs env rs = Inr (outs, srcs) \<and> (\<forall>out \<in> set outs. \<exists>s. extract_cv_signal out = Inr s)"
  using assms
proof (induction rs)
  case (Cons r rs)
  from Cons.IH Cons.prems obtain outs srcs where rest: "collect_outputs env rs = Inr (outs, srcs)"
    "\<forall>out \<in> set outs. \<exists>s. extract_cv_signal out = Inr s" by auto
  from Cons.prems[of r] obtain items where "py_iter (py_or (rp_artifacts r) (JList [])) = Inr items"
    "\<forall>out. read_output_artifact env items = Some out \<longrightarrow> (\<exists>s. extract_cv_signal out = Inr s)" by auto
  with rest show ?case by (cases "read_output_artifact env items") simp_all
qed simp

lemma aggregate_runs_succeeds:
  assumes "\<And>r. r \<in> set (filter succeeded runs) \<Longrightarrow> \<exists>items. py_iter (py_or (rp_artifacts r) (JList [])) = Inr items \<and>
    (\<forall>out. read_output_artifact env items = Some out \<longrightarrow> (\<exists>s. extract_cv_signal out = Inr s))"
  shows "\<exists>a. aggregate_runs env runs = Inr a"
proof -
  obtain outs srcs where co: "collect_outputs env (filter succeeded runs) = Inr (outs, srcs)"
    and "\<forall>out \<in> set outs. \<exists>s. extract_cv_signal out = Inr s" using collect_outputs_usable[OF assms] by blast
  then obtain a where "aggregate_cv_scoring (fz_set_iter env) outs srcs = Inr a" using aggregate_cv_succeeds by blast
  with co show ?thesis by (simp add: aggregate_runs_def aggregate_profile)
qed

lemma finalize_succeeds:
  assumes "\<And>tr. tr \<in> set (fi_run_results inp) \<Longrightarrow> artifacts_ok (tr_result tr) \<and> usable_output env (tr_result tr)"
  shows "\<exists>doc. finalize_document env inp = Inr doc"
proof -
  have "\<exists>b. cv_block_of env (fi_run_results inp) cv = Inr b" for cv
  proof -
    have "\<exists>items. py_iter (py_or (rp_artifacts r) (JList [])) = Inr items \<and>
      (\<forall>out. read_output_artifact env items = Some out \<longrightarrow> (\<exists>s. extract_cv_signal out = Inr s))"
      if r: "r \<in> set (filter succeeded (map (run_payload_of cv) (app_runs (fi_run_results inp) (cv_applicationId cv))))" for r
    proof -
      from r obtain tr where tr: "tr \<in> set (fi_run_results inp)" "r = run_payload_of cv tr" "succeeded r"
        by (auto simp: app_runs_def)
      from assms[OF tr(1)] tr(2,3) show ?thesis
        by (auto simp: artifacts_ok_def usable_output_def succeeded_def run_payload_of_def Let_def
            split: sum.splits option.splits) (metis obj_sumE)
    qed
    from aggregate_runs_succeeds[OF this] obtain a where
      "aggregate_runs env (map (run_payload_of cv) (app_runs (fi_run_results inp) (cv_applicationId cv))) = Inr a" by blast
    then show ?thesis by (simp add: cv_block_of_def Let_def)
  qed
  then have "cv_block_of env (fi_run_results inp) cv = Inr (projr (cv_block_of env (fi_run_results inp) cv))" for cv
    by (metis sum.sel(2))
  then have "finalize_document env inp = Inr (map (\<lambda>cv. projr (cv_block_of env (fi_run_results inp) cv)) (fi_cvs inp))"
    unfolding finalize_document_def by (intro map_res_all) blast
  then show ?thesis by blast
qed

end
