(* ===== verification/FinalizeProperties.thy ===== *)
theory FinalizeProperties
  imports Finalize AggregationLaws
begin

text \<open>The properties of \<^verbatim>\<open>finalize_batch\<close>, with a CV whose two runs reported in reverse.\<close>

definition fin_cv :: cv_ref where
  "fin_cv = \<lparr>cv_applicationId = ''a1'', cv_documentId = ''d1'', cv_fileName = ''cv.pdf'', cv_mimeType = ''application/pdf'',
     cv_blobUri = ''u'', cv_sha256 = ''s''\<rparr>"

definition fin_result :: "nat \<Rightarrow> json \<Rightarrow> json \<Rightarrow> tagged_result" where
  "fin_result i st arts = \<lparr>tr_application_id = ''a1'', tr_run_index = i,
     tr_result = [(''run_id'', JStr (nat_digits i)), (''status'', st), (''artifacts'', arts)]\<rparr>"

definition fin_artifact :: json where
  "fin_artifact = JObj [(''name'', JStr ''output.json''), (''blob_uri'', JStr ''u1'')]"

definition fin_env :: "json \<Rightarrow> finalize_env" where
  "fin_env out = \<lparr>fz_container = ''batch-results'', fz_net = reliable, fz_fetch = (\<lambda>u. Inr (json_dumps out)), fz_float = (\<lambda>s. None),
     fz_set_iter = remdups, fz_text = (\<lambda>x. ''0.0'')\<rparr>"

definition fin_input :: "json \<Rightarrow> finalize_input" where
  "fin_input st = \<lparr>fi_batch_id = ''b1'', fi_cvs = [fin_cv],
     fi_run_results = [fin_result 1 st (JList [fin_artifact]), fin_result 0 st (JList [fin_artifact])]\<rparr>"

lemma fin_good: "\<exists>doc. finalize_document (fin_env (JObj [(''overall_score'', JInt 70)])) (fin_input (JStr ''Succeeded'')) = Inr doc"
proof -
  have "case finalize_document (fin_env (JObj [(''overall_score'', JInt 70)])) (fin_input (JStr ''Succeeded'')) of
     Inr doc \<Rightarrow> True | Inl e \<Rightarrow> False" by code_simp
  then show ?thesis by (auto split: sum.splits)
qed

text \<open>C21: the final document has one block per CV in submission order, each with exactly the
  results of its application, ordered by run index; the returned document is the one stored
  under the batch's result path, and no other blob changes.\<close>

theorem finalize_groups_and_stores:
  assumes "finalize_batch env inp s = (s', Inr doc)"
  shows "map (\<lambda>b. (cb_applicationId b, cb_documentId b)) doc =
      map (\<lambda>cv. (cv_applicationId cv, cv_documentId cv)) (fi_cvs inp) \<and>
    list_all2 (\<lambda>cv b. mset (cb_runs b) =
        mset (map (run_payload_of cv) (filter (\<lambda>r. tr_application_id r = cv_applicationId cv) (fi_run_results inp))) \<and>
      sorted (map rp_runIndex (cb_runs b))) (fi_cvs inp) doc \<and>
    download_blob (fz_container env, batch_result_path (fi_batch_id inp)) s' = Inr (json_dumps (result_doc (fz_text env) doc)) \<and>
    (\<forall>k. k \<noteq> (fz_container env, batch_result_path (fi_batch_id inp)) \<longrightarrow> download_blob k s' = download_blob k s)"
proof -
  let ?k = "(fz_container env, batch_result_path (fi_batch_id inp))"
  from assms have fd: "finalize_document env inp = Inr doc"
    and up: "upload_blob ?k (json_dumps (result_doc (fz_text env) doc)) True s = Inr s'"
    by (rule finalize_batch_Inr)+
  have len: "length doc = length (fi_cvs inp)" using fd by (rule finalize_length)
  have block: "cv_block_of env (fi_run_results inp) (fi_cvs inp ! i) = Inr (doc ! i)" if "i < length (fi_cvs inp)" for i
    using map_res_nth[OF fd[unfolded finalize_document_def] that] .
  have "map (\<lambda>b. (cb_applicationId b, cb_documentId b)) doc =
      map (\<lambda>cv. (cv_applicationId cv, cv_documentId cv)) (fi_cvs inp)"
    by (rule nth_equalityI) (simp_all add: len cv_block_fields[OF block])
  moreover have "list_all2 (\<lambda>cv b. mset (cb_runs b) =
        mset (map (run_payload_of cv) (filter (\<lambda>r. tr_application_id r = cv_applicationId cv) (fi_run_results inp))) \<and>
      sorted (map rp_runIndex (cb_runs b))) (fi_cvs inp) doc"
  proof (rule list_all2_all_nthI)
    fix i
    assume "i < length (fi_cvs inp)"
    note runs = cv_block_fields(3)[OF block[OF this]]
    have idx: "rp_runIndex \<circ> run_payload_of cv = tr_run_index" for cv
      by (rule ext) (simp add: run_payload_of_def Let_def)
    show "mset (cb_runs (doc ! i)) = mset (map (run_payload_of (fi_cvs inp ! i))
        (filter (\<lambda>r. tr_application_id r = cv_applicationId (fi_cvs inp ! i)) (fi_run_results inp))) \<and>
      sorted (map rp_runIndex (cb_runs (doc ! i)))"
      unfolding runs by (simp add: app_runs_def idx)
  qed (simp add: len)
  moreover have "download_blob ?k s' = Inr (json_dumps (result_doc (fz_text env) doc))" using up by (rule container.read_back)
  moreover have "\<forall>k. k \<noteq> ?k \<longrightarrow> download_blob k s' = download_blob k s"
    using container.read_other[OF up] by blast
  ultimately show ?thesis by blast
qed

theorem finalize_groups_and_stores_witness:
  "\<exists>s' doc. finalize_batch (fin_env (JObj [(''overall_score'', JInt 70)])) (fin_input (JStr ''Succeeded'')) Map.empty = (s', Inr doc) \<and>
     map (\<lambda>b. (cb_applicationId b, cb_documentId b)) doc = [(''a1'', ''d1'')]"
proof -
  let ?env = "fin_env (JObj [(''overall_score'', JInt 70)])" and ?inp = "fin_input (JStr ''Succeeded'')"
  from fin_good obtain doc where "finalize_document ?env ?inp = Inr doc" ..
  then obtain s' where f: "finalize_batch ?env ?inp Map.empty = (s', Inr doc)"
    by (simp add: finalize_batch_answered fin_env_def)
  from finalize_groups_and_stores[OF f] f show ?thesis by (auto simp: fin_input_def fin_cv_def)
qed

text \<open>An application none of whose runs has the exact status \<^verbatim>\<open>Succeeded\<close> gets no
  aggregate, also when the progress document counts its runs as successful: the comparison
  here is case-sensitive, the one of the progress document is not.\<close>

lemma no_exact_success_no_aggregate:
  assumes "finalize_document env inp = Inr doc" and "i < length (fi_cvs inp)"
    and "\<forall>r \<in> set (fi_run_results inp). tr_application_id r = cv_applicationId (fi_cvs inp ! i) \<longrightarrow>
      dget (tr_result r) ''status'' \<noteq> JStr ''Succeeded''"
  shows "cb_aggregated (doc ! i) = None"
  by (rule block_without_success[OF map_res_nth[OF assms(1)[unfolded finalize_document_def] assms(2)] assms(3)])

text \<open>C22: one run output whose must-have list is malformed makes the whole batch fail: the
  activity raises, no document is stored and no other application gets its result, although
  reading the artifact itself is best effort.\<close>

theorem malformed_output_fails_batch:
  assumes "cv \<in> set (fi_cvs inp)" and "r \<in> set (fi_run_results inp)"
    and "tr_application_id r = cv_applicationId cv" and "dget (tr_result r) ''status'' = JStr ''Succeeded''"
    and "dget (tr_result r) ''artifacts'' = JList items" and "read_output_artifact env items = Some out"
    and "extract_cv_signal out = Inl e"
  shows "\<exists>e'. finalize_batch env inp s = (s, Inl e')"
proof -
  let ?runs = "app_runs (fi_run_results inp) (cv_applicationId cv)"
  let ?payloads = "map (run_payload_of cv) ?runs" and ?p = "run_payload_of cv r"
  have "r \<in> set ?runs" using assms(2,3) by (simp add: app_runs_def)
  then have p: "?p \<in> set (filter succeeded ?payloads)"
    using assms(4) by (auto simp: succeeded_def run_payload_of_def Let_def)
  have "aggregate_runs env ?payloads \<noteq> Inr a" for a
  proof
    assume "aggregate_runs env ?payloads = Inr a"
    then obtain outs srcs where co: "collect_outputs env (filter succeeded ?payloads) = Inr (outs, srcs)"
      and ag: "aggregate_cv_scoring (fz_set_iter env) outs srcs = Inr a"
      by (rule aggregate_runs_outputs) (rule p)
    have art: "py_iter (py_or (rp_artifacts ?p) (JList [])) = Inr items"
      using assms(5) by (cases items) (simp_all add: run_payload_of_def Let_def)
    have "out \<in> set outs"
      unfolding collect_outputs_runs[OF co] set_map_filter using p art assms(6)
      by (intro CollectI bexI[of _ ?p]) (simp_all add: art)
    moreover from this have "outs \<noteq> []" by auto
    ultimately obtain g where "extract_cv_signal out = Inr g"
      using ag map_res_Inr_set[of extract_cv_signal outs _ out]
      by (auto simp: aggregate_cv_scoring_def split: if_splits)
    with assms(7) show False by simp
  qed
  then have "cv_block_of env (fi_run_results inp) cv \<noteq> Inr b" for b by (simp add: cv_block_of_def Let_def)
  then have "finalize_document env inp \<noteq> Inr doc" for doc
    using map_res_Inr_set[of _ "fi_cvs inp" doc cv] assms(1) unfolding finalize_document_def by metis
  then obtain e' where "finalize_document env inp = Inl e'" by (cases "finalize_document env inp") auto
  then show ?thesis by (simp add: finalize_batch_def)
qed

theorem malformed_output_fails_batch_witness:
  "\<exists>e'. finalize_batch (fin_env (JObj [(''must_haves'', JList [JStr ''english''])])) (fin_input (JStr ''Succeeded'')) Map.empty =
     (Map.empty, Inl e')"
proof -
  let ?out = "[(''must_haves'', JList [JStr ''english''])]"
  have bad: "extract_cv_signal ?out = Inl AttributeError" by code_simp
  have "read_output_artifact (fin_env (JObj ?out)) [fin_artifact] = Some ?out" by code_simp
  from malformed_output_fails_batch[OF _ _ _ _ _ this bad, of fin_cv "fin_input (JStr ''Succeeded'')"
      "fin_result 0 (JStr ''Succeeded'') (JList [fin_artifact])" Map.empty]
  show ?thesis by (simp add: fin_input_def fin_result_def fin_cv_def)
qed

text \<open>Reading an output is best effort and prefers the contract name: whatever the download
  or the parser does it yields an object or nothing, and when an artifact called
  \<^verbatim>\<open>output.json\<close> has a blob URI, only that one is downloaded.\<close>

lemma output_artifact_preferred:
  assumes "a \<in> set items" and "is_output_json a"
  shows "\<exists>d. JObj d \<in> set items \<and> dget d ''name'' = JStr ''output.json'' \<and> truthy (dget d ''blob_uri'') \<and>
    read_output_artifact env items =
      (case fz_fetch env (dget d ''blob_uri'') of
         Inl e \<Rightarrow> None
       | Inr text \<Rightarrow> (case fz_raw_decode env (lstrip text) of Some (JObj out) \<Rightarrow> Some out | _ \<Rightarrow> None))"
proof -
  from assms obtain b where b: "List.find is_output_json items = Some b"
    by (metis find_None_iff not_None_eq)
  then have "b \<in> set items" "is_output_json b" by (auto simp: find_Some_iff)
  then obtain d where "b = JObj d" "dget d ''name'' = JStr ''output.json''" "truthy (dget d ''blob_uri'')"
    by (elim is_output_jsonE)
  with b \<open>b \<in> set items\<close> show ?thesis
    by (intro exI[of _ d]) (simp add: read_output_artifact_def select_artifact_def)
qed

text \<open>Blanks before the JSON object of an engine and prose after it do not matter.\<close>

lemma prose_is_ignored:
  assumes "select_artifact items = Some (JObj a)" and "fz_fetch env (dget a ''blob_uri'') = Inr (blanks @ json_dumps (JObj d) @ prose)"
    and "printed (fz_float env) (JObj d)" and "\<forall>c \<in> set blanks. py_space c"
  shows "read_output_artifact env items = Some d"
proof -
  have "\<not> py_space CHR ''{''" by (simp add: py_space_def codept_def)
  then have "lstrip (blanks @ json_dumps (JObj d) @ prose) = json_dumps (JObj d) @ prose"
    using assms(4) by (simp add: lstrip_def json_text.simps)
  with assms raw_decode_object[OF assms(3)] show ?thesis
    by (simp add: read_output_artifact_def fz_raw_decode_def)
qed

end
