(* ===== verification/EndToEnd.thy ===== *)
theory EndToEnd
  imports BatchOutcome Finalize
begin

text \<open>
  The orchestrator together with \<^verbatim>\<open>finalize_batch\<close>: what the runs answered decides the
  final document, not the order or the number of their deliveries.
\<close>

fun outcome_document :: "'d outcome \<Rightarrow> 'd result option" where
  "outcome_document (Completed o1 doc) = Some (Inr doc)"
| "outcome_document (Failed e) = Some (Inl e)"
| "outcome_document (Running o1) = None"

definition answers_with :: "ctx \<Rightarrow> (nat \<Rightarrow> dict) \<Rightarrow> delivery list \<Rightarrow> bool" where
  "answers_with c g ds \<longleftrightarrow> (\<forall>(k, v, t) \<in> set ds. coerce_run_result_payload (c_loads c) v = Inr (g k))"

lemma pairs_distinct: "distinct (map f cvs) \<Longrightarrow> distinct (concat (map (\<lambda>cv. map (\<lambda>i. (f cv, i)) [0..<n]) cvs))"
proof (induction cvs)
  case Nil
  then show ?case by simp
next
  case (Cons cv cvs)
  then show ?case by (auto simp: distinct_map inj_on_def)
qed

lemma plan_pairs_distinct:
  assumes "distinct (map cv_applicationId (in_cvs inp))"
  shows "distinct (map (\<lambda>(x, cv, i). (cv_applicationId cv, i)) (run_plan uuid5 inp))"
proof -
  have "map (\<lambda>(x, cv, i). (cv_applicationId cv, i)) (run_plan uuid5 inp) =
      concat (map (\<lambda>cv. map (\<lambda>i. (cv_applicationId cv, i)) [0..<in_run_count inp]) (in_cvs inp))"
    by (simp add: run_plan_def map_concat comp_def)
  also have "distinct \<dots>"
    using assms by (rule pairs_distinct)
  finally show ?thesis .
qed

text \<open>The collected results are the answers of all tasks, each once.\<close>

lemma results_are_answers:
  assumes good: "good_batch uuid5 inp" and inv: "exact_inv uuid5 inp o1" and dr: "o_pending o1 = []"
    and from_g: "\<forall>rr \<in> set (o_results o1). \<exists>k < length (plan_tasks (run_plan uuid5 inp)).
      rr = g k \<and> dget (g k) ''run_id'' = JStr (plan_tasks (run_plan uuid5 inp) ! k)"
  shows "mset (o_results o1) = mset (map g [0..<length (plan_tasks (run_plan uuid5 inp))])"
proof -
  let ?tasks = "plan_tasks (run_plan uuid5 inp)" and ?id = "\<lambda>rr. dget rr ''run_id''"
  define idx where "idx v = (THE k. k < length ?tasks \<and> v = JStr (?tasks ! k))" for v
  have d: "distinct ?tasks" using good by (simp add: good_batch_def)
  have idx: "idx (JStr (?tasks ! k)) = k" if "k < length ?tasks" for k
    unfolding idx_def using that d by (intro the_equality) (auto simp: nth_eq_iff_index_eq)
  have self: "g (idx (?id rr)) = rr" if "rr \<in> set (o_results o1)" for rr
    using from_g that idx by fastforce
  have "mset (o_results o1) = mset (map (\<lambda>v. g (idx v)) (map ?id (o_results o1)))"
    using self by (simp add: map_idI)
  also have "\<dots> = image_mset (\<lambda>v. g (idx v)) (mset (map ?id (o_results o1)))" by (simp only: mset_map)
  also have "mset (map ?id (o_results o1)) = mset (map JStr ?tasks)"
    using inv dr by (simp add: exact_inv_def results_ok_def)
  also have "image_mset (\<lambda>v. g (idx v)) (mset (map JStr ?tasks)) = mset (map (\<lambda>x. g (idx (JStr x))) ?tasks)"
    by (simp add: image_mset.compositionality comp_def)
  also have "map (\<lambda>x. g (idx (JStr x))) ?tasks = map g [0..<length ?tasks]"
    by (rule nth_equalityI) (simp_all add: idx)
  finally show ?thesis .
qed

definition tag_of :: "(string \<rightharpoonup> string \<times> nat) \<Rightarrow> dict \<Rightarrow> tagged_result" where
  "tag_of m rr = (let e = projr (lookup_run m rr) in
     \<lparr>tr_application_id = fst e, tr_run_index = snd e, tr_result = rr\<rparr>)"

lemma tag_results_map: "tag_results m rrs = Inr trs \<Longrightarrow> trs = map (tag_of m) rrs"
  unfolding tag_results_def
  by (induction rrs arbitrary: trs) (auto simp: tag_of_def split: sum.splits)

lemma answer_tags_distinct:
  assumes good: "good_batch uuid5 inp" and n: "n = length (plan_tasks (run_plan uuid5 inp))"
    and ids: "\<And>k. k < n \<Longrightarrow> dindex (g k) ''run_id'' = Inr (JStr (plan_tasks (run_plan uuid5 inp) ! k))"
  shows "distinct (map (\<lambda>r. (tr_application_id r, tr_run_index r))
    (map (tag_of (run_index_map (run_plan uuid5 inp))) (map g [0..<n])))"
proof -
  let ?plan = "run_plan uuid5 inp" and ?pair = "\<lambda>(x, cv, i). (cv_applicationId cv, i)"
  have tag: "(tr_application_id (tag_of (run_index_map ?plan) (g k)), tr_run_index (tag_of (run_index_map ?plan) (g k)))
      = ?pair (?plan ! k)" if k: "k < n" for k
  proof -
    obtain x cv i where e: "?plan ! k = (x, cv, i)" by (cases "?plan ! k") auto
    have klen: "k < length ?plan" using k n by (simp add: plan_tasks_def)
    have x: "plan_tasks ?plan ! k = x" using e klen by (simp add: plan_tasks_def)
    have "(x, cv, i) \<in> set ?plan" using nth_mem[OF klen] e by simp
    then have "run_index_map ?plan x = Some (cv_applicationId cv, i)"
      using good by (simp add: good_batch_def run_index_map_entry)
    then have "lookup_run (run_index_map ?plan) (g k) = Inr (cv_applicationId cv, i)"
      using ids[OF k] x by (simp add: lookup_run_JStr)
    then show ?thesis by (simp add: tag_of_def e)
  qed
  have "map (\<lambda>r. (tr_application_id r, tr_run_index r)) (map (tag_of (run_index_map ?plan)) (map g [0..<n])) = map ?pair ?plan"
    by (rule nth_equalityI) (simp_all add: n plan_tasks_def tag[unfolded n plan_tasks_def])
  with good plan_pairs_distinct show ?thesis by (simp add: good_batch_def)
qed

text \<open>One run of the batch: the document is that of the answers in task order.\<close>

lemma document_of_answers:
  assumes good: "good_batch uuid5 inp" and c: "c = make_ctx uuid5 pf project inp"
    and stage: "stage (dget_or (in_prompt inp) ''text'' (JStr [])) = Inr uri"
    and own: "returns_own_id dispatch" and plan: "dispatches_plan dispatch uuid5 inp"
    and project: "\<And>ev. project ev = Inr ()"
    and clean: "\<forall>d \<in> set ds. clean c (plan_tasks (run_plan uuid5 inp)) d"
    and cover: "{..<length (plan_tasks (run_plan uuid5 inp))} \<subseteq> fst ` set ds"
    and g: "answers_with c g ds"
  shows "outcome_document (batch_orchestrator uuid5 c stage dispatch (finalize_document env) clock inp ds) =
    Some (finalize_document env \<lparr>fi_batch_id = in_batch_id inp, fi_cvs = in_cvs inp,
      fi_run_results = map (tag_of (run_index_map (run_plan uuid5 inp)))
        (map g [0..<length (plan_tasks (run_plan uuid5 inp))])\<rparr>)"
proof -
  let ?tasks = "plan_tasks (run_plan uuid5 inp)" and ?m = "run_index_map (run_plan uuid5 inp)"
  have pr: "projects c" using project by (simp add: projects_def make_ctx_def c)
  have cm: "c_map c = ?m" by (simp add: make_ctx_def c)
  obtain o0 o1 where st: "orch_start uuid5 c stage dispatch (clock 0) (clock 1) inp = Inr o0"
    and run: "collect c ds o0 = Inr (Drained o1)" and inv: "exact_inv uuid5 inp o1"
    and dr: "o_pending o1 = []"
    by (rule batch_drains[where stage = stage and dispatch = dispatch, OF good c stage own plan project clean cover])
  have ids: "dindex (g k) ''run_id'' = Inr (JStr (?tasks ! k))" if "(k, v, t) \<in> set ds" for k v t
  proof -
    have "matched c ?tasks (k, v, t)" "coerce_run_result_payload (c_loads c) v = Inr (g k)"
      using clean g that by (auto simp: clean_def answers_with_def)
    then show ?thesis by (rule matchedD(2))
  qed
  have "\<forall>rr \<in> set (o_results o1). \<exists>k < length ?tasks. rr = g k \<and> dget (g k) ''run_id'' = JStr (?tasks ! k)"
  proof (rule collect_results_from[OF run])
    show "Drained o1 = Waiting o1 \<or> Drained o1 = Drained o1" by simp
    show "\<forall>rr \<in> set (o_results o0). \<exists>k < length ?tasks. rr = g k \<and> dget (g k) ''run_id'' = JStr (?tasks ! k)"
      using orch_start_base(3)[OF st] by simp
    fix k v t rr
    assume kvt: "(k, v, t) \<in> set ds" and rr: "coerce_run_result_payload (c_loads c) v = Inr rr"
    have "rr = g k" using g kvt rr by (auto simp: answers_with_def)
    moreover have "k < length ?tasks" using clean kvt by (auto simp: clean_def matched_def)
    moreover have "dget (g k) ''run_id'' = JStr (?tasks ! k)" using ids[OF kvt] by (rule dindex_dget)
    ultimately show "\<exists>k < length ?tasks. rr = g k \<and> dget (g k) ''run_id'' = JStr (?tasks ! k)" by blast
  qed
  then have m: "mset (o_results o1) = mset (map g [0..<length ?tasks])"
    by (rule results_are_answers[OF good inv dr])
  obtain trs where tag: "tag_results (c_map c) (o_results o1) = Inr trs"
    using tag_results_succeeds[OF good cm inv] by blast
  have trs: "mset trs = mset (map (tag_of ?m) (map g [0..<length ?tasks]))"
    unfolding tag_results_map[OF tag] cm mset_map[of "tag_of ?m"] m ..
  have idk: "dindex (g k) ''run_id'' = Inr (JStr (?tasks ! k))" if "k < length ?tasks" for k
  proof -
    from cover that obtain e where "e \<in> set ds" "fst e = k" by auto
    then have "(k, fst (snd e), snd (snd e)) \<in> set ds" by auto
    then show ?thesis by (rule ids)
  qed
  have same: "finalize_document env \<lparr>fi_batch_id = in_batch_id inp, fi_cvs = in_cvs inp,
      fi_run_results = map (tag_of ?m) (map g [0..<length ?tasks])\<rparr> =
    finalize_document env \<lparr>fi_batch_id = in_batch_id inp, fi_cvs = in_cvs inp, fi_run_results = trs\<rparr>"
    by (rule finalize_perm[OF trs answer_tags_distinct[OF good refl idk], symmetric])
  from finish_succeeds[OF pr tag, of "finalize_document env" "clock 2" "clock 3" inp]
  obtain ev stt where fi: "orch_finish c (finalize_document env) (clock 2) (clock 3) inp o1 =
      (case finalize_document env \<lparr>fi_batch_id = in_batch_id inp, fi_cvs = in_cvs inp, fi_run_results = trs\<rparr> of
         Inl e \<Rightarrow> Inl e | Inr doc \<Rightarrow> Inr (finished o1 stt (clock 2) ev, doc))" by blast
  show ?thesis
    unfolding batch_orchestrator_def st run sum.case progress_of_run.case fi same
    by (cases "finalize_document env \<lparr>fi_batch_id = in_batch_id inp, fi_cvs = in_cvs inp, fi_run_results = trs\<rparr>"; simp)
qed

text \<open>C23: two deliveries of the same answers end in the same document: whatever the order in
  which the runs of a batch report, and however often each result is delivered, the batch
  completes with one and the same final document, that of the answers in task order, or fails
  with the same error of the aggregation.\<close>

theorem document_independent_of_delivery:
  assumes good: "good_batch uuid5 inp" and c: "c = make_ctx uuid5 pf project inp"
    and stage: "stage (dget_or (in_prompt inp) ''text'' (JStr [])) = Inr uri"
    and own: "returns_own_id dispatch" and plan: "dispatches_plan dispatch uuid5 inp"
    and project: "\<And>ev. project ev = Inr ()"
    and ds: "\<forall>d \<in> set ds. clean c (plan_tasks (run_plan uuid5 inp)) d"
      "{..<length (plan_tasks (run_plan uuid5 inp))} \<subseteq> fst ` set ds" "answers_with c g ds"
    and ds': "\<forall>d \<in> set ds'. clean c (plan_tasks (run_plan uuid5 inp)) d"
      "{..<length (plan_tasks (run_plan uuid5 inp))} \<subseteq> fst ` set ds'" "answers_with c g ds'"
  shows "outcome_document (batch_orchestrator uuid5 c stage dispatch (finalize_document env) clock inp ds) =
      outcome_document (batch_orchestrator uuid5 c stage dispatch (finalize_document env) clock' inp ds') \<and>
    outcome_document (batch_orchestrator uuid5 c stage dispatch (finalize_document env) clock inp ds) \<noteq> None"
  unfolding document_of_answers[where stage = stage and dispatch = dispatch, OF good c stage own plan project ds]
    document_of_answers[where stage = stage and dispatch = dispatch, OF good c stage own plan project ds'] by simp

definition pair_input :: orch_input where
  "pair_input = \<lparr>in_batch_id = ''b'', in_job_id = ''j'', in_run_count = 2, in_prompt = [],
     in_cvs = [\<lparr>cv_applicationId = ''x'', cv_documentId = ''doc'', cv_fileName = ''cv.pdf'',
       cv_mimeType = ''application/pdf'', cv_blobUri = ''blob'', cv_sha256 = ''sha''\<rparr>],
     in_correlationId = JNull, in_correlation_id = JNull, in_traceparent = JNull\<rparr>"

definition pair_answer :: "nat \<Rightarrow> dict" where
  "pair_answer k = [(''run_id'', JStr (''b:x:'' @ nat_digits k)), (''status'', JStr ''Failed'')]"

definition pair_env :: finalize_env where
  "pair_env = \<lparr>fz_container = ''batch-results'', fz_net = reliable, fz_fetch = (\<lambda>u. Inl TransportError), fz_float = (\<lambda>s. None),
     fz_set_iter = remdups, fz_text = (\<lambda>x. ''0.0'')\<rparr>"

theorem document_independent_of_delivery_witness:
  "outcome_document (batch_orchestrator (\<lambda>s. s) (make_ctx (\<lambda>s. s) (\<lambda>s. None) (\<lambda>ev. Inr ()) pair_input)
      (\<lambda>v. Inr ''uri'') (\<lambda>di. Inr (di_run_id di)) (finalize_document pair_env) (\<lambda>n. ''t'') pair_input
      [(0, JObj (pair_answer 0), ''t''), (1, JObj (pair_answer 1), ''t'')]) =
   outcome_document (batch_orchestrator (\<lambda>s. s) (make_ctx (\<lambda>s. s) (\<lambda>s. None) (\<lambda>ev. Inr ()) pair_input)
      (\<lambda>v. Inr ''uri'') (\<lambda>di. Inr (di_run_id di)) (finalize_document pair_env) (\<lambda>n. ''t'') pair_input
      [(1, JObj (pair_answer 1), ''t''), (1, JObj (pair_answer 1), ''t''), (0, JObj (pair_answer 0), ''t'')])"
proof -
  let ?c = "make_ctx (\<lambda>s. s) (\<lambda>s. None) (\<lambda>ev. Inr ()) pair_input"
  have "run_plan (\<lambda>s. s) pair_input = [(''b:x:0'', hd (in_cvs pair_input), 0), (''b:x:1'', hd (in_cvs pair_input), 1)]"
    by code_simp
  then have tasks: "plan_tasks (run_plan (\<lambda>s. s) pair_input) = [''b:x:0'', ''b:x:1'']" by (simp add: plan_tasks_def)
  have good: "good_batch (\<lambda>s. s) pair_input" unfolding good_batch_def tasks by (simp add: pair_input_def)
  have digits: "nat_digits 0 = ''0''" "nat_digits 1 = ''1''" by code_simp+
  have cl: "clean ?c [''b:x:0'', ''b:x:1''] (k, JObj (pair_answer k), t)" if "k = 0 \<or> k = 1" for k t
    using that digits by (auto simp: clean_def matched_def pair_answer_def coerce_run_result_payload_def artifacts_ok_def)
  have an: "answers_with ?c pair_answer ds" if "\<forall>(k, v, t) \<in> set ds. v = JObj (pair_answer k)" for ds
    using that by (auto simp: answers_with_def coerce_run_result_payload_def)
  have own: "returns_own_id (\<lambda>di. Inr (di_run_id di))" by (simp add: returns_own_id_def)
  have plan: "dispatches_plan (\<lambda>di. Inr (di_run_id di)) (\<lambda>s. s) pair_input" by (simp add: dispatches_plan_def)
  show ?thesis
    using document_independent_of_delivery[where stage = "\<lambda>v. Inr ''uri''" and dispatch = "\<lambda>di. Inr (di_run_id di)", OF good refl _ own plan,
        of "''uri''" "\<lambda>ev. Inr ()" "[(0, JObj (pair_answer 0), ''t''), (1, JObj (pair_answer 1), ''t'')]" "\<lambda>s. None" pair_answer
        "[(1, JObj (pair_answer 1), ''t''), (1, JObj (pair_answer 1), ''t''), (0, JObj (pair_answer 0), ''t'')]" pair_env
        "\<lambda>n. ''t''" "\<lambda>n. ''t''"]
    unfolding tasks by (auto simp: cl an lessThan_def less_Suc_eq)
qed

end
