(* ===== verification/DurableHost.thy ===== *)
theory DurableHost
  imports Finalize LiveEvents
begin

text \<open>
  The internal HTTP routes of the Functions host (\<^verbatim>\<open>http_start\<close>,
  \<^verbatim>\<open>http_status\<close>, \<^verbatim>\<open>http_terminate\<close>,
  \<^verbatim>\<open>_normalize_status\<close> and \<^verbatim>\<open>_status_exists\<close> of
  \<^verbatim>\<open>orchestrator/functions/fanout/__init__.py\<close>) over the Durable task hub: the
  instances with their runtime status, the termination requests, and the events projected.
  The custom status of an instance is the progress document the orchestrator publishes and its
  output the final document, so the JSON the routes put on the wire is read as those values.
\<close>

subsection \<open>The task hub\<close>

datatype runtime_status =
    RsPending | RsRunning | RsCompleted | RsFailed | RsTerminated | RsCanceled | RsOther

datatype 'd instance_output = NoOutput | DocOutput 'd | TextOutput string

record 'd durable_status =
  ds_runtime :: "runtime_status option"
  ds_created :: "string option"
  ds_updated :: "string option"
  ds_name :: string
  ds_custom :: "progress option"
  ds_output :: "'d instance_output"

record 'd hub =
  hb_instances :: "string \<rightharpoonup> 'd durable_status"
  hb_started :: "(string \<times> json) list"
  hb_terminations :: "(string \<times> json) list"
  hb_projected :: "live_event list"

text \<open>
  \<open>he_unknown\<close> is what \<^verbatim>\<open>get_status\<close> answers for an id the hub does not know;
  \<open>he_text\<close> is \<^verbatim>\<open>json.loads\<close> of an output that arrives as text; \<open>he_key\<close> is
  what the Durable client makes of an instance id that is not a string.
\<close>

record 'd host_env =
  he_unknown :: "'d durable_status option"
  he_now :: string
  he_text :: "string \<Rightarrow> 'd result"
  he_key :: "json \<Rightarrow> string result"

definition get_status :: "'d host_env \<Rightarrow> string \<Rightarrow> 'd hub \<Rightarrow> 'd durable_status option" where
  "get_status env x h = (case hb_instances h x of Some s \<Rightarrow> Some s | None \<Rightarrow> he_unknown env)"

definition fresh_instance :: "string \<Rightarrow> 'd durable_status" where
  "fresh_instance t = \<lparr>ds_runtime = Some RsPending, ds_created = Some t, ds_updated = Some t,
     ds_name = ''batch_orchestrator'', ds_custom = None, ds_output = NoOutput\<rparr>"

fun output_truthy :: "'d instance_output \<Rightarrow> bool" where
  "output_truthy NoOutput = False"
| "output_truthy (DocOutput d) = True"
| "output_truthy (TextOutput s) = (s \<noteq> [])"

definition status_exists :: "'d durable_status option \<Rightarrow> bool" where
  "status_exists so =
     (case so of None \<Rightarrow> False
      | Some s \<Rightarrow>
          (if ds_runtime s = None \<and> ds_created s = None \<and> ds_updated s = None then False
           else if ds_created s = None \<and> ds_updated s = None \<and> ds_name s = []
           then ds_custom s \<noteq> None \<or> output_truthy (ds_output s)
           else True))"

subsection \<open>The status document\<close>

record 'd norm_status =
  ns_status :: string
  ns_progress :: "progress option"
  ns_result :: "'d option"
  ns_error :: "(string \<times> string) option"
  ns_retry :: "nat option"

fun status_word :: "runtime_status option \<Rightarrow> string" where
  "status_word (Some RsPending) = ''queued''"
| "status_word (Some RsRunning) = ''running''"
| "status_word (Some RsCompleted) = ''completed''"
| "status_word (Some RsFailed) = ''failed''"
| "status_word (Some RsTerminated) = ''cancelled''"
| "status_word (Some RsCanceled) = ''cancelled''"
| "status_word _ = ''running''"

definition normalize_status :: "'d host_env \<Rightarrow> 'd durable_status \<Rightarrow> 'd norm_status result" where
  "normalize_status env s =
     (let st = status_word (ds_runtime s) in
      bind_res (if st = ''completed'' \<and> ds_output s \<noteq> NoOutput
                then (case ds_output s of
                        DocOutput d \<Rightarrow> Inr (Some d)
                      | TextOutput t \<Rightarrow> map_sum id Some (he_text env t)
                      | NoOutput \<Rightarrow> Inr None)
                else Inr None)
        (\<lambda>res. Inr \<lparr>ns_status = st, ns_progress = ds_custom s, ns_result = res,
           ns_error = (if st = ''failed''
             then Some (''ORCHESTRATION_FAILED'',
                    (case ds_output s of TextOutput t \<Rightarrow> str_or t ''orchestration failed''
                     | _ \<Rightarrow> ''orchestration failed''))
             else None),
           ns_retry = (if st = ''queued'' \<or> st = ''running'' then Some 10 else None)\<rparr>))"

subsection \<open>The routes\<close>

text \<open>
  A response is its status code with the document of the body. An exception leaves the
  function as a 500 of the host; it is an \<open>Inl\<close> here.
\<close>

datatype 'd host_body = NoBody | MessageBody string | InstanceBody json | StatusBody "'d norm_status" | WordBody string

record 'd host_response =
  ho_status :: nat
  ho_body :: "'d host_body"

definition merge_trace :: "dict \<Rightarrow> string \<Rightarrow> string \<Rightarrow> dict" where
  "merge_trace payload cid tp =
     (let d = (if cid \<noteq> [] then dset payload ''correlationId'' (JStr cid) else payload)
      in if tp \<noteq> [] then dset d ''traceparent'' (JStr tp) else d)"

definition trace_payload :: "json \<Rightarrow> string \<Rightarrow> string \<Rightarrow> json" where
  "trace_payload payload cid tp = (case payload of JObj d \<Rightarrow> JObj (merge_trace d cid tp) | v \<Rightarrow> v)"

definition start_new :: "'d host_env \<Rightarrow> string \<Rightarrow> json \<Rightarrow> 'd hub \<Rightarrow> 'd hub" where
  "start_new env x payload h =
     h\<lparr>hb_instances := (hb_instances h)(x \<mapsto> fresh_instance (he_now env)),
       hb_started := hb_started h @ [(x, payload)]\<rparr>"

definition instance_key :: "'d host_env \<Rightarrow> json \<Rightarrow> string result" where
  "instance_key env v = (case v of JStr x \<Rightarrow> Inr x | _ \<Rightarrow> he_key env v)"

text \<open>The body of \<^verbatim>\<open>http_start\<close>: nothing when it is not JSON.\<close>

definition http_start ::
  "'d host_env \<Rightarrow> json option \<Rightarrow> string \<Rightarrow> string \<Rightarrow> 'd hub \<Rightarrow> 'd hub \<times> 'd host_response result" where
  "http_start env body cid tp h =
     (case body of
        None \<Rightarrow> (h, Inr \<lparr>ho_status = 400, ho_body = MessageBody ''invalid json''\<rparr>)
      | Some (JObj d) \<Rightarrow>
          (if \<not> truthy (dget d ''instance_id'') \<or> dget d ''payload'' = JNull
           then (h, Inr \<lparr>ho_status = 400, ho_body = MessageBody ''instance_id and payload required''\<rparr>)
           else (case instance_key env (dget d ''instance_id'') of
               Inl e \<Rightarrow> (h, Inl e)
             | Inr x \<Rightarrow>
                 (if status_exists (get_status env x h)
                  then (h, Inr \<lparr>ho_status = 200, ho_body = InstanceBody (dget d ''instance_id'')\<rparr>)
                  else (start_new env x (trace_payload (dget d ''payload'') cid tp) h,
                        Inr \<lparr>ho_status = 202, ho_body = InstanceBody (dget d ''instance_id'')\<rparr>))))
      | Some _ \<Rightarrow> (h, Inl AttributeError))"

definition http_status :: "'d host_env \<Rightarrow> string \<Rightarrow> 'd hub \<Rightarrow> 'd host_response result" where
  "http_status env x h =
     (case get_status env x h of
        None \<Rightarrow> Inr \<lparr>ho_status = 404, ho_body = NoBody\<rparr>
      | Some s \<Rightarrow>
          (if \<not> status_exists (Some s) then Inr \<lparr>ho_status = 404, ho_body = NoBody\<rparr>
           else bind_res (normalize_status env s) (\<lambda>n. Inr \<lparr>ho_status = 200, ho_body = StatusBody n\<rparr>)))"

definition project_state ::
  "'d host_env \<Rightarrow> string \<Rightarrow> 'd durable_status \<Rightarrow> string \<Rightarrow> string \<Rightarrow> string \<Rightarrow> string \<Rightarrow> 'd hub \<Rightarrow> 'd hub \<times> unit result" where
  "project_state env x s st etype cid tp h =
     (case build_batch_state_live_event x (ds_custom s) st etype (he_now env) cid tp of
        Inl e \<Rightarrow> (h, Inl e)
      | Inr ev \<Rightarrow> (h\<lparr>hb_projected := hb_projected h @ [ev]\<rparr>, Inr ()))"

definition terminate_reason :: "json option \<Rightarrow> json result" where
  "terminate_reason body =
     (case body of
        None \<Rightarrow> Inr (JStr ''client cancelled'')
      | Some (JObj d) \<Rightarrow> Inr (dget_or d ''reason'' (JStr ''client cancelled''))
      | Some _ \<Rightarrow> Inl AttributeError)"

definition http_terminate ::
  "'d host_env \<Rightarrow> string \<Rightarrow> json option \<Rightarrow> string \<Rightarrow> string \<Rightarrow> 'd hub \<Rightarrow> 'd hub \<times> 'd host_response result" where
  "http_terminate env x body cid tp h =
     (case get_status env x h of
        None \<Rightarrow> (h, Inr \<lparr>ho_status = 404, ho_body = NoBody\<rparr>)
      | Some s \<Rightarrow>
          (if \<not> status_exists (Some s) then (h, Inr \<lparr>ho_status = 404, ho_body = NoBody\<rparr>)
           else if ds_runtime s = Some RsCompleted
           then (h, Inr \<lparr>ho_status = 409, ho_body = WordBody ''completed''\<rparr>)
           else if ds_runtime s = Some RsTerminated
           then map_prod id (map_sum id (\<lambda>_. \<lparr>ho_status = 200, ho_body = WordBody ''cancelled''\<rparr>))
                  (project_state env x s ''cancelled'' ''batch.cancelled'' cid tp h)
           else (case terminate_reason body of
               Inl e \<Rightarrow> (h, Inl e)
             | Inr reason \<Rightarrow>
                 map_prod id (map_sum id (\<lambda>_. \<lparr>ho_status = 202, ho_body = WordBody ''cancelling''\<rparr>))
                   (project_state env x s ''cancelling'' ''batch.cancelling'' cid tp
                     (h\<lparr>hb_terminations := hb_terminations h @ [(x, reason)]\<rparr>)))))"

subsection \<open>Laws\<close>

lemma fresh_exists: "status_exists (Some (fresh_instance t))"
  by (simp add: status_exists_def fresh_instance_def)

lemma state_event_built: "\<exists>ev. build_batch_state_live_event x custom st etype t cid tp = Inr ev"
  by (simp add: build_batch_state_live_event_def Let_def build_event_no_run)

lemma state_event_sequence:
  assumes "build_batch_state_live_event x (Some p) st etype t cid tp = Inr ev"
  shows "ev_sequence ev = next_event_sequence p" and "ev_eventType ev = etype"
proof -
  let ?q = "progress_for_status_event x (Some p) st t"
  have b: "build_live_progress_event etype ?q t (next_event_sequence ?q) (JStr cid) (JStr tp) JNull None = Inr ev"
    using assms by (simp add: build_batch_state_live_event_def Let_def)
  have "next_event_sequence ?q = next_event_sequence p"
    by (simp add: progress_for_status_event_def next_event_sequence_def Let_def)
  with build_event_fields(1,2)[OF b] show "ev_sequence ev = next_event_sequence p" "ev_eventType ev = etype"
    by simp_all
qed

lemma state_event_type:
  "build_batch_state_live_event x custom st etype t cid tp = Inr ev \<Longrightarrow> ev_eventType ev = etype"
  by (auto simp: build_batch_state_live_event_def Let_def dest: build_event_fields(2))

lemma started_twice:
  assumes "\<not> status_exists (get_status env x h)" and "x \<noteq> []" and "p \<noteq> JNull"
  shows "http_start env (Some (JObj [(''instance_id'', JStr x), (''payload'', p)])) cid tp h =
      (start_new env x (trace_payload p cid tp) h, Inr \<lparr>ho_status = 202, ho_body = InstanceBody (JStr x)\<rparr>)"
  using assms by (simp add: http_start_def instance_key_def)

lemma start_existing:
  assumes "status_exists (get_status env x h)" and "x \<noteq> []" and "p \<noteq> JNull"
  shows "http_start env (Some (JObj [(''instance_id'', JStr x), (''payload'', p)])) cid tp h =
      (h, Inr \<lparr>ho_status = 200, ho_body = InstanceBody (JStr x)\<rparr>)"
  using assms by (simp add: http_start_def instance_key_def)

lemma exists_after_start: "status_exists (get_status env x (start_new env x p h))"
  by (simp add: get_status_def start_new_def fresh_exists)

end
