(* ===== verification/Problems.thy ===== *)
theory Problems
  imports PyValue
begin

text \<open>
  How a request of the public API ends (\<^verbatim>\<open>runtime/errors.py\<close>, the exception handlers
  and the middleware of \<^verbatim>\<open>api/main.py\<close> and \<^verbatim>\<open>api/deps.py\<close>). A route either
  returns a value or raises; what is raised is a \<^verbatim>\<open>ProblemDetail\<close>, FastAPI's
  \<^verbatim>\<open>HTTPException\<close>, or anything else. The handlers turn the first and the last into
  RFC 7807 documents.
\<close>

subsection \<open>Problem documents\<close>

record problem =
  pb_status :: nat
  pb_title :: string
  pb_detail :: "string option"
  pb_type_uri :: string
  pb_instance :: "string option"
  pb_extra :: dict

text \<open>The constructor with the defaults of the arguments the sources never pass.\<close>

definition problem_detail :: "nat \<Rightarrow> string \<Rightarrow> string \<Rightarrow> problem" where
  "problem_detail st title detail =
     \<lparr>pb_status = st, pb_title = title, pb_detail = Some detail, pb_type_uri = ''about:blank'',
      pb_instance = None, pb_extra = []\<rparr>"

record http_answer =
  an_status :: nat
  an_body :: dict
  an_media :: string
  an_headers :: "(string \<times> string) list"

definition set_text :: "string \<Rightarrow> string option \<Rightarrow> dict \<Rightarrow> dict" where
  \<comment> \<open>\<^verbatim>\<open>if v: body[k] = v\<close>\<close>
  "set_text k v d = (case v of None \<Rightarrow> d | Some s \<Rightarrow> (if s = [] then d else dset d k (JStr s)))"

definition problem_response :: "problem \<Rightarrow> http_answer" where
  "problem_response p =
     (let body = [(''type'', JStr (pb_type_uri p)), (''title'', JStr (pb_title p)), (''status'', JInt (int (pb_status p)))];
          body' = set_text ''instance'' (pb_instance p) (set_text ''detail'' (pb_detail p) body)
      in \<lparr>an_status = pb_status p, an_body = fold (\<lambda>(k, v) d. dset d k v) (pb_extra p) body',
          an_media = ''application/problem+json'', an_headers = []\<rparr>)"

subsection \<open>What a route raises\<close>

text \<open>\<open>OtherRaised\<close> carries \<^verbatim>\<open>str(exc)\<close>.\<close>

datatype route_exn = ProblemRaised problem | HttpRaised nat string | OtherRaised string

type_synonym 'a route = "route_exn + 'a"

definition unhandled_exception_handler :: "bool \<Rightarrow> string \<Rightarrow> http_answer" where
  "unhandled_exception_handler auth_required text =
     problem_response (problem_detail 500 ''Internal Server Error''
       (if \<not> auth_required then text else ''An unexpected error occurred.''))"

text \<open>FastAPI's own handler answers an \<^verbatim>\<open>HTTPException\<close> with its detail as JSON.\<close>

definition handle_exn :: "bool \<Rightarrow> route_exn \<Rightarrow> http_answer" where
  "handle_exn auth_required e =
     (case e of
        ProblemRaised p \<Rightarrow> problem_response p
      | HttpRaised st detail \<Rightarrow> \<lparr>an_status = st, an_body = [(''detail'', JStr detail)],
            an_media = ''application/json'', an_headers = []\<rparr>
      | OtherRaised text \<Rightarrow> unhandled_exception_handler auth_required text)"

subsection \<open>The correlation id of a request\<close>

definition header_get :: "(string \<times> string) list \<Rightarrow> string \<Rightarrow> string option" where
  \<comment> \<open>header names are compared without regard to case\<close>
  "header_get hs k = map_option snd (List.find (\<lambda>h. lower (fst h) = lower k) hs)"

record request_vars =
  rv_correlation_id :: string
  rv_traceparent :: string

definition ensure_correlation_id :: "string \<Rightarrow> (string \<times> string) list \<Rightarrow> request_vars" where
  "ensure_correlation_id fresh hs =
     \<lparr>rv_correlation_id = (case header_get hs ''X-Correlation-Id'' of None \<Rightarrow> fresh | Some c \<Rightarrow> str_or c fresh),
      rv_traceparent = (case header_get hs ''traceparent'' of None \<Rightarrow> [] | Some t \<Rightarrow> t)\<rparr>"

definition get_correlation_id :: "string \<Rightarrow> request_vars \<Rightarrow> string" where
  "get_correlation_id fresh v = str_or (rv_correlation_id v) fresh"

definition get_traceparent :: "request_vars \<Rightarrow> string" where
  "get_traceparent v = rv_traceparent v"

text \<open>An exception of the rest of the stack passes through the middleware.\<close>

definition correlation_id_middleware ::
  "string \<Rightarrow> (string \<times> string) list \<Rightarrow> (request_vars \<Rightarrow> 'e + http_answer) \<Rightarrow> 'e + http_answer" where
  "correlation_id_middleware fresh hs call_next =
     (let v = ensure_correlation_id fresh hs
      in map_sum id (\<lambda>r. r\<lparr>an_headers := (''X-Correlation-Id'', rv_correlation_id v) # an_headers r\<rparr>) (call_next v))"

subsection \<open>Laws\<close>

lemma set_text_other: "k' \<noteq> k \<Longrightarrow> dget (set_text k v d) k' = dget d k'"
  by (cases v) (simp_all add: set_text_def)

text \<open>The answer's header and the log lines of a request carry one correlation id.\<close>

lemma middleware_header:
  assumes "correlation_id_middleware fresh hs next = Inr r" and "fresh \<noteq> []"
  shows "\<exists>r'. next (ensure_correlation_id fresh hs) = Inr r' \<and>
    r = r'\<lparr>an_headers := (''X-Correlation-Id'', get_correlation_id other (ensure_correlation_id fresh hs)) # an_headers r'\<rparr>"
proof -
  let ?v = "ensure_correlation_id fresh hs"
  have "rv_correlation_id ?v \<noteq> []" using assms(2) by (auto simp: ensure_correlation_id_def str_or_def split: option.splits)
  then have "get_correlation_id other ?v = rv_correlation_id ?v" by (simp add: get_correlation_id_def str_or_def)
  with assms(1) show ?thesis by (cases "next ?v") (auto simp: correlation_id_middleware_def Let_def)
qed

text \<open>What the rest of the stack raises past the middleware is answered without that header.\<close>

lemma middleware_raise: "correlation_id_middleware fresh hs next = Inl e \<longleftrightarrow> next (ensure_correlation_id fresh hs) = Inl e"
  by (cases "next (ensure_correlation_id fresh hs)") (simp_all add: correlation_id_middleware_def Let_def)

lemma unhandled_has_no_header: "an_headers (unhandled_exception_handler auth t) = []"
  by (simp add: unhandled_exception_handler_def problem_response_def Let_def)

lemma problem_response_status: "an_status (problem_response p) = pb_status p"
  by (simp add: problem_response_def)

lemma problem_response_detail:
  assumes "detail \<noteq> []"
  shows "an_body (problem_response (problem_detail st title detail)) =
    [(''type'', JStr ''about:blank''), (''title'', JStr title), (''status'', JInt (int st)), (''detail'', JStr detail)]"
  using assms by (simp add: problem_response_def problem_detail_def set_text_def dset_def)

end
