(* ===== verification/Submission.thy ===== *)
theory Submission
  imports Orchestrator
begin

text \<open>
  The submit request of the public API (\<^verbatim>\<open>CvRef\<close>, \<^verbatim>\<open>InlinePrompt\<close> and
  \<^verbatim>\<open>BatchSubmitRequest\<close> of \<^verbatim>\<open>api/models.py\<close>) and the orchestrator's own
  view of it (\<^verbatim>\<open>BatchPayload\<close> of \<^verbatim>\<open>orchestrator/engine_contracts.py\<close>).
  Both models are populated by alias or by field name; the first forbids extra keys, the second
  keeps them. What pydantic reads as a UUID, a URL or an integer is the record \<open>readers\<close>:
  each returns the value as it is serialised again.
\<close>

record readers =
  rd_uuid :: "json \<Rightarrow> string option"
  rd_url :: "json \<Rightarrow> string option"
  rd_int :: "json \<Rightarrow> int option"

subsection \<open>Fields\<close>

text \<open>The key a field is read from: its alias when that is there, else its name.\<close>

definition used_key :: "dict \<Rightarrow> string \<times> string \<Rightarrow> string" where
  "used_key d f = (case f of (alias, name) \<Rightarrow> if dhas d alias then alias else name)"

definition no_extra :: "dict \<Rightarrow> (string \<times> string) list \<Rightarrow> bool" where
  "no_extra d fs \<longleftrightarrow> list_all (\<lambda>kv. fst kv \<in> set (map (used_key d) fs)) d"

definition text_field :: "nat \<Rightarrow> nat \<Rightarrow> dict \<Rightarrow> string \<times> string \<Rightarrow> string result" where
  "text_field lo hi d f =
     (case map_of d (used_key d f) of
        Some (JStr s) \<Rightarrow> (if lo \<le> length s \<and> length s \<le> hi then Inr s else Inl ValidationError)
      | _ \<Rightarrow> Inl ValidationError)"

definition any_text_field :: "dict \<Rightarrow> string \<times> string \<Rightarrow> string result" where
  "any_text_field d f = (case map_of d (used_key d f) of Some (JStr s) \<Rightarrow> Inr s | _ \<Rightarrow> Inl ValidationError)"

definition read_field :: "(json \<Rightarrow> 'a option) \<Rightarrow> dict \<Rightarrow> string \<times> string \<Rightarrow> 'a result" where
  "read_field rd d f =
     (case map_of d (used_key d f) of
        None \<Rightarrow> Inl ValidationError
      | Some v \<Rightarrow> (case rd v of None \<Rightarrow> Inl ValidationError | Some x \<Rightarrow> Inr x))"

definition check :: "bool \<Rightarrow> unit result" where
  "check b = (if b then Inr () else Inl ValidationError)"

definition hex_char :: "char \<Rightarrow> bool" where
  "hex_char c \<longleftrightarrow> (let n = codept c in (48 \<le> n \<and> n \<le> 57) \<or> (65 \<le> n \<and> n \<le> 70) \<or> (97 \<le> n \<and> n \<le> 102))"

subsection \<open>The submit request\<close>

record submit_request =
  sq_batch_id :: string
  sq_job_id :: string
  sq_prompt_version_id :: string
  sq_run_count :: nat
  sq_prompt_text :: string
  sq_cvs :: "cv_ref list"
  sq_callback_url :: "string option"

definition cv_fields :: "(string \<times> string) list" where
  "cv_fields = [(''applicationId'', ''application_id''), (''documentId'', ''document_id''),
     (''fileName'', ''file_name''), (''mimeType'', ''mime_type''), (''blobUri'', ''blob_uri''),
     (''sha256'', ''sha256'')]"

fun validate_cv_ref :: "readers \<Rightarrow> json \<Rightarrow> cv_ref result" where
  "validate_cv_ref rd (JObj d) =
     bind_res (check (no_extra d cv_fields)) (\<lambda>_.
     bind_res (text_field 1 64 d (cv_fields ! 0)) (\<lambda>app.
     bind_res (text_field 1 64 d (cv_fields ! 1)) (\<lambda>doc.
     bind_res (text_field 1 500 d (cv_fields ! 2)) (\<lambda>file.
     bind_res (text_field 1 100 d (cv_fields ! 3)) (\<lambda>mime.
     bind_res (read_field (rd_url rd) d (cv_fields ! 4)) (\<lambda>uri.
     bind_res (text_field 64 64 d (cv_fields ! 5)) (\<lambda>sha.
     bind_res (check (list_all hex_char sha)) (\<lambda>_.
       Inr \<lparr>cv_applicationId = app, cv_documentId = doc, cv_fileName = file, cv_mimeType = mime,
            cv_blobUri = uri, cv_sha256 = sha\<rparr>))))))))"
| "validate_cv_ref rd _ = Inl ValidationError"

text \<open>\<^verbatim>\<open>kind\<close> may be missing or must be \<^verbatim>\<open>"inline"\<close>.\<close>

fun validate_prompt :: "json \<Rightarrow> string result" where
  "validate_prompt (JObj d) =
     bind_res (check (list_all (\<lambda>kv. fst kv \<in> set [''kind'', ''text'']) d)) (\<lambda>_.
     bind_res (check (dget_or d ''kind'' (JStr ''inline'') = JStr ''inline'')) (\<lambda>_.
       (case dget d ''text'' of JStr s \<Rightarrow> (if s = [] then Inl ValidationError else Inr s) | _ \<Rightarrow> Inl ValidationError)))"
| "validate_prompt _ = Inl ValidationError"

definition submit_fields :: "(string \<times> string) list" where
  "submit_fields = [(''batchId'', ''batch_id''), (''jobId'', ''job_id''),
     (''promptVersionId'', ''prompt_version_id''), (''runCount'', ''run_count''), (''prompt'', ''prompt''),
     (''cvs'', ''cvs''), (''callbackUrl'', ''callback_url'')]"

definition read_cvs :: "readers \<Rightarrow> dict \<Rightarrow> cv_ref list result" where
  "read_cvs rd d =
     (case dget d ''cvs'' of
        JList xs \<Rightarrow> bind_res (check (1 \<le> length xs \<and> length xs \<le> 100)) (\<lambda>_. map_res (validate_cv_ref rd) xs)
      | _ \<Rightarrow> Inl ValidationError)"

definition read_callback :: "readers \<Rightarrow> dict \<Rightarrow> string option result" where
  "read_callback rd d =
     (case map_of d (used_key d (submit_fields ! 6)) of
        None \<Rightarrow> Inr None | Some JNull \<Rightarrow> Inr None
      | Some v \<Rightarrow> (case rd_url rd v of None \<Rightarrow> Inl ValidationError | Some u \<Rightarrow> Inr (Some u)))"

fun validate_submit :: "readers \<Rightarrow> json \<Rightarrow> submit_request result" where
  "validate_submit rd (JObj d) =
     bind_res (check (no_extra d submit_fields)) (\<lambda>_.
     bind_res (read_field (rd_uuid rd) d (submit_fields ! 0)) (\<lambda>batch.
     bind_res (text_field 1 64 d (submit_fields ! 1)) (\<lambda>job.
     bind_res (text_field 1 64 d (submit_fields ! 2)) (\<lambda>ver.
     bind_res (read_field (rd_int rd) d (submit_fields ! 3)) (\<lambda>n.
     bind_res (check (1 \<le> n \<and> n \<le> 10)) (\<lambda>_.
     bind_res (validate_prompt (dget d ''prompt'')) (\<lambda>prompt.
     bind_res (read_cvs rd d) (\<lambda>cvs.
     bind_res (read_callback rd d) (\<lambda>cb.
       Inr \<lparr>sq_batch_id = batch, sq_job_id = job, sq_prompt_version_id = ver, sq_run_count = nat n,
            sq_prompt_text = prompt, sq_cvs = cvs, sq_callback_url = cb\<rparr>)))))))))"
| "validate_submit rd _ = Inl ValidationError"

subsection \<open>\<^verbatim>\<open>body.model_dump(mode="json", by_alias=True)\<close>\<close>

definition dump_cv_ref :: "cv_ref \<Rightarrow> dict" where
  "dump_cv_ref cv =
     [(''applicationId'', JStr (cv_applicationId cv)), (''documentId'', JStr (cv_documentId cv)),
      (''fileName'', JStr (cv_fileName cv)), (''mimeType'', JStr (cv_mimeType cv)),
      (''blobUri'', JStr (cv_blobUri cv)), (''sha256'', JStr (cv_sha256 cv))]"

definition dump_submit :: "submit_request \<Rightarrow> dict" where
  "dump_submit rq =
     [(''batchId'', JStr (sq_batch_id rq)), (''jobId'', JStr (sq_job_id rq)),
      (''promptVersionId'', JStr (sq_prompt_version_id rq)), (''runCount'', JInt (int (sq_run_count rq))),
      (''prompt'', JObj [(''kind'', JStr ''inline''), (''text'', JStr (sq_prompt_text rq))]),
      (''cvs'', JList (map (\<lambda>cv. JObj (dump_cv_ref cv)) (sq_cvs rq))),
      (''callbackUrl'', case sq_callback_url rq of None \<Rightarrow> JNull | Some u \<Rightarrow> JStr u)]"

subsection \<open>The orchestrator's payload\<close>

record batch_payload =
  by_batch_id :: string
  by_job_id :: string
  by_prompt_version_id :: string
  by_run_count :: nat
  by_prompt :: dict
  by_cvs :: "dict list"

fun as_dict :: "json \<Rightarrow> dict option" where
  "as_dict (JObj d) = Some d"
| "as_dict _ = None"

fun as_dicts :: "json \<Rightarrow> dict list option" where
  "as_dicts (JList xs) = (if list_all is_dict xs then Some (List.map_filter as_dict xs) else None)"
| "as_dicts _ = None"

definition validate_batch_payload :: "readers \<Rightarrow> dict \<Rightarrow> batch_payload result" where
  "validate_batch_payload rd d =
     bind_res (any_text_field d (''batchId'', ''batch_id'')) (\<lambda>batch.
     bind_res (any_text_field d (''jobId'', ''job_id'')) (\<lambda>job.
     bind_res (any_text_field d (''promptVersionId'', ''prompt_version_id'')) (\<lambda>ver.
     bind_res (read_field (rd_int rd) d (''runCount'', ''run_count'')) (\<lambda>n.
     bind_res (check (1 \<le> n)) (\<lambda>_.
     bind_res (read_field as_dict d (''prompt'', ''prompt'')) (\<lambda>prompt.
     bind_res (read_field as_dicts d (''cvs'', ''cvs'')) (\<lambda>cvs.
       Inr \<lparr>by_batch_id = batch, by_job_id = job, by_prompt_version_id = ver, by_run_count = nat n,
            by_prompt = prompt, by_cvs = cvs\<rparr>)))))))"

text \<open>
  The orchestrator indexes each CV dict by the six keys; \<open>cv_of_dict\<close> is that view when all
  six are strings, the only CVs \<open>orch_input\<close> has.
\<close>

definition str_at :: "dict \<Rightarrow> string \<Rightarrow> string option" where
  "str_at d k = (case dget d k of JStr s \<Rightarrow> Some s | _ \<Rightarrow> None)"

definition cv_of_dict :: "dict \<Rightarrow> cv_ref option" where
  "cv_of_dict d =
     (case map (str_at d) [''applicationId'', ''documentId'', ''fileName'', ''mimeType'', ''blobUri'', ''sha256''] of
        [Some a, Some b, Some c, Some e, Some f, Some g] \<Rightarrow>
          Some \<lparr>cv_applicationId = a, cv_documentId = b, cv_fileName = c, cv_mimeType = e, cv_blobUri = f, cv_sha256 = g\<rparr>
      | _ \<Rightarrow> None)"

definition orch_input_of :: "dict \<Rightarrow> batch_payload \<Rightarrow> orch_input option" where
  "orch_input_of raw p =
     (if list_all (\<lambda>d. cv_of_dict d \<noteq> None) (by_cvs p)
      then Some \<lparr>in_batch_id = by_batch_id p, in_job_id = by_job_id p, in_run_count = by_run_count p,
        in_prompt = by_prompt p, in_cvs = List.map_filter cv_of_dict (by_cvs p),
        in_correlationId = dget raw ''correlationId'', in_correlation_id = dget raw ''correlation_id'',
        in_traceparent = dget raw ''traceparent''\<rparr>
      else None)"

subsection \<open>Laws\<close>

lemma check_Inr [simp]: "check b = Inr u \<longleftrightarrow> b"
  by (simp add: check_def)

lemma check_True [simp]: "check True = Inr ()"
  by (simp add: check_def)

lemma text_field_bounds: "text_field lo hi d f = Inr s \<Longrightarrow> lo \<le> length s \<and> length s \<le> hi"
  by (auto simp: text_field_def split: option.splits json.splits if_splits)

lemma validate_cv_ref_ok:
  assumes "validate_cv_ref rd v = Inr cv"
  shows "1 \<le> length (cv_applicationId cv) \<and> length (cv_sha256 cv) = 64 \<and> list_all hex_char (cv_sha256 cv)"
  using assms by (cases v) (auto dest!: text_field_bounds)

lemma validate_submit_ok:
  assumes "validate_submit rd v = Inr rq"
  shows "1 \<le> sq_run_count rq" "sq_run_count rq \<le> 10" "1 \<le> length (sq_cvs rq)" "length (sq_cvs rq) \<le> 100"
    "sq_prompt_text rq \<noteq> []"
    "\<forall>cv \<in> set (sq_cvs rq). cv_applicationId cv \<noteq> [] \<and> length (cv_sha256 cv) = 64 \<and> list_all hex_char (cv_sha256 cv)"
proof -
  obtain d where v: "v = JObj d" using assms by (cases v) auto
  from assms obtain n where n: "1 \<le> n" "n \<le> 10" "sq_run_count rq = nat n"
    and p: "validate_prompt (dget d ''prompt'') = Inr (sq_prompt_text rq)" and c: "read_cvs rd d = Inr (sq_cvs rq)"
    by (auto simp: v)
  show "1 \<le> sq_run_count rq" "sq_run_count rq \<le> 10" using n by auto
  show "sq_prompt_text rq \<noteq> []" using p by (cases "dget d ''prompt''") (auto split: json.splits if_splits)
  from c obtain xs where xs: "1 \<le> length xs" "length xs \<le> 100" "map_res (validate_cv_ref rd) xs = Inr (sq_cvs rq)"
    by (auto simp: read_cvs_def split: json.splits)
  show "1 \<le> length (sq_cvs rq)" "length (sq_cvs rq) \<le> 100" using xs map_res_length[OF xs(3)] by auto
  show "\<forall>cv \<in> set (sq_cvs rq). cv_applicationId cv \<noteq> [] \<and> length (cv_sha256 cv) = 64 \<and> list_all hex_char (cv_sha256 cv)"
  proof
    fix cv assume "cv \<in> set (sq_cvs rq)"
    then obtain i where i: "i < length xs" "cv = sq_cvs rq ! i"
      using map_res_length[OF xs(3)] by (metis in_set_conv_nth)
    from validate_cv_ref_ok[OF map_res_nth[OF xs(3) i(1)]] i(2)
    show "cv_applicationId cv \<noteq> [] \<and> length (cv_sha256 cv) = 64 \<and> list_all hex_char (cv_sha256 cv)" by auto
  qed
qed

lemma cv_of_dump: "cv_of_dict (dump_cv_ref cv) = Some cv"
  by (simp add: cv_of_dict_def dump_cv_ref_def str_at_def)

lemma as_dicts_dump: "as_dicts (JList (map (\<lambda>cv. JObj (dump_cv_ref cv)) cvs)) = Some (map dump_cv_ref cvs)"
proof -
  have "list_all is_dict (map (\<lambda>cv. JObj (dump_cv_ref cv)) cvs)" by (simp add: list_all_iff)
  moreover have "List.map_filter as_dict (map (\<lambda>cv. JObj (dump_cv_ref cv)) cvs) = map dump_cv_ref cvs"
    by (induction cvs) (simp_all add: List.map_filter_simps)
  ultimately show ?thesis by simp
qed

lemma cvs_of_dump: "List.map_filter cv_of_dict (map dump_cv_ref cvs) = cvs"
  by (induction cvs) (simp_all add: List.map_filter_simps cv_of_dump)

end
