(* ===== verification/ResultDocument.thy ===== *)
theory ResultDocument
  imports Finalize
begin

text \<open>
  The stored document of a batch as text. \<open>document_view\<close> reads the keys
  \<^verbatim>\<open>finalize_batch\<close> writes back into the records, as the response models of
  \<^verbatim>\<open>api/models.py\<close> do when the poll falls back to the result blob; what the activity
  prints is read back as it was.
\<close>

subsection \<open>Reading the keys\<close>

fun run_payload_view :: "json \<Rightarrow> run_payload option" where
  "run_payload_view (JObj d) =
     (case (dget d ''runIndex'', dget d ''documentId'') of
        (JInt n, JStr doc) \<Rightarrow> Some \<lparr>rp_runId = dget d ''runId'', rp_runIndex = nat n, rp_documentId = doc,
          rp_status = dget d ''status'', rp_durationMs = dget d ''durationMs'', rp_tokensPrompt = dget d ''tokensPrompt'',
          rp_tokensCompletion = dget d ''tokensCompletion'', rp_correlationId = dget d ''correlationId'',
          rp_traceparent = dget d ''traceparent'', rp_artifacts = dget d ''artifacts'', rp_errorMessage = dget d ''errorMessage''\<rparr>
      | _ \<Rightarrow> None)"
| "run_payload_view _ = None"

fun or_none :: "(json \<Rightarrow> 'a option) \<Rightarrow> json \<Rightarrow> 'a option option" where
  "or_none f JNull = Some None"
| "or_none f v = map_option Some (f v)"

fun float_view :: "json \<Rightarrow> rat option" where
  "float_view (JFloat x t) = Some x"
| "float_view _ = None"

fun text_view :: "json \<Rightarrow> string option" where
  "text_view (JStr s) = Some s"
| "text_view _ = None"

fun aggregate_view :: "json \<Rightarrow> cv_aggregate option" where
  "aggregate_view (JObj d) =
     (case (or_none float_view (dget d ''finalScore''), or_none text_view (dget d ''finalDecision''),
            dget d ''variance'', dget d ''mustHaveResult'', dget d ''sourceArtifacts'', dget d ''runsCount'') of
        (Some score, Some decision, JFloat v t, JBool met, JList srcs, JInt n) \<Rightarrow>
          Some \<lparr>ca_finalScore = score, ca_variance = v, ca_finalDecision = decision, ca_mustHaveResult = met,
            ca_sourceArtifacts = srcs, ca_runsCount = nat n\<rparr>
      | _ \<Rightarrow> None)"
| "aggregate_view _ = None"

fun error_view :: "json \<Rightarrow> json option" where
  "error_view (JObj d) = Some (dget d ''message'')"
| "error_view _ = None"

fun cv_block_view :: "json \<Rightarrow> cv_block option" where
  "cv_block_view (JObj d) =
     (case (dget d ''applicationId'', dget d ''documentId'', dget d ''runs'',
            or_none aggregate_view (dget d ''aggregated''), or_none error_view (dget d ''error'')) of
        (JStr app, JStr doc, JList rs, Some agg, Some err) \<Rightarrow>
          map_option (\<lambda>runs. \<lparr>cb_applicationId = app, cb_documentId = doc, cb_runs = runs, cb_aggregated = agg, cb_error = err\<rparr>)
            (those (map run_payload_view rs))
      | _ \<Rightarrow> None)"
| "cv_block_view _ = None"

fun document_view :: "json \<Rightarrow> cv_block list option" where
  "document_view (JObj d) = (case dget d ''cvs'' of JList xs \<Rightarrow> those (map cv_block_view xs) | _ \<Rightarrow> None)"
| "document_view _ = None"

subsection \<open>Round trip\<close>

lemma those_map: "(\<And>x. x \<in> set xs \<Longrightarrow> f (g x) = Some x) \<Longrightarrow> those (map f (map g xs)) = Some xs"
  by (induction xs) simp_all

lemma or_none_value: "v \<noteq> JNull \<Longrightarrow> or_none f v = map_option Some (f v)"
  by (cases v) simp_all

lemma or_none_null: "(\<And>x. v = Some x \<Longrightarrow> g (f x) = Some x \<and> f x \<noteq> JNull) \<Longrightarrow> or_none g (or_null f v) = Some v"
  by (cases v) (simp_all add: or_null_def or_none_value)

lemma view_run: "run_payload_view (JObj (run_payload_dict r)) = Some r"
  by (simp add: run_payload_dict_def nat_json_def)

lemma view_aggregate: "aggregate_view (JObj (aggregate_dict txt a)) = Some a"
proof -
  have "or_none float_view (or_null (\<lambda>x. JFloat x (txt x)) (ca_finalScore a)) = Some (ca_finalScore a)"
    "or_none text_view (or_null JStr (ca_finalDecision a)) = Some (ca_finalDecision a)"
    by (simp_all add: or_none_null)
  then show ?thesis by (simp add: aggregate_dict_def nat_json_def)
qed

lemma view_block: "cv_block_view (JObj (cv_block_dict txt b)) = Some b"
proof -
  have "or_none aggregate_view (or_null (\<lambda>a. JObj (aggregate_dict txt a)) (cb_aggregated b)) = Some (cb_aggregated b)"
    "or_none error_view (or_null (\<lambda>m. JObj [(''code'', JStr ''RUN_FAILED''), (''message'', m)]) (cb_error b)) = Some (cb_error b)"
    by (simp_all add: or_none_null view_aggregate del: aggregate_view.simps)
  then show ?thesis
    by (simp add: cv_block_dict_def those_map[of _ run_payload_view] view_run del: run_payload_view.simps aggregate_view.simps error_view.simps map_map)
qed

lemma view_document: "document_view (result_doc txt doc) = Some doc"
  by (simp add: result_doc_def those_map[of _ cv_block_view] view_block del: cv_block_view.simps map_map)

subsection \<open>What is printed is read back\<close>

text \<open>The floats of the document, and that their text is read as them.\<close>

definition block_floats :: "cv_block \<Rightarrow> rat list" where
  "block_floats b =
     (case cb_aggregated b of None \<Rightarrow> []
      | Some a \<Rightarrow> ca_variance a # (case ca_finalScore a of None \<Rightarrow> [] | Some x \<Rightarrow> [x]))"

definition floats_back :: "(string \<Rightarrow> json option) \<Rightarrow> (rat \<Rightarrow> string) \<Rightarrow> cv_block list \<Rightarrow> bool" where
  "floats_back pf txt doc \<longleftrightarrow> list_all (\<lambda>x. printed pf (JFloat x (txt x))) (concat (map block_floats doc))"

lemma printed_dget: "printed pf (JObj d) \<Longrightarrow> printed pf (dget d k)"
  by (auto simp: dget_def split: option.splits dest!: map_of_SomeD)

lemma printed_or_null: "(\<And>x. v = Some x \<Longrightarrow> printed pf (f x)) \<Longrightarrow> printed pf (or_null f v)"
  by (cases v) (simp_all add: or_null_def)

lemma printed_iter: "printed pf v \<Longrightarrow> py_iter v = Inr items \<Longrightarrow> \<forall>x \<in> set items. printed pf x"
  by (cases v) auto

lemma source_artifacts_printed:
  assumes "\<forall>x \<in> set items. printed pf x"
  shows "\<forall>x \<in> set (source_artifacts items). printed pf x"
  using assms
  by (induction items) (auto simp: source_artifacts_def List.map_filter_simps split: json.split intro: printed_dget)

lemma sources_printed:
  "collect_outputs env rs = Inr (outs, srcs) \<Longrightarrow> \<forall>r \<in> set rs. printed pf (rp_artifacts r) \<Longrightarrow> \<forall>x \<in> set srcs. printed pf x"
proof (induction rs arbitrary: outs srcs)
  case (Cons r rs)
  from Cons.prems(1) obtain items outs' srcs' where
    i: "py_iter (py_or (rp_artifacts r) (JList [])) = Inr items" and
    c: "collect_outputs env rs = Inr (outs', srcs')" and s: "srcs = source_artifacts items @ srcs'" by auto
  have "printed pf (py_or (rp_artifacts r) (JList []))" using Cons.prems(2) by (simp add: py_or_def)
  from source_artifacts_printed[OF printed_iter[OF this i]] Cons.IH[OF c] Cons.prems(2) s show ?case by auto
qed simp

lemma payload_printed:
  assumes "printed pf (JObj (tr_result r))"
  shows "printed pf (rp_artifacts (run_payload_of cv r))" and "printed pf (JObj (run_payload_dict (run_payload_of cv r)))"
  using printed_dget[OF assms] by (simp_all add: run_payload_of_def run_payload_dict_def nat_json_def Let_def)

lemma aggregate_printed:
  assumes "aggregate_runs env runs = Inr (Some a)" and "\<forall>r \<in> set runs. printed pf (rp_artifacts r)"
  shows "\<forall>x \<in> set (ca_sourceArtifacts a). printed pf x"
proof -
  have "filter succeeded runs \<noteq> []" using assms(1) by (auto simp: aggregate_runs_def split: if_splits)
  then obtain p where p: "p \<in> set (filter succeeded runs)" by (meson list.set_sel(1))
  obtain outs srcs where co: "collect_outputs env (filter succeeded runs) = Inr (outs, srcs)"
    and ag: "aggregate_cv_scoring (fz_set_iter env) outs srcs = Inr (Some a)"
    by (rule aggregate_runs_outputs[OF assms(1) p])
  from ag have "ca_sourceArtifacts a = srcs"
    by (auto simp: aggregate_cv_scoring_def bind_res_Inr_iff Let_def split: if_splits)
  with sources_printed[OF co, of pf] assms(2) show ?thesis by simp
qed

lemma first_error_printed:
  assumes "\<forall>r \<in> set rs. printed pf (JObj (tr_result r))"
  shows "printed pf (first_error rs)"
proof (cases "List.find (\<lambda>r. dget (tr_result r) ''status'' \<noteq> JStr ''Succeeded'' \<and>
    truthy (dget (tr_result r) ''error_message'')) rs")
  case (Some r)
  then have "r \<in> set rs" by (auto simp: find_Some_iff)
  with Some assms show ?thesis by (simp add: first_error_def printed_dget del: printed.simps)
qed (simp add: first_error_def)

lemma block_printed:
  assumes "cv_block_of env rs cv = Inr b" and "\<forall>r \<in> set rs. printed pf (JObj (tr_result r))"
    and "\<forall>x \<in> set (block_floats b). printed pf (JFloat x (txt x))"
  shows "printed pf (JObj (cv_block_dict txt b))"
proof -
  have app: "set (app_runs rs a) \<subseteq> set rs" for a by (auto simp: app_runs_def)
  note f = cv_block_fields[OF assms(1)]
  have runs: "\<forall>r \<in> set (cb_runs b). printed pf (JObj (run_payload_dict r)) \<and> printed pf (rp_artifacts r)"
    using payload_printed assms(2) app unfolding f(3) by fastforce
  have agg: "printed pf (JObj (aggregate_dict txt a))" if "cb_aggregated b = Some a" for a
  proof -
    have "\<forall>x \<in> set (ca_sourceArtifacts a). printed pf x"
      using aggregate_printed[of env "cb_runs b" a pf] f(3,4) that runs by simp
    moreover have "\<forall>x \<in> set (ca_variance a # (case ca_finalScore a of None \<Rightarrow> [] | Some x \<Rightarrow> [x])). printed pf (JFloat x (txt x))"
      using assms(3) that by (simp add: block_floats_def del: printed.simps(1))
    then have "printed pf (JFloat (ca_variance a) (txt (ca_variance a)))"
      "printed pf (or_null (\<lambda>x. JFloat x (txt x)) (ca_finalScore a))"
      by (simp_all add: printed_or_null del: printed.simps(1))
    moreover have "printed pf (or_null JStr (ca_finalDecision a))" by (simp add: printed_or_null)
    ultimately show ?thesis by (simp add: aggregate_dict_def nat_json_def del: printed.simps(1))
  qed
  have "printed pf (first_error (app_runs rs (cv_applicationId cv)))"
    using assms(2) app by (intro first_error_printed) blast
  moreover have "cb_error b = None \<or> cb_error b = Some (first_error (app_runs rs (cv_applicationId cv)))"
    using assms(1) by (auto simp: cv_block_of_def Let_def bind_res_Inr_iff)
  ultimately have err: "\<forall>m. cb_error b = Some m \<longrightarrow> printed pf m" by auto
  have "printed pf (or_null (\<lambda>a. JObj (aggregate_dict txt a)) (cb_aggregated b))" using agg by (rule printed_or_null)
  moreover have "printed pf (or_null (\<lambda>m. JObj [(''code'', JStr ''RUN_FAILED''), (''message'', m)]) (cb_error b))"
    using err by (intro printed_or_null) simp
  ultimately show ?thesis using runs by (simp add: cv_block_dict_def)
qed

lemma document_printed:
  assumes "finalize_document env inp = Inr doc" and "\<forall>r \<in> set (fi_run_results inp). printed pf (JObj (tr_result r))"
    and "floats_back pf txt doc"
  shows "printed pf (result_doc txt doc)"
proof -
  have "printed pf (JObj (cv_block_dict txt b))" if b: "b \<in> set doc" for b
  proof -
    from b obtain i where i: "i < length doc" "b = doc ! i" by (metis in_set_conv_nth)
    with map_res_nth[OF assms(1)[unfolded finalize_document_def]] finalize_length[OF assms(1)]
    have "cv_block_of env (fi_run_results inp) (fi_cvs inp ! i) = Inr b" by simp
    from block_printed[OF this assms(2)] assms(3) b show ?thesis by (auto simp: floats_back_def list_all_iff)
  qed
  then show ?thesis by (auto simp: result_doc_def)
qed

lemma document_roundtrip:
  assumes "finalize_document env inp = Inr doc" and "\<forall>r \<in> set (fi_run_results inp). printed pf (JObj (tr_result r))"
    and "floats_back pf txt doc"
  shows "json_loads pf (json_dumps (result_doc txt doc)) = Some (result_doc txt doc)"
  using document_printed[OF assms] by (rule json_roundtrip_printed)

end
