(* ===== verification/Api.thy ===== *)
theory Api
  imports DurableHost Problems Submission ResultDocument
begin

text \<open>
  The public routes (\<^verbatim>\<open>api/routes_assess.py\<close>) and the client they reach the
  Functions host with (\<^verbatim>\<open>api/durable_client.py\<close>). \<open>reach\<close> tells whether
  the HTTP call gets an answer; an exception of the host is its status 500. A route returns its
  response model or raises, as a value of \<open>route\<close>; the handlers of \<open>Problems\<close> turn
  what it raises into the answer.
\<close>

subsection \<open>The client of the host\<close>

datatype client_error = DurableClientError nat | OrchestrationConflict | HttpxError

definition wire_status :: "'d host_response result \<Rightarrow> nat" where
  "wire_status r = (case r of Inl e \<Rightarrow> 500 | Inr resp \<Rightarrow> ho_status resp)"

definition start_batch ::
  "'d host_env \<Rightarrow> bool \<Rightarrow> string \<Rightarrow> json \<Rightarrow> string \<Rightarrow> string \<Rightarrow> 'd hub \<Rightarrow> 'd hub \<times> (client_error + unit)" where
  "start_batch env reach x payload cid tp h =
     (if \<not> reach then (h, Inl (DurableClientError 502))
      else
        (let (h', r) = http_start env (Some (JObj [(''instance_id'', JStr x), (''payload'', payload)])) cid tp h;
             st = wire_status r
         in (h', if st = 409 then Inl OrchestrationConflict
                 else if st \<ge> 400 then Inl (DurableClientError st) else Inr ())))"

definition fetch_batch_status :: "'d host_env \<Rightarrow> bool \<Rightarrow> string \<Rightarrow> 'd hub \<Rightarrow> client_error + 'd norm_status" where
  "fetch_batch_status env reach x h =
     (if \<not> reach then Inl HttpxError
      else (case http_status env x h of
          Inl e \<Rightarrow> Inl (DurableClientError 500)
        | Inr resp \<Rightarrow> (case ho_body resp of
              StatusBody n \<Rightarrow> Inr n | _ \<Rightarrow> Inl (DurableClientError (ho_status resp)))))"

definition request_cancel :: "'d host_env \<Rightarrow> bool \<Rightarrow> string \<Rightarrow> string \<Rightarrow> 'd hub \<Rightarrow> 'd hub \<times> (client_error + nat)" where
  "request_cancel env reach x reason h =
     (if \<not> reach then (h, Inl HttpxError)
      else
        (let (h', r) = http_terminate env x (Some (JObj [(''reason'', JStr reason)])) [] [] h;
             st = wire_status r
         in (h', if st \<ge> 500 then Inl (DurableClientError st) else Inr st)))"

text \<open>
  \<open>ap_float\<close> reads the text of a float, \<open>ap_foreign\<close> is what the response models make of
  a stored text that \<^verbatim>\<open>finalize_batch\<close> did not write; \<open>ap_client_text\<close>,
  \<open>ap_error_text\<close> and \<open>ap_invalid_text\<close> are \<^verbatim>\<open>str(exc)\<close> of an error of the
  client, of the blob SDK and of the response models.
\<close>

record 'd api_env =
  ap_account :: string
  ap_container :: string
  ap_net :: network
  ap_float :: "string \<Rightarrow> json option"
  ap_foreign :: "json \<Rightarrow> 'd option"
  ap_client_text :: "client_error \<Rightarrow> string"
  ap_error_text :: "pyerr \<Rightarrow> string"
  ap_invalid_text :: "'d \<Rightarrow> string"

text \<open>A text that is not JSON is logged and read as nothing.\<close>

definition parse_result :: "cv_block list api_env \<Rightarrow> string \<Rightarrow> cv_block list option" where
  "parse_result env data =
     (case json_loads (ap_float env) data of
        None \<Rightarrow> None
      | Some v \<Rightarrow> (case document_view v of Some doc \<Rightarrow> Some doc | None \<Rightarrow> ap_foreign env v))"

definition read_batch_result_from_blob :: "cv_block list api_env \<Rightarrow> string \<Rightarrow> blobs \<Rightarrow> cv_block list option result" where
  "read_batch_result_from_blob env x s =
     (if ap_account env = [] then Inr None
      else (case get_blob (ap_net env) (ap_container env, batch_result_path x) s of
          Inl ResourceNotFound \<Rightarrow> Inr None
        | Inl e \<Rightarrow> Inl e
        | Inr data \<Rightarrow> Inr (parse_result env data)))"

definition upstream_error :: "'d api_env \<Rightarrow> client_error \<Rightarrow> route_exn" where
  "upstream_error aenv e = ProblemRaised (problem_detail 502 ''Upstream error'' (ap_client_text aenv e))"

definition raise_problem :: "nat \<Rightarrow> string \<Rightarrow> string \<Rightarrow> route_exn" where
  "raise_problem st title detail = ProblemRaised (problem_detail st title detail)"

subsection \<open>Submitting\<close>

record submit_response =
  su_submission_id :: string
  su_status :: string
  su_poll_url :: string
  su_estimated :: nat

definition header_or_empty :: "(string \<times> string) list \<Rightarrow> string \<Rightarrow> string" where
  "header_or_empty hs k = (case header_get hs k of None \<Rightarrow> [] | Some v \<Rightarrow> v)"

definition submit_batch ::
  "'d host_env \<Rightarrow> 'd api_env \<Rightarrow> bool \<Rightarrow> string \<Rightarrow> (string \<times> string) list \<Rightarrow> submit_request \<Rightarrow> 'd hub \<Rightarrow>
   'd hub \<times> submit_response route" where
  "submit_batch env aenv reach key hs rq h =
     (if key \<noteq> sq_batch_id rq
      then (h, Inl (raise_problem 400 ''Idempotency-Key mismatch'' ''Idempotency-Key header must equal body.batchId.''))
      else
        (let (h', r) = start_batch env reach (sq_batch_id rq) (JObj (dump_submit rq))
                         (header_or_empty hs ''x-correlation-id'') (header_or_empty hs ''traceparent'') h
         in (h', case r of
               Inl OrchestrationConflict \<Rightarrow>
                 Inl (raise_problem 409 ''Idempotency conflict'' ''A different submission already exists for this batchId.'')
             | Inl e \<Rightarrow> Inl (upstream_error aenv e)
             | Inr _ \<Rightarrow> Inr \<lparr>su_submission_id = sq_batch_id rq, su_status = ''queued'',
                 su_poll_url = ''/assess/batch/'' @ sq_batch_id rq @ ''/status'',
                 su_estimated = max 60 (length (sq_cvs rq) * sq_run_count rq * 20)\<rparr>)))"

subsection \<open>Polling\<close>

definition batch_statuses :: "string list" where
  "batch_statuses = [''queued'', ''running'', ''completed'', ''failed'', ''cancelling'', ''cancelled'']"

record status_response =
  sp_submission_id :: string
  sp_status :: string
  sp_progress :: "progress option"
  sp_retry_after :: "nat option"
  sp_result :: "cv_block list option"
  sp_error :: "(string \<times> string) option"

text \<open>The fields \<^verbatim>\<open>RunEvidence\<close> declares; anything else is passed through.\<close>

definition run_evidence_ok :: "run_payload \<Rightarrow> bool" where
  "run_evidence_ok r \<longleftrightarrow>
     is_str (rp_runId r) \<and> is_str (rp_status r) \<and> opt_string (rp_correlationId r) \<and> opt_string (rp_traceparent r) \<and>
     (case rp_artifacts r of JNull \<Rightarrow> True | JList xs \<Rightarrow> list_all is_dict xs | _ \<Rightarrow> False)"

definition cv_result_ok :: "cv_block \<Rightarrow> bool" where
  "cv_result_ok cv \<longleftrightarrow> list_all run_evidence_ok (cb_runs cv)"

definition aggregate_complete :: "cv_aggregate \<Rightarrow> bool" where
  "aggregate_complete a \<longleftrightarrow> ca_finalScore a \<noteq> None \<and> ca_finalDecision a \<noteq> None"

fun check_completed :: "cv_block list \<Rightarrow> unit route" where
  "check_completed [] = Inr ()"
| "check_completed (cv # cvs) =
     (case cb_aggregated cv of
        None \<Rightarrow> Inl (raise_problem 502 ''Upstream contract error'' ''Completed result missing aggregated block.'')
      | Some a \<Rightarrow>
          (if \<not> aggregate_complete a
           then Inl (raise_problem 502 ''Upstream contract error'' ''Completed result missing required aggregate fields.'')
           else check_completed cvs))"

definition to_status_response ::
  "cv_block list api_env \<Rightarrow> string \<Rightarrow> cv_block list norm_status \<Rightarrow> status_response route" where
  "to_status_response aenv x raw =
     (let resp = \<lparr>sp_submission_id = x, sp_status = ns_status raw, sp_progress = ns_progress raw,
            sp_retry_after = ns_retry raw, sp_result = ns_result raw, sp_error = ns_error raw\<rparr>
      in case ns_result raw of
        None \<Rightarrow> Inr resp
      | Some cvs \<Rightarrow>
          (if \<not> list_all cv_result_ok cvs then Inl (OtherRaised (ap_invalid_text aenv cvs))
           else if ns_status raw = ''completed'' then map_sum id (\<lambda>_. resp) (check_completed cvs)
           else Inr resp))"

definition get_batch_status ::
  "cv_block list host_env \<Rightarrow> cv_block list api_env \<Rightarrow> bool \<Rightarrow> string \<Rightarrow> cv_block list hub \<Rightarrow> blobs \<Rightarrow>
   status_response route" where
  "get_batch_status env aenv reach x h s =
     (case fetch_batch_status env reach x h of
        Inr raw \<Rightarrow> to_status_response aenv x raw
      | Inl HttpxError \<Rightarrow> Inl (OtherRaised (ap_client_text aenv HttpxError))
      | Inl e \<Rightarrow>
          (if e = DurableClientError 404
           then (case read_batch_result_from_blob aenv x s of
               Inl e \<Rightarrow> Inl (OtherRaised (ap_error_text aenv e))
             | Inr None \<Rightarrow> Inl (raise_problem 404 ''Not Found'' (''submissionId '' @ x @ '' not found.''))
             | Inr (Some doc) \<Rightarrow> to_status_response aenv x
                 \<lparr>ns_status = ''completed'', ns_progress = None, ns_result = Some doc, ns_error = None, ns_retry = None\<rparr>)
           else Inl (upstream_error aenv e)))"

subsection \<open>Cancelling\<close>

text \<open>The answer is a status code and the word of \<^verbatim>\<open>CancelResponse\<close>.\<close>

definition cancel_batch ::
  "'d host_env \<Rightarrow> 'd api_env \<Rightarrow> bool \<Rightarrow> string \<Rightarrow> 'd hub \<Rightarrow> 'd hub \<times> (nat \<times> string) route" where
  "cancel_batch env aenv reach x h =
     (let (h', r) = request_cancel env reach x ''client requested cancel'' h
      in (h', case r of
            Inl HttpxError \<Rightarrow> Inl (OtherRaised (ap_client_text aenv HttpxError))
          | Inl e \<Rightarrow> Inl (upstream_error aenv e)
          | Inr st \<Rightarrow> Inr (if st = 409 then (409, ''completed'')
                           else if st = 200 then (200, ''cancelled'')
                           else (202, ''cancelling''))))"

subsection \<open>Laws\<close>

lemma check_completed_iff:
  "check_completed cvs = Inr () \<longleftrightarrow> (\<forall>cv \<in> set cvs. \<exists>a. cb_aggregated cv = Some a \<and> aggregate_complete a)"
  by (induction cvs rule: check_completed.induct) (auto split: option.splits)

lemma check_completed_error: "check_completed cvs = Inl e \<Longrightarrow> \<exists>p. e = ProblemRaised p \<and> pb_status p = 502"
  by (induction cvs rule: check_completed.induct)
     (auto simp: raise_problem_def problem_detail_def split: option.splits if_splits)

text \<open>Every status of a poll is a word of \<^verbatim>\<open>BatchStatus\<close>, so building the response never fails on it.\<close>

lemma status_word_known: "status_word r \<in> set batch_statuses"
  by (cases r rule: status_word.cases) (simp_all add: batch_statuses_def)

lemma normalize_status_word: "normalize_status env s = Inr n \<Longrightarrow> ns_status n = status_word (ds_runtime s)"
  by (auto simp: normalize_status_def Let_def bind_res_Inr_iff)

lemma to_status_response_status: "to_status_response aenv x raw = Inr resp \<Longrightarrow> sp_status resp = ns_status raw"
  by (auto simp: to_status_response_def Let_def map_sum_Inr_iff split: option.splits if_splits)

lemma polled_status_known: "get_batch_status env aenv reach x h s = Inr resp \<Longrightarrow> sp_status resp \<in> set batch_statuses"
proof -
  assume "get_batch_status env aenv reach x h s = Inr resp"
  then obtain raw where r: "to_status_response aenv x raw = Inr resp"
    and s: "fetch_batch_status env reach x h = Inr raw \<or> ns_status raw = ''completed''"
    by (auto simp: get_batch_status_def split: sum.splits client_error.splits option.splits if_splits)
  have "ns_status raw \<in> set batch_statuses" if "fetch_batch_status env reach x h = Inr raw"
    using that status_word_known
    by (auto simp: fetch_batch_status_def http_status_def bind_res_Inr_iff dest!: normalize_status_word
        split: if_splits sum.splits option.splits host_body.splits)
  with s to_status_response_status[OF r] show ?thesis by (auto simp: batch_statuses_def)
qed

lemma start_batch_simps:
  "\<not> reach \<Longrightarrow> start_batch env reach x p cid tp h = (h, Inl (DurableClientError 502))"
  "reach \<Longrightarrow> x \<noteq> [] \<Longrightarrow> p \<noteq> JNull \<Longrightarrow> status_exists (get_status env x h) \<Longrightarrow>
     start_batch env reach x p cid tp h = (h, Inr ())"
  "reach \<Longrightarrow> x \<noteq> [] \<Longrightarrow> p \<noteq> JNull \<Longrightarrow> \<not> status_exists (get_status env x h) \<Longrightarrow>
     start_batch env reach x p cid tp h = (start_new env x (trace_payload p cid tp) h, Inr ())"
  by (simp_all add: start_batch_def start_existing started_twice wire_status_def)

end
