(* ===== verification/ApiLaws.thy ===== *)
theory ApiLaws
  imports Api
begin

text \<open>
  The laws of the public routes over the task hub: what one submission, one poll and one
  cancellation do, the trace of a whole sequence of submissions, and the locale
  \<open>keyed_starts\<close> for a service that starts a job at most once per key, which the route
  \<^verbatim>\<open>POST /assess/batch\<close> is an instance of.
\<close>

subsection \<open>Starting at most once per key\<close>

text \<open>
  A service keeps a log of the jobs it started; a call has a key and is either refused (it
  changes nothing) or accepted. An accepted call starts its job exactly if its key is not
  known; it knows the keys in its log and no others.
\<close>

locale keyed_starts =
  fixes call :: "'c \<Rightarrow> 's \<Rightarrow> 's"
    and accepted :: "'c \<Rightarrow> bool"
    and key :: "'c \<Rightarrow> 'k"
    and job :: "'c \<Rightarrow> 'j"
    and log :: "'s \<Rightarrow> ('k \<times> 'j) list"
    and ok :: "'c \<Rightarrow> bool"
    and inv :: "'s \<Rightarrow> bool"
  assumes refused: "ok c \<Longrightarrow> inv s \<Longrightarrow> \<not> accepted c \<Longrightarrow> call c s = s"
    and known: "ok c \<Longrightarrow> inv s \<Longrightarrow> accepted c \<Longrightarrow> key c \<in> fst ` set (log s) \<Longrightarrow> call c s = s"
    and fresh: "ok c \<Longrightarrow> inv s \<Longrightarrow> accepted c \<Longrightarrow> key c \<notin> fst ` set (log s) \<Longrightarrow>
      log (call c s) = log s @ [(key c, job c)]"
    and inv_call: "ok c \<Longrightarrow> inv s \<Longrightarrow> inv (call c s)"
begin

definition calls :: "'c list \<Rightarrow> 's \<Rightarrow> 's" where
  "calls cs s = fold call cs s"

lemma calls_snoc: "calls (cs @ [c]) s = call c (calls cs s)"
  by (simp add: calls_def)

lemma inv_calls: "inv s \<Longrightarrow> list_all ok cs \<Longrightarrow> inv (calls cs s)"
  by (induction cs arbitrary: s) (simp_all add: calls_def inv_call)

theorem log_of_calls:
  assumes "inv s" and "log s = []" and "list_all ok cs"
  shows "distinct (map fst (log (calls cs s))) \<and>
    fst ` set (log (calls cs s)) = key ` set (filter accepted cs) \<and>
    (\<forall>(k, j) \<in> set (log (calls cs s)). \<exists>c rest. filter (\<lambda>c. accepted c \<and> key c = k) cs = c # rest \<and> j = job c)"
  using assms(3)
proof (induction cs rule: rev_induct)
  case Nil
  then show ?case using assms(2) by (simp add: calls_def)
next
  case (snoc c cs)
  let ?s = "calls cs s"
  from snoc have IH: "distinct (map fst (log ?s))" "fst ` set (log ?s) = key ` set (filter accepted cs)"
    "\<forall>(k, j) \<in> set (log ?s). \<exists>c rest. filter (\<lambda>c. accepted c \<and> key c = k) cs = c # rest \<and> j = job c"
    and ok: "ok c" and inv: "inv ?s" using inv_calls[OF assms(1)] by auto
  show ?case
  proof (cases "accepted c \<and> key c \<notin> fst ` set (log ?s)")
    case True
    then have l: "log (calls (cs @ [c]) s) = log ?s @ [(key c, job c)]"
      using fresh[OF ok inv] by (simp add: calls_snoc)
    have "\<forall>c' \<in> set cs. \<not> (accepted c' \<and> key c' = key c)"
    proof (intro ballI notI, elim conjE)
      fix c' assume "c' \<in> set cs" "accepted c'" "key c' = key c"
      then have "key c \<in> fst ` set (log ?s)" unfolding IH(2) by (simp add: rev_image_eqI)
      with True show False by simp
    qed
    then have "filter (\<lambda>c'. accepted c' \<and> key c' = key c) cs = []"
      unfolding filter_empty_conv .
    then have new: "filter (\<lambda>c'. accepted c' \<and> key c' = key c) (cs @ [c]) = [c]" using True by simp
    have "\<exists>c' rest. filter (\<lambda>c'. accepted c' \<and> key c' = k) (cs @ [c]) = c' # rest \<and> j = job c'"
      if "(k, j) \<in> set (log ?s)" for k j
      using IH(3) that by fastforce
    with new have "\<forall>(k, j) \<in> set (log ?s @ [(key c, job c)]).
        \<exists>c' rest. filter (\<lambda>c'. accepted c' \<and> key c' = k) (cs @ [c]) = c' # rest \<and> j = job c'"
      by auto
    moreover have "distinct (map fst (log ?s @ [(key c, job c)]))" using True IH(1) by simp
    moreover have "fst ` set (log ?s @ [(key c, job c)]) = key ` set (filter accepted (cs @ [c]))"
      using True IH(2) by simp
    ultimately show ?thesis unfolding l by blast
  next
    case False
    then have same: "calls (cs @ [c]) s = ?s"
      using refused[OF ok inv] known[OF ok inv] by (auto simp: calls_snoc)
    have "fst ` set (log ?s) = key ` set (filter accepted (cs @ [c]))" using False IH(2) by auto
    moreover have "\<exists>c' rest. filter (\<lambda>c'. accepted c' \<and> key c' = k) (cs @ [c]) = c' # rest \<and> j = job c'"
      if "(k, j) \<in> set (log ?s)" for k j
      using IH(3) that by fastforce
    ultimately show ?thesis unfolding same using IH(1) by blast
  qed
qed

end

subsection \<open>Submissions\<close>

record submit_call =
  sm_reach :: bool
  sm_key :: string
  sm_headers :: "(string \<times> string) list"
  sm_request :: submit_request

definition submitted :: "'d host_env \<Rightarrow> 'd api_env \<Rightarrow> submit_call \<Rightarrow> 'd hub \<Rightarrow> 'd hub" where
  "submitted env aenv c h = fst (submit_batch env aenv (sm_reach c) (sm_key c) (sm_headers c) (sm_request c) h)"

definition call_accepted :: "submit_call \<Rightarrow> bool" where
  "call_accepted c \<longleftrightarrow> sm_reach c \<and> sm_key c = sq_batch_id (sm_request c)"

definition call_payload :: "submit_call \<Rightarrow> json" where
  "call_payload c = trace_payload (JObj (dump_submit (sm_request c)))
     (header_or_empty (sm_headers c) ''x-correlation-id'') (header_or_empty (sm_headers c) ''traceparent'')"

text \<open>The instances the hub has are those it was told to start.\<close>

definition hub_exact :: "'d hub \<Rightarrow> bool" where
  "hub_exact h \<longleftrightarrow> dom (hb_instances h) = fst ` set (hb_started h) \<and>
     (\<forall>s \<in> ran (hb_instances h). status_exists (Some s))"

lemma hub_exact_exists:
  assumes "hub_exact h" and "\<not> status_exists (he_unknown env)"
  shows "status_exists (get_status env x h) \<longleftrightarrow> x \<in> fst ` set (hb_started h)"
proof (cases "hb_instances h x")
  case None
  then have "x \<notin> fst ` set (hb_started h)" using assms(1) unfolding hub_exact_def by blast
  with None assms(2) show ?thesis by (simp add: get_status_def)
next
  case (Some s)
  then have "x \<in> fst ` set (hb_started h)" "status_exists (Some s)"
    using assms(1) unfolding hub_exact_def ran_def by blast+
  with Some show ?thesis by (simp add: get_status_def)
qed

lemma submit_batch_cases:
  assumes "sq_batch_id rq \<noteq> []"
  shows "submit_batch env aenv reach key hs rq h =
    (if key \<noteq> sq_batch_id rq
     then (h, Inl (raise_problem 400 ''Idempotency-Key mismatch'' ''Idempotency-Key header must equal body.batchId.''))
     else if \<not> reach then (h, Inl (upstream_error aenv (DurableClientError 502)))
     else
       (if status_exists (get_status env (sq_batch_id rq) h) then h
        else start_new env (sq_batch_id rq) (trace_payload (JObj (dump_submit rq))
          (header_or_empty hs ''x-correlation-id'') (header_or_empty hs ''traceparent'')) h,
        Inr \<lparr>su_submission_id = sq_batch_id rq, su_status = ''queued'',
             su_poll_url = ''/assess/batch/'' @ sq_batch_id rq @ ''/status'',
             su_estimated = max 60 (length (sq_cvs rq) * sq_run_count rq * 20)\<rparr>))"
  using assms by (simp add: submit_batch_def start_batch_simps)

lemma submitted_simps:
  assumes "sq_batch_id (sm_request c) \<noteq> []" and "hub_exact h" and "\<not> status_exists (he_unknown env)"
  shows "\<not> call_accepted c \<Longrightarrow> submitted env aenv c h = h"
    "sm_key c \<in> fst ` set (hb_started h) \<Longrightarrow> submitted env aenv c h = h"
    "call_accepted c \<Longrightarrow> sm_key c \<notin> fst ` set (hb_started h) \<Longrightarrow>
       submitted env aenv c h = start_new env (sm_key c) (call_payload c) h"
proof -
  note S = submitted_def call_accepted_def call_payload_def submit_batch_cases[OF assms(1)] hub_exact_exists[OF assms(2,3)]
  show "\<not> call_accepted c \<Longrightarrow> submitted env aenv c h = h" by (auto simp: S)
  show "sm_key c \<in> fst ` set (hb_started h) \<Longrightarrow> submitted env aenv c h = h" by (cases "sm_key c = sq_batch_id (sm_request c)") (simp_all add: S)
  show "call_accepted c \<Longrightarrow> sm_key c \<notin> fst ` set (hb_started h) \<Longrightarrow>
       submitted env aenv c h = start_new env (sm_key c) (call_payload c) h" by (simp add: S)
qed

lemma start_new_exact: "hub_exact h \<Longrightarrow> x \<notin> fst ` set (hb_started h) \<Longrightarrow> hub_exact (start_new env x p h)"
  unfolding hub_exact_def start_new_def by (auto simp: ran_def fresh_exists split: if_splits)

lemma submitted_exact:
  assumes "sq_batch_id (sm_request c) \<noteq> []" and "hub_exact h" and "\<not> status_exists (he_unknown env)"
  shows "hub_exact (submitted env aenv c h)"
  using submitted_simps[OF assms, of aenv] assms(2) start_new_exact[OF assms(2)] by metis

interpretation submissions: keyed_starts "submitted env aenv" call_accepted sm_key call_payload hb_started
  "\<lambda>c. sq_batch_id (sm_request c) \<noteq> []" "\<lambda>h. hub_exact h \<and> \<not> status_exists (he_unknown env)"
  for env :: "'d host_env" and aenv :: "'d api_env"
proof unfold_locales
  fix c :: submit_call and h :: "'d hub"
  assume c: "sq_batch_id (sm_request c) \<noteq> []" and h: "hub_exact h \<and> \<not> status_exists (he_unknown env)"
  note S = submitted_simps[OF c conjunct1[OF h] conjunct2[OF h], of aenv]
  show "\<not> call_accepted c \<Longrightarrow> submitted env aenv c h = h" by (rule S(1))
  show "sm_key c \<in> fst ` set (hb_started h) \<Longrightarrow> submitted env aenv c h = h" by (rule S(2))
  show "call_accepted c \<Longrightarrow> sm_key c \<notin> fst ` set (hb_started h) \<Longrightarrow>
      hb_started (submitted env aenv c h) = hb_started h @ [(sm_key c, call_payload c)]"
    by (simp add: S(3) start_new_def)
  show "hub_exact (submitted env aenv c h) \<and> \<not> status_exists (he_unknown env)"
    using submitted_exact[OF c] h by blast
qed

subsection \<open>Polls\<close>

lemma poll_existing:
  assumes "get_status env x h = Some s" and "status_exists (Some s)"
  shows "get_batch_status env aenv True x h st =
    (case normalize_status env s of
       Inl e \<Rightarrow> Inl (upstream_error aenv (DurableClientError 500))
     | Inr n \<Rightarrow> to_status_response aenv x n)"
  using assms by (simp add: get_batch_status_def fetch_batch_status_def http_status_def split: sum.splits)

lemma poll_unknown:
  assumes "\<not> status_exists (get_status env x h)"
  shows "get_batch_status env aenv True x h st =
    (case read_batch_result_from_blob aenv x st of
       Inl e \<Rightarrow> Inl (OtherRaised (ap_error_text aenv e))
     | Inr None \<Rightarrow> Inl (raise_problem 404 ''Not Found'' (''submissionId '' @ x @ '' not found.''))
     | Inr (Some doc) \<Rightarrow> to_status_response aenv x
         \<lparr>ns_status = ''completed'', ns_progress = None, ns_result = Some doc, ns_error = None, ns_retry = None\<rparr>)"
  using assms
  by (cases "get_status env x h") (simp_all add: get_batch_status_def fetch_batch_status_def http_status_def)

text \<open>What the finalize activity stored is what the fallback of the poll reads.\<close>

lemma stored_result_read:
  assumes "finalize_batch fenv inp blobs = (blobs', Inr doc)"
    and "ap_account aenv \<noteq> []" and "ap_container aenv = fz_container fenv"
    and "ap_net aenv (ap_container aenv, batch_result_path (fi_batch_id inp)) = Answered"
    and "\<forall>r \<in> set (fi_run_results inp). printed (ap_float aenv) (JObj (tr_result r))"
    and "floats_back (ap_float aenv) (fz_text fenv) doc"
  shows "read_batch_result_from_blob aenv (fi_batch_id inp) blobs' = Inr (Some doc)"
proof -
  let ?text = "json_dumps (result_doc (fz_text fenv) doc)"
  note d = finalize_batch_Inr(1)[OF assms(1)] and up = finalize_batch_Inr(2)[OF assms(1)]
  have "parse_result aenv ?text = Some doc"
    using document_roundtrip[OF d assms(5,6)] by (simp add: parse_result_def view_document)
  with container.read_back[OF up] assms(2-4) show ?thesis by (simp add: read_batch_result_from_blob_def)
qed

definition completed_with :: "cv_block list durable_status \<Rightarrow> cv_block list \<Rightarrow> bool" where
  "completed_with s doc \<longleftrightarrow> ds_runtime s = Some RsCompleted \<and> status_exists (Some s) \<and> ds_output s = DocOutput doc"

lemma poll_completed:
  assumes "get_status env x h = Some s" and "completed_with s doc"
  shows "get_batch_status env aenv True x h st = to_status_response aenv x
    \<lparr>ns_status = ''completed'', ns_progress = ds_custom s, ns_result = Some doc, ns_error = None, ns_retry = None\<rparr>"
proof -
  from assms(2) have c: "ds_runtime s = Some RsCompleted" "status_exists (Some s)" "ds_output s = DocOutput doc"
    by (simp_all add: completed_with_def)
  then have n: "normalize_status env s =
      Inr \<lparr>ns_status = ''completed'', ns_progress = ds_custom s, ns_result = Some doc, ns_error = None, ns_retry = None\<rparr>"
    by (simp add: normalize_status_def)
  show ?thesis by (simp add: poll_existing[OF assms(1) c(2)] n)
qed

lemma completed_response:
  "to_status_response aenv x \<lparr>ns_status = ''completed'', ns_progress = pr, ns_result = Some doc, ns_error = None, ns_retry = None\<rparr> =
    (if \<not> list_all cv_result_ok doc then Inl (OtherRaised (ap_invalid_text aenv doc))
     else map_sum id (\<lambda>_. \<lparr>sp_submission_id = x, sp_status = ''completed'', sp_progress = pr, sp_retry_after = None,
       sp_result = Some doc, sp_error = None\<rparr>) (check_completed doc))"
  by (simp add: to_status_response_def)

text \<open>The answer from the stored result, when the instance is gone.\<close>

lemma purged_poll:
  assumes "finalize_batch fenv inp blobs = (blobs', Inr doc)"
    and "ap_account aenv \<noteq> []" and "ap_container aenv = fz_container fenv"
    and "ap_net aenv (ap_container aenv, batch_result_path (fi_batch_id inp)) = Answered"
    and "\<forall>r \<in> set (fi_run_results inp). printed (ap_float aenv) (JObj (tr_result r))"
    and "floats_back (ap_float aenv) (fz_text fenv) doc"
    and "get_status env (fi_batch_id inp) h = Some s" and "completed_with s doc"
    and "\<not> status_exists (get_status env (fi_batch_id inp) h')"
  shows "get_batch_status env aenv True (fi_batch_id inp) h' blobs' =
    map_sum id (\<lambda>resp. resp\<lparr>sp_progress := None\<rparr>) (get_batch_status env aenv True (fi_batch_id inp) h bl)"
  using stored_result_read[OF assms(1-6)]
  by (simp add: poll_unknown[OF assms(9)] poll_completed[OF assms(7,8)] completed_response sum.map_comp comp_def id_def)

subsection \<open>Cancellations\<close>

lemma project_state_event:
  obtains ev where "project_state env x s st etype cid tp h = (h\<lparr>hb_projected := hb_projected h @ [ev]\<rparr>, Inr ())"
    "build_batch_state_live_event x (ds_custom s) st etype (he_now env) cid tp = Inr ev"
proof -
  obtain ev where "build_batch_state_live_event x (ds_custom s) st etype (he_now env) cid tp = Inr ev"
    using state_event_built by blast
  with that show thesis by (simp add: project_state_def)
qed

lemma cancel_live:
  assumes "get_status env x h = Some s" and "status_exists (Some s)"
    and "ds_runtime s \<noteq> Some RsCompleted" and "ds_runtime s \<noteq> Some RsTerminated"
  shows "\<exists>ev. cancel_batch env aenv True x h =
      (h\<lparr>hb_terminations := hb_terminations h @ [(x, JStr ''client requested cancel'')],
         hb_projected := hb_projected h @ [ev]\<rparr>, Inr (202, ''cancelling'')) \<and>
    ev_eventType ev = ''batch.cancelling'' \<and> (\<forall>p. ds_custom s = Some p \<longrightarrow> ev_sequence ev = next_event_sequence p)"
proof -
  let ?h = "h\<lparr>hb_terminations := hb_terminations h @ [(x, JStr ''client requested cancel'')]\<rparr>"
  obtain ev where e: "project_state env x s ''cancelling'' ''batch.cancelling'' [] [] ?h = (?h\<lparr>hb_projected := hb_projected ?h @ [ev]\<rparr>, Inr ())"
    "build_batch_state_live_event x (ds_custom s) ''cancelling'' ''batch.cancelling'' (he_now env) [] [] = Inr ev"
    by (rule project_state_event)
  have "cancel_batch env aenv True x h =
      (h\<lparr>hb_terminations := hb_terminations h @ [(x, JStr ''client requested cancel'')],
         hb_projected := hb_projected h @ [ev]\<rparr>, Inr (202, ''cancelling''))"
    using assms e(1) by (simp add: cancel_batch_def request_cancel_def http_terminate_def wire_status_def terminate_reason_def)
  moreover have "\<forall>p. ds_custom s = Some p \<longrightarrow> ev_sequence ev = next_event_sequence p"
    using e(2) by (auto dest: state_event_sequence(1))
  ultimately show ?thesis using state_event_type[OF e(2)] by blast
qed

subsection \<open>What the orchestrator gets\<close>

lemma map_of_dset: "map_of (dset d k v) k' = (if k' = k then Some v else map_of d k')"
  by (simp add: dset_def update_conv')

lemma map_of_merge_trace:
  "map_of (merge_trace d cid tp) k =
    (if k = ''traceparent'' \<and> tp \<noteq> [] then Some (JStr tp)
     else if k = ''correlationId'' \<and> cid \<noteq> [] then Some (JStr cid) else map_of d k)"
  by (simp add: merge_trace_def map_of_dset)

lemma payload_valid:
  assumes "\<forall>n. rd_int rd (JInt n) = Some n" and "1 \<le> sq_run_count rq"
  shows "validate_batch_payload rd (merge_trace (dump_submit rq) cid tp) = Inr
    \<lparr>by_batch_id = sq_batch_id rq, by_job_id = sq_job_id rq, by_prompt_version_id = sq_prompt_version_id rq,
     by_run_count = sq_run_count rq, by_prompt = [(''kind'', JStr ''inline''), (''text'', JStr (sq_prompt_text rq))],
     by_cvs = map dump_cv_ref (sq_cvs rq)\<rparr>"
  using assms
  by (simp add: validate_batch_payload_def any_text_field_def read_field_def used_key_def dhas_def
      map_of_merge_trace dump_submit_def as_dicts_dump del: as_dicts.simps)

lemma payload_input:
  "orch_input_of (merge_trace (dump_submit rq) cid tp)
    \<lparr>by_batch_id = b, by_job_id = j, by_prompt_version_id = v, by_run_count = n, by_prompt = p,
     by_cvs = map dump_cv_ref (sq_cvs rq)\<rparr> = Some
    \<lparr>in_batch_id = b, in_job_id = j, in_run_count = n, in_prompt = p, in_cvs = sq_cvs rq,
     in_correlationId = (if cid = [] then JNull else JStr cid), in_correlation_id = JNull,
     in_traceparent = (if tp = [] then JNull else JStr tp)\<rparr>"
proof -
  have "list_all (\<lambda>d. cv_of_dict d \<noteq> None) (map dump_cv_ref (sq_cvs rq))" by (simp add: list_all_iff cv_of_dump)
  then show ?thesis
    by (simp add: orch_input_of_def cvs_of_dump dget_def map_of_merge_trace dump_submit_def)
qed

end
