(* ===== verification/ApiProperties.thy ===== *)
theory ApiProperties
  imports ApiLaws
begin

text \<open>The properties of the public routes, with a hub that holds one instance.\<close>

definition api_unknown :: "'d host_env" where
  "api_unknown = \<lparr>he_unknown = None, he_now = ''t'', he_text = (\<lambda>s. Inl (ValueError [])), he_key = (\<lambda>v. Inl (TypeError []))\<rparr>"

definition api_client :: "'d api_env" where
  "api_client = \<lparr>ap_account = ''acct'', ap_container = ''batch-results'', ap_net = reliable,
     ap_float = (\<lambda>t. Some (JFloat (if t = ''70.0'' then 70 else 0) t)), ap_foreign = (\<lambda>v. None),
     ap_client_text = (\<lambda>e. ''functions host''), ap_error_text = (\<lambda>e. ''error''), ap_invalid_text = (\<lambda>d. ''invalid'')\<rparr>"

definition empty_hub :: "'d hub" where
  "empty_hub = \<lparr>hb_instances = Map.empty, hb_started = [], hb_terminations = [], hb_projected = []\<rparr>"

definition api_status :: "runtime_status \<Rightarrow> 'd instance_output \<Rightarrow> 'd durable_status" where
  "api_status st out = \<lparr>ds_runtime = Some st, ds_created = Some ''t0'', ds_updated = Some ''t1'', ds_name = ''batch_orchestrator'',
     ds_custom = None, ds_output = out\<rparr>"

definition hub_with :: "string \<Rightarrow> 'd durable_status \<Rightarrow> 'd hub" where
  "hub_with x s = empty_hub\<lparr>hb_instances := [x \<mapsto> s]\<rparr>"

definition api_cv :: cv_ref where
  "api_cv = \<lparr>cv_applicationId = ''a1'', cv_documentId = ''d1'', cv_fileName = ''cv.pdf'', cv_mimeType = ''application/pdf'',
     cv_blobUri = ''https://x/cv.pdf'', cv_sha256 = replicate 64 CHR ''0''\<rparr>"

definition api_request :: submit_request where
  "api_request = \<lparr>sq_batch_id = ''b1'', sq_job_id = ''j1'', sq_prompt_version_id = ''v1'', sq_run_count = 2,
     sq_prompt_text = ''score'', sq_cvs = [api_cv], sq_callback_url = None\<rparr>"

definition api_call :: "string \<Rightarrow> submit_call" where
  "api_call key = \<lparr>sm_reach = True, sm_key = key, sm_headers = [], sm_request = api_request\<rparr>"

definition api_block :: "cv_aggregate option \<Rightarrow> cv_block" where
  "api_block agg = \<lparr>cb_applicationId = ''a1'', cb_documentId = ''d1'', cb_runs = [], cb_aggregated = agg, cb_error = None\<rparr>"

text \<open>C27: over any sequence of submissions, retried, repeated with another body or failing on
  the way, a batch id is started at most once, exactly the ids of the accepted calls are
  started, and each with the payload and the trace headers of its first accepted submission.
  No call is ever answered 409: a second, different submission of an id is accepted and
  dropped.\<close>

theorem each_batch_started_once:
  fixes env :: "'d host_env"
  assumes "\<not> status_exists (he_unknown env)" and "list_all (\<lambda>c. sq_batch_id (sm_request c) \<noteq> []) calls"
  shows "let log = hb_started (fold (submitted env aenv) calls empty_hub) in
    distinct (map fst log) \<and> fst ` set log = sm_key ` set (filter call_accepted calls) \<and>
    (\<forall>(x, p) \<in> set log. \<exists>c rest. filter (\<lambda>c. call_accepted c \<and> sm_key c = x) calls = c # rest \<and> p = call_payload c) \<and>
    (\<forall>c \<in> set calls. \<forall>h p. snd (submit_batch env aenv (sm_reach c) (sm_key c) (sm_headers c) (sm_request c) h) =
       Inl (ProblemRaised p) \<longrightarrow> pb_status p \<noteq> 409)"
proof -
  have "hub_exact (empty_hub :: 'd hub)" by (simp add: hub_exact_def empty_hub_def)
  then have "hub_exact (empty_hub :: 'd hub) \<and> \<not> status_exists (he_unknown env)" using assms(1) by simp
  moreover have "hb_started (empty_hub :: 'd hub) = []" by (simp add: empty_hub_def)
  ultimately have log: "let log = hb_started (fold (submitted env aenv) calls empty_hub) in
    distinct (map fst log) \<and> fst ` set log = sm_key ` set (filter call_accepted calls) \<and>
    (\<forall>(x, p) \<in> set log. \<exists>c rest. filter (\<lambda>c. call_accepted c \<and> sm_key c = x) calls = c # rest \<and> p = call_payload c)"
    using submissions.log_of_calls[OF _ _ assms(2), of empty_hub env aenv]
    unfolding submissions.calls_def Let_def by blast
  have "\<forall>c \<in> set calls. \<forall>h p. snd (submit_batch env aenv (sm_reach c) (sm_key c) (sm_headers c) (sm_request c) h) =
       Inl (ProblemRaised p) \<longrightarrow> pb_status p \<noteq> 409"
    using assms(2) by (auto simp: list_all_iff submit_batch_cases raise_problem_def upstream_error_def problem_detail_def)
  with log show ?thesis by (simp only: Let_def) blast
qed

theorem each_batch_started_once_witness:
  "hb_started (fold (submitted api_unknown api_client) [api_call ''b2'', api_call ''b1'', api_call ''b1''] (empty_hub :: unit hub)) =
     [(''b1'', call_payload (api_call ''b1''))]"
proof -
  let ?cs = "[api_call ''b2'', api_call ''b1'', api_call ''b1'']"
  let ?log = "hb_started (fold (submitted api_unknown api_client) ?cs (empty_hub :: unit hub))"
  have "\<not> status_exists (he_unknown (api_unknown :: unit host_env))"
    "list_all (\<lambda>c. sq_batch_id (sm_request c) \<noteq> []) ?cs"
    by (simp_all add: status_exists_def api_unknown_def api_call_def api_request_def)
  from each_batch_started_once[OF this, of api_client]
  have L: "distinct (map fst ?log)" "fst ` set ?log = {''b1''}"
    "\<forall>(x, p) \<in> set ?log. \<exists>c rest. filter (\<lambda>c. call_accepted c \<and> sm_key c = x) ?cs = c # rest \<and> p = call_payload c"
    unfolding Let_def by (auto simp: call_accepted_def api_call_def api_request_def)
  have "set (map fst ?log) = {''b1''}" using L(2) by simp
  with L(1) have "map fst ?log = [''b1'']" by (rule distinct_singleton_set)
  then obtain p where p: "?log = [(''b1'', p)]" by (cases ?log) auto
  with L(3) show ?thesis by (auto simp: call_accepted_def api_call_def api_request_def)
qed

text \<open>C28: the poll of a completed batch answers with the stored document exactly if every CV of
  it has a complete aggregate and well-typed run evidence; with a missing or incomplete
  aggregate it answers 502, whatever the other CVs have.\<close>

theorem poll_delivers_iff_complete:
  assumes "get_status env x h = Some s" and "completed_with s doc"
  shows "((\<exists>resp. get_batch_status env aenv True x h st = Inr resp) \<longleftrightarrow>
      (\<forall>cv \<in> set doc. cv_result_ok cv \<and> (\<exists>a. cb_aggregated cv = Some a \<and> aggregate_complete a))) \<and>
    (\<forall>resp. get_batch_status env aenv True x h st = Inr resp \<longrightarrow>
      sp_status resp = ''completed'' \<and> sp_result resp = Some doc \<and> sp_progress resp = ds_custom s \<and> sp_retry_after resp = None) \<and>
    ((\<forall>cv \<in> set doc. cv_result_ok cv) \<and> (\<exists>cv \<in> set doc. \<forall>a. cb_aggregated cv = Some a \<longrightarrow> \<not> aggregate_complete a) \<longrightarrow>
      (\<exists>p. get_batch_status env aenv True x h st = Inl (ProblemRaised p) \<and> pb_status p = 502))"
proof (cases "list_all cv_result_ok doc")
  case False
  then show ?thesis
    by (auto simp: poll_completed[OF assms] completed_response list_all_iff)
next
  case True
  show ?thesis
  proof (cases "check_completed doc")
    case (Inl e)
    then obtain p where p: "e = ProblemRaised p" "pb_status p = 502" using check_completed_error by blast
    have "\<not> (\<forall>cv \<in> set doc. \<exists>a. cb_aggregated cv = Some a \<and> aggregate_complete a)"
      using Inl check_completed_iff[of doc] by simp
    with True Inl p show ?thesis
      by (simp add: poll_completed[OF assms] completed_response) blast
  next
    case (Inr u)
    then have "\<forall>cv \<in> set doc. \<exists>a. cb_aggregated cv = Some a \<and> aggregate_complete a"
      using check_completed_iff[of doc] by simp
    with True Inr show ?thesis
      by (auto simp: poll_completed[OF assms] completed_response list_all_iff)
  qed
qed

theorem poll_delivers_iff_complete_witness:
  "\<exists>p. get_batch_status api_unknown api_client True ''b1'' (hub_with ''b1'' (api_status RsCompleted (DocOutput [api_block None]))) Map.empty =
     Inl (ProblemRaised p) \<and> pb_status p = 502"
proof -
  let ?s = "api_status RsCompleted (DocOutput [api_block None])"
  have "get_status api_unknown ''b1'' (hub_with ''b1'' ?s) = Some ?s" "completed_with ?s [api_block None]"
    by (simp_all add: get_status_def hub_with_def completed_with_def status_exists_def api_status_def)
  from poll_delivers_iff_complete[OF this] show ?thesis
    by (simp add: api_block_def cv_result_ok_def)
qed

text \<open>C29: one CV without a run of the exact status \<^verbatim>\<open>Succeeded\<close> keeps the whole result
  of a completed batch from its client: every poll of it is answered 502, although the
  orchestrator completed and stored the document.\<close>

theorem unsuccessful_cv_never_delivered:
  assumes "finalize_document fenv inp = Inr doc" and "cv \<in> set (fi_cvs inp)"
    and "\<forall>r \<in> set (fi_run_results inp). tr_application_id r = cv_applicationId cv \<longrightarrow>
      dget (tr_result r) ''status'' \<noteq> JStr ''Succeeded''"
    and "list_all cv_result_ok doc"
    and "get_status env x h = Some s" and "completed_with s doc"
  shows "\<exists>p. get_batch_status env aenv True x h st = Inl (ProblemRaised p) \<and> pb_status p = 502"
proof -
  from assms(2) obtain i where i: "i < length (fi_cvs inp)" "cv = fi_cvs inp ! i" by (metis in_set_conv_nth)
  have block: "cv_block_of fenv (fi_run_results inp) cv = Inr (doc ! i)"
    using map_res_nth[OF assms(1)[unfolded finalize_document_def] i(1)] i(2) by simp
  have "doc ! i \<in> set doc" using i(1) finalize_length[OF assms(1)] by simp
  moreover have "cb_aggregated (doc ! i) = None" by (rule block_without_success[OF block assms(3)])
  ultimately have "check_completed doc \<noteq> Inr ()" unfolding check_completed_iff by force
  then obtain e where "check_completed doc = Inl e" by (cases "check_completed doc") auto
  moreover from this obtain p where "e = ProblemRaised p" "pb_status p = 502" using check_completed_error by blast
  ultimately show ?thesis using assms(4) by (simp add: poll_completed[OF assms(5,6)] completed_response)
qed

definition api_fenv :: finalize_env where
  "api_fenv = \<lparr>fz_container = ''batch-results'', fz_net = reliable, fz_fetch = (\<lambda>u. Inr (json_dumps (JObj [(''overall_score'', JInt 70), (''decision'', JStr ''approve'')]))),
     fz_float = (\<lambda>s. None),
     fz_set_iter = remdups, fz_text = (\<lambda>x. if x = 70 then ''70.0'' else ''0.0'')\<rparr>"

definition api_finalize_input :: "string \<Rightarrow> finalize_input" where
  "api_finalize_input st = \<lparr>fi_batch_id = ''b1'', fi_cvs = [api_cv], fi_run_results =
     [\<lparr>tr_application_id = ''a1'', tr_run_index = 0, tr_result = [(''run_id'', JStr ''r''), (''status'', JStr st),
        (''artifacts'', JList [JObj [(''name'', JStr ''output.json''), (''blob_uri'', JStr ''u'')]])]\<rparr>]\<rparr>"

lemma api_document: "\<exists>doc. finalize_document api_fenv (api_finalize_input st) = Inr doc \<and> list_all cv_result_ok doc"
  if "st = ''Succeeded'' \<or> st = ''Partial''"
proof -
  have "case finalize_document api_fenv (api_finalize_input ''Succeeded'') of Inr doc \<Rightarrow> list_all cv_result_ok doc | Inl e \<Rightarrow> False"
    "case finalize_document api_fenv (api_finalize_input ''Partial'') of Inr doc \<Rightarrow> list_all cv_result_ok doc | Inl e \<Rightarrow> False"
    by code_simp+
  with that show ?thesis by (auto split: sum.splits)
qed

theorem unsuccessful_cv_never_delivered_witness:
  "\<exists>doc p. finalize_document api_fenv (api_finalize_input ''Partial'') = Inr doc \<and>
     get_batch_status api_unknown api_client True ''b1'' (hub_with ''b1'' (api_status RsCompleted (DocOutput doc))) Map.empty =
       Inl (ProblemRaised p) \<and> pb_status p = 502"
proof -
  from api_document obtain doc where doc: "finalize_document api_fenv (api_finalize_input ''Partial'') = Inr doc" "list_all cv_result_ok doc"
    by blast
  let ?s = "api_status RsCompleted (DocOutput doc)"
  have "get_status api_unknown ''b1'' (hub_with ''b1'' ?s) = Some ?s" "completed_with ?s doc"
    by (simp_all add: get_status_def hub_with_def completed_with_def status_exists_def api_status_def)
  from unsuccessful_cv_never_delivered[OF doc(1) _ _ doc(2) this, of api_cv api_client Map.empty] doc(1)
  show ?thesis by (auto simp: api_finalize_input_def)
qed

text \<open>C30: the result of a completed batch outlives the Durable history: when the instance is
  gone, the poll answers from the stored result blob what it answered before, result, status
  and errors included; only the progress block is lost. Nothing is assumed of the document: the
  text the activity stored is read back whenever the results of the runs came from JSON and the
  text of a float is read as that float.\<close>

theorem purged_history_same_answer:
  assumes "finalize_batch fenv inp blobs = (blobs', Inr doc)"
    and "ap_account aenv \<noteq> []" and "ap_container aenv = fz_container fenv"
    and "ap_net aenv (ap_container aenv, batch_result_path (fi_batch_id inp)) = Answered"
    and "\<forall>r \<in> set (fi_run_results inp). printed (ap_float aenv) (JObj (tr_result r))"
    and "floats_back (ap_float aenv) (fz_text fenv) doc"
    and "get_status env (fi_batch_id inp) h = Some s" and "completed_with s doc"
    and "\<not> status_exists (get_status env (fi_batch_id inp) h')"
  shows "get_batch_status env aenv True (fi_batch_id inp) h' blobs' =
    map_sum id (\<lambda>resp. resp\<lparr>sp_progress := None\<rparr>) (get_batch_status env aenv True (fi_batch_id inp) h blobs')"
  by (rule purged_poll[OF assms])

lemma api_document_floats:
  assumes "finalize_document api_fenv (api_finalize_input ''Succeeded'') = Inr doc"
  shows "floats_back (ap_float (api_client :: cv_block list api_env)) (fz_text api_fenv) doc"
proof -
  have "case finalize_document api_fenv (api_finalize_input ''Succeeded'') of
      Inr doc \<Rightarrow> set (concat (map block_floats doc)) \<subseteq> {70, 0} | Inl e \<Rightarrow> False" by code_simp
  moreover have "float_text ''70.0''" "float_text ''0.0''" by code_simp+
  ultimately show ?thesis
    using assms by (auto simp: floats_back_def list_all_iff api_client_def api_fenv_def)
qed

theorem purged_history_same_answer_witness:
  "\<exists>doc blobs'. finalize_batch api_fenv (api_finalize_input ''Succeeded'') Map.empty = (blobs', Inr doc) \<and>
     get_batch_status api_unknown api_client True ''b1'' empty_hub blobs' =
     map_sum id (\<lambda>resp. resp\<lparr>sp_progress := None\<rparr>)
       (get_batch_status api_unknown api_client True ''b1'' (hub_with ''b1'' (api_status RsCompleted (DocOutput doc))) blobs')"
proof -
  let ?inp = "api_finalize_input ''Succeeded''" and ?client = "api_client :: cv_block list api_env"
  from api_document obtain doc where doc: "finalize_document api_fenv ?inp = Inr doc" by blast
  then obtain blobs' where f: "finalize_batch api_fenv ?inp Map.empty = (blobs', Inr doc)"
    by (simp add: finalize_batch_answered api_fenv_def)
  let ?s = "api_status RsCompleted (DocOutput doc)"
  have g: "get_status api_unknown (fi_batch_id ?inp) (hub_with ''b1'' ?s) = Some ?s" "completed_with ?s doc"
    by (simp_all add: get_status_def hub_with_def completed_with_def status_exists_def api_status_def api_finalize_input_def)
  have c: "ap_account ?client \<noteq> []" "ap_container ?client = fz_container api_fenv"
    "\<not> status_exists (get_status api_unknown (fi_batch_id ?inp) (empty_hub :: cv_block list hub))"
    by (simp_all add: api_client_def api_fenv_def get_status_def empty_hub_def status_exists_def api_unknown_def)
  have n: "ap_net ?client (ap_container ?client, batch_result_path (fi_batch_id ?inp)) = Answered" by (simp add: api_client_def)
  have "\<forall>r \<in> set (fi_run_results ?inp). printed (ap_float ?client) (JObj (tr_result r))"
    by (simp add: api_finalize_input_def)
  from purged_history_same_answer[OF f c(1,2) n this api_document_floats[OF doc] g c(3)] f
  show ?thesis by (auto simp: api_finalize_input_def)
qed

text \<open>C31: a cancellation on every branch: a completed batch answers 409 and nothing changes; a
  terminated one answers 200 and is announced again; a live one answers 202, its termination
  is requested, and its \<^verbatim>\<open>batch.cancelling\<close> event has the next number of the published
  document. An id the platform does not know also answers 202 \<^verbatim>\<open>cancelling\<close>, and
  nothing happens.\<close>

theorem cancel_every_branch:
  shows "(\<not> status_exists (get_status env x h) \<longrightarrow> cancel_batch env aenv True x h = (h, Inr (202, ''cancelling''))) \<and>
    (\<forall>s. get_status env x h = Some s \<and> status_exists (Some s) \<longrightarrow>
      (if ds_runtime s = Some RsCompleted then cancel_batch env aenv True x h = (h, Inr (409, ''completed''))
       else if ds_runtime s = Some RsTerminated
       then \<exists>ev. cancel_batch env aenv True x h = (h\<lparr>hb_projected := hb_projected h @ [ev]\<rparr>, Inr (200, ''cancelled'')) \<and>
              ev_eventType ev = ''batch.cancelled''
       else \<exists>ev. cancel_batch env aenv True x h =
                (h\<lparr>hb_terminations := hb_terminations h @ [(x, JStr ''client requested cancel'')],
                   hb_projected := hb_projected h @ [ev]\<rparr>, Inr (202, ''cancelling'')) \<and>
              ev_eventType ev = ''batch.cancelling'' \<and>
              (\<forall>p. ds_custom s = Some p \<longrightarrow> ev_sequence ev = next_event_sequence p)))"
proof (intro conjI impI allI)
  assume "\<not> status_exists (get_status env x h)"
  then show "cancel_batch env aenv True x h = (h, Inr (202, ''cancelling''))"
    by (cases "get_status env x h") (simp_all add: cancel_batch_def request_cancel_def http_terminate_def wire_status_def)
next
  fix s
  assume s: "get_status env x h = Some s \<and> status_exists (Some s)"
  note C = cancel_batch_def request_cancel_def http_terminate_def wire_status_def terminate_reason_def
  obtain ev1 where e1: "project_state env x s ''cancelled'' ''batch.cancelled'' [] [] h = (h\<lparr>hb_projected := hb_projected h @ [ev1]\<rparr>, Inr ())"
    "build_batch_state_live_event x (ds_custom s) ''cancelled'' ''batch.cancelled'' (he_now env) [] [] = Inr ev1"
    by (rule project_state_event)
  show "if ds_runtime s = Some RsCompleted then cancel_batch env aenv True x h = (h, Inr (409, ''completed''))
       else if ds_runtime s = Some RsTerminated
       then \<exists>ev. cancel_batch env aenv True x h = (h\<lparr>hb_projected := hb_projected h @ [ev]\<rparr>, Inr (200, ''cancelled'')) \<and>
              ev_eventType ev = ''batch.cancelled''
       else \<exists>ev. cancel_batch env aenv True x h =
                (h\<lparr>hb_terminations := hb_terminations h @ [(x, JStr ''client requested cancel'')],
                   hb_projected := hb_projected h @ [ev]\<rparr>, Inr (202, ''cancelling'')) \<and>
              ev_eventType ev = ''batch.cancelling'' \<and>
              (\<forall>p. ds_custom s = Some p \<longrightarrow> ev_sequence ev = next_event_sequence p)"
  proof (cases "ds_runtime s = Some RsCompleted \<or> ds_runtime s = Some RsTerminated")
    case True
    with s e1 state_event_type[OF e1(2)] show ?thesis by (auto simp: C)
  next
    case False
    with s cancel_live[of env x h s aenv] show ?thesis by simp
  qed
qed

theorem cancel_every_branch_witness:
  "cancel_batch api_unknown api_client True ''b9'' (empty_hub :: unit hub) = (empty_hub, Inr (202, ''cancelling'')) \<and>
   cancel_batch api_unknown api_client True ''b1'' (hub_with ''b1'' (api_status RsCompleted NoOutput) :: unit hub) =
     (hub_with ''b1'' (api_status RsCompleted NoOutput), Inr (409, ''completed'')) \<and>
   hb_terminations (fst (cancel_batch api_unknown api_client True ''b1'' (hub_with ''b1'' (api_status RsRunning NoOutput) :: unit hub))) =
     [(''b1'', JStr ''client requested cancel'')]"
proof -
  have g: "get_status api_unknown ''b1'' (hub_with ''b1'' (api_status r NoOutput)) = Some (api_status r NoOutput)"
    "status_exists (Some (api_status r NoOutput :: unit durable_status))" for r
    by (simp_all add: get_status_def hub_with_def api_status_def status_exists_def)
  note branch = cancel_every_branch[THEN conjunct2, THEN spec, THEN mp, OF conjI[OF g], of RsCompleted api_client]
    cancel_every_branch[THEN conjunct2, THEN spec, THEN mp, OF conjI[OF g], of RsRunning api_client]
  have "\<not> status_exists (get_status api_unknown ''b9'' (empty_hub :: unit hub))"
    by (simp add: get_status_def empty_hub_def api_unknown_def status_exists_def)
  then have "cancel_batch api_unknown api_client True ''b9'' (empty_hub :: unit hub) = (empty_hub, Inr (202, ''cancelling''))"
    using cancel_every_branch by blast
  moreover have "hb_terminations (hub_with ''b1'' (api_status RsRunning NoOutput) :: unit hub) = []"
    by (simp add: hub_with_def empty_hub_def)
  moreover have "ds_runtime (api_status r NoOutput :: unit durable_status) = Some r" for r by (simp add: api_status_def)
  ultimately show ?thesis using branch by auto
qed

text \<open>C32: with the Functions host out of reach nothing is started or cancelled, and the three
  routes differ: a submission is answered 502 as an upstream error, a poll and a cancellation
  end in the outermost handler with a 500, whose detail is the text of the transport error
  exactly as long as authentication is off.\<close>

theorem unreachable_host_answers:
  "(\<exists>p. submit_batch env aenv False key hs rq h = (h, Inl (ProblemRaised p)) \<and>
      an_status (handle_exn auth (ProblemRaised p)) = (if key = sq_batch_id rq then 502 else 400)) \<and>
   (let e = OtherRaised (ap_client_text aenv HttpxError); a = handle_exn auth e
    in get_batch_status env aenv False x h st = Inl e \<and> cancel_batch env aenv False x h = (h, Inl e) \<and>
       an_status a = 500 \<and> an_media a = ''application/problem+json'' \<and>
       dget (an_body a) ''detail'' =
         (if auth then JStr ''An unexpected error occurred.''
          else if ap_client_text aenv HttpxError = [] then JNull else JStr (ap_client_text aenv HttpxError)))"
proof -
  have "\<exists>p. submit_batch env aenv False key hs rq h = (h, Inl (ProblemRaised p)) \<and>
      an_status (handle_exn auth (ProblemRaised p)) = (if key = sq_batch_id rq then 502 else 400)"
    by (simp add: submit_batch_def start_batch_def raise_problem_def upstream_error_def problem_detail_def
        handle_exn_def problem_response_status)
  moreover have "get_batch_status env aenv False x h st = Inl (OtherRaised (ap_client_text aenv HttpxError))"
    "cancel_batch env aenv False x h = (h, Inl (OtherRaised (ap_client_text aenv HttpxError)))"
    by (simp_all add: get_batch_status_def fetch_batch_status_def cancel_batch_def request_cancel_def)
  moreover have "let a = handle_exn auth (OtherRaised t) in an_status a = 500 \<and> an_media a = ''application/problem+json'' \<and>
      dget (an_body a) ''detail'' = (if auth then JStr ''An unexpected error occurred.'' else if t = [] then JNull else JStr t)" for t
    by (simp add: handle_exn_def unhandled_exception_handler_def problem_response_def problem_detail_def set_text_def dset_def)
  ultimately show ?thesis by (simp add: Let_def)
qed

text \<open>C33: what the API accepts the orchestrator can run: the payload of a validated submission,
  with the trace headers of its request merged in, passes the orchestrator's own validation and
  gives an input with the submitted CVs in order, one to ten runs each, a prompt that is not
  empty, checksums of 64 hexadecimal digits, and a correlation id and a traceparent that are the
  strings of the headers, as the dispatch activity demands. The hypothesis on \<open>rd_int\<close> is that
  pydantic reads an integer as itself.\<close>

theorem accepted_submission_is_valid_input:
  assumes "validate_submit rd body = Inr rq" and "\<forall>n. rd_int rd (JInt n) = Some n"
    and "sq_batch_id rq \<noteq> []" and "\<not> status_exists (get_status env (sq_batch_id rq) h)"
  shows "\<exists>raw p inp.
    hb_started (fst (submit_batch env aenv True (sq_batch_id rq) hs rq h)) = hb_started h @ [(sq_batch_id rq, JObj raw)] \<and>
    validate_batch_payload rd raw = Inr p \<and> orch_input_of raw p = Some inp \<and>
    in_batch_id inp = sq_batch_id rq \<and> in_job_id inp = sq_job_id rq \<and> in_cvs inp = sq_cvs rq \<and>
    1 \<le> in_run_count inp \<and> in_run_count inp \<le> 10 \<and> 1 \<le> length (in_cvs inp) \<and> length (in_cvs inp) \<le> 100 \<and>
    (\<forall>cv \<in> set (in_cvs inp). cv_applicationId cv \<noteq> [] \<and> length (cv_sha256 cv) = 64 \<and> list_all hex_char (cv_sha256 cv)) \<and>
    dget_or (in_prompt inp) ''text'' (JStr []) = JStr (sq_prompt_text rq) \<and> sq_prompt_text rq \<noteq> [] \<and>
    input_correlation inp = JStr (header_or_empty hs ''x-correlation-id'') \<and>
    input_traceparent inp = JStr (header_or_empty hs ''traceparent'')"
proof -
  let ?cid = "header_or_empty hs ''x-correlation-id''" and ?tp = "header_or_empty hs ''traceparent''"
  let ?raw = "merge_trace (dump_submit rq) ?cid ?tp"
  note ok = validate_submit_ok[OF assms(1)]
  have "hb_started (fst (submit_batch env aenv True (sq_batch_id rq) hs rq h)) = hb_started h @ [(sq_batch_id rq, JObj ?raw)]"
    using assms(4) by (simp add: submit_batch_cases[OF assms(3)] start_new_def trace_payload_def)
  with ok payload_valid[OF assms(2) ok(1), of ?cid ?tp] show ?thesis
    by (intro exI[of _ ?raw] exI conjI)
       (assumption | rule payload_input | simp add: input_correlation_def input_traceparent_def)+
qed

definition api_readers :: readers where
  "api_readers = \<lparr>rd_uuid = (\<lambda>v. case v of JStr s \<Rightarrow> Some s | _ \<Rightarrow> None), rd_url = (\<lambda>v. case v of JStr s \<Rightarrow> Some s | _ \<Rightarrow> None),
     rd_int = (\<lambda>v. case v of JInt n \<Rightarrow> Some n | _ \<Rightarrow> None)\<rparr>"

theorem accepted_submission_is_valid_input_witness:
  "\<exists>raw p inp. hb_started (fst (submit_batch api_unknown api_client True ''b1'' [(''X-Correlation-Id'', ''c1'')] api_request (empty_hub :: unit hub))) =
      [(''b1'', JObj raw)] \<and>
    validate_batch_payload api_readers raw = Inr p \<and> orch_input_of raw p = Some inp \<and> in_cvs inp = [api_cv] \<and>
    input_correlation inp = JStr ''c1''"
proof -
  have v: "validate_submit api_readers (JObj (dump_submit api_request)) = Inr api_request" by code_simp
  have n: "\<forall>n. rd_int api_readers (JInt n) = Some n" by (simp add: api_readers_def)
  have s: "\<not> status_exists (get_status api_unknown (sq_batch_id api_request) (empty_hub :: unit hub))"
    by (simp add: get_status_def empty_hub_def api_unknown_def status_exists_def)
  have b: "sq_batch_id api_request = ''b1''" "sq_batch_id api_request \<noteq> []" "sq_cvs api_request = [api_cv]"
    "hb_started (empty_hub :: unit hub) = []"
    by (simp_all add: api_request_def empty_hub_def)
  have "header_or_empty [(''X-Correlation-Id'', ''c1'')] ''x-correlation-id'' = ''c1''" by code_simp
  with accepted_submission_is_valid_input[OF v n b(2) s, of api_client "[(''X-Correlation-Id'', ''c1'')]"] b
  show ?thesis by auto
qed

end
