(* ===== verification/Auth.thy ===== *)
theory Auth
  imports Problems Float64
begin

text \<open>
  The optional token check of the API (\<^verbatim>\<open>api/auth.py\<close>): the two caches with a time to
  live, the lookup of the issuer's signing keys, the choice of one and the dependency
  \<^verbatim>\<open>require_auth\<close>. What happens outside (the clock and the HTTP requests) is indexed
  by one counter: step \<open>n\<close> is the \<open>n\<close>-th time the process reads the clock or sends a
  request. Parsing a token's header and verifying its signature are python-jose's: parameters.
\<close>

subsection \<open>Caches with a time to live\<close>

type_synonym 'v cache = "string \<rightharpoonup> rat \<times> 'v"

definition cache_get :: "rat \<Rightarrow> 'v cache \<Rightarrow> string \<Rightarrow> 'v cache \<times> 'v option" where
  "cache_get t c k =
     (case c k of
        None \<Rightarrow> (c, None)
      | Some (expires_at, v) \<Rightarrow> (if expires_at \<le> t then (c(k := None), None) else (c, Some v)))"

definition cache_put :: "rat \<Rightarrow> 'v cache \<Rightarrow> string \<Rightarrow> 'v \<Rightarrow> 'v cache" where
  "cache_put t c k v = c(k \<mapsto> (fl64 (t + 300), v))"

text \<open>Every entry of a cache satisfies \<open>P\<close>, a relation of key, expiry and value.\<close>

definition entries :: "(string \<Rightarrow> rat \<Rightarrow> 'v \<Rightarrow> bool) \<Rightarrow> 'v cache \<Rightarrow> bool" where
  "entries P c \<longleftrightarrow> (\<forall>k e v. c k = Some (e, v) \<longrightarrow> P k e v)"

lemma entries_empty [simp]: "entries P Map.empty"
  by (simp add: entries_def)

lemma entries_mono: "entries P c \<Longrightarrow> (\<And>k e v. P k e v \<Longrightarrow> Q k e v) \<Longrightarrow> entries Q c"
  by (simp add: entries_def)

lemma entries_get: "entries P c \<Longrightarrow> cache_get t c k = (c', r) \<Longrightarrow> entries P c'"
  by (auto simp: entries_def cache_get_def split: option.splits if_splits)

lemma entries_put: "entries P c \<Longrightarrow> P k (fl64 (t + 300)) v \<Longrightarrow> entries P (cache_put t c k v)"
  by (simp add: entries_def cache_put_def)

lemma cache_hit: "entries P c \<Longrightarrow> cache_get t c k = (c', Some v) \<Longrightarrow> \<exists>e. P k e v \<and> t < e"
  by (fastforce simp: entries_def cache_get_def not_le split: option.splits if_splits)

lemma cache_get_put: "cache_get t' (cache_put t c k v) k =
    (if fl64 (t + 300) \<le> t' then (c(k := None), None) else (cache_put t c k v, Some v))"
  by (simp add: cache_get_def cache_put_def)

subsection \<open>State and environment\<close>

record auth_state =
  as_step :: nat
  as_jwks :: "dict list cache"
  as_openid :: "dict cache"

record auth_env =
  au_clock :: "nat \<Rightarrow> rat"
  au_http :: "nat \<Rightarrow> string \<Rightarrow> json result"
  au_header :: "string \<Rightarrow> dict result"
  au_verify :: "string \<Rightarrow> dict \<Rightarrow> string \<Rightarrow> string \<Rightarrow> dict result"

record auth_settings =
  st_auth_required :: bool
  st_issuer :: string
  st_audience :: string

definition openid_url :: "string \<Rightarrow> string" where
  "openid_url issuer = issuer @ ''/.well-known/openid-configuration''"

subsection \<open>Fetching\<close>

definition fetch_json :: "auth_env \<Rightarrow> string \<Rightarrow> auth_state \<Rightarrow> auth_state \<times> dict result" where
  "fetch_json env url s =
     (s\<lparr>as_step := Suc (as_step s)\<rparr>,
      case au_http env (as_step s) url of
        Inl e \<Rightarrow> Inl e
      | Inr (JObj d) \<Rightarrow> Inr d
      | Inr _ \<Rightarrow> Inl (RuntimeError (''Expected JSON object from '' @ url)))"

text \<open>The clock is read only when the cache has an entry for the key.\<close>

definition lookup_step :: "auth_env \<Rightarrow> 'v cache \<Rightarrow> string \<Rightarrow> auth_state \<Rightarrow> auth_state \<times> 'v cache \<times> 'v option" where
  "lookup_step env c k s =
     (let (c', r) = cache_get (au_clock env (as_step s)) c k
      in (if c k = None then s else s\<lparr>as_step := Suc (as_step s)\<rparr>, c', r))"

definition get_openid_configuration :: "auth_env \<Rightarrow> string \<Rightarrow> auth_state \<Rightarrow> auth_state \<times> dict result" where
  "get_openid_configuration env issuer s =
     (let n = rstrip_slash issuer;
          (s1, c, hit) = lookup_step env (as_openid s) n s;
          s2 = s1\<lparr>as_openid := c\<rparr>
      in case hit of
           Some d \<Rightarrow> (s2, Inr d)
         | None \<Rightarrow>
             (case fetch_json env (openid_url n) s2 of
                (s3, Inl e) \<Rightarrow> (s3, Inl e)
              | (s3, Inr d) \<Rightarrow>
                  (s3\<lparr>as_openid := cache_put (au_clock env (as_step s3)) (as_openid s3) n d,
                      as_step := Suc (as_step s3)\<rparr>, Inr d)))"

text \<open>\<^verbatim>\<open>[key for key in keys if isinstance(key, dict)]\<close>\<close>

definition dict_keys :: "json list \<Rightarrow> dict list" where
  "dict_keys xs = List.map_filter (\<lambda>v. case v of JObj d \<Rightarrow> Some d | _ \<Rightarrow> None) xs"

definition jwks_uri :: "dict \<Rightarrow> string" where
  "jwks_uri cfg = py_str (py_or (dget cfg ''jwks_uri'') (JStr []))"

fun published_keys :: "json \<Rightarrow> dict list result" where
  "published_keys (JList xs) =
     (if xs = [] then Inl (RuntimeError ''JWKS payload did not include any signing keys'')
      else if dict_keys xs = [] then Inl (RuntimeError ''JWKS payload did not include valid signing keys'')
      else Inr (dict_keys xs))"
| "published_keys _ = Inl (RuntimeError ''JWKS payload did not include any signing keys'')"

definition get_jwks :: "auth_env \<Rightarrow> string \<Rightarrow> auth_state \<Rightarrow> auth_state \<times> dict list result" where
  "get_jwks env issuer s =
     (case get_openid_configuration env issuer s of
        (s1, Inl e) \<Rightarrow> (s1, Inl e)
      | (s1, Inr cfg) \<Rightarrow>
          (let uri = jwks_uri cfg
           in if uri = [] then (s1, Inl (RuntimeError ''OpenID configuration did not include jwks_uri''))
              else
                (let (s2, c, hit) = lookup_step env (as_jwks s1) uri s1; s3 = s2\<lparr>as_jwks := c\<rparr>
                 in case hit of
                      Some keys \<Rightarrow> (s3, Inr keys)
                    | None \<Rightarrow>
                        (case fetch_json env uri s3 of
                           (s4, Inl e) \<Rightarrow> (s4, Inl e)
                         | (s4, Inr payload) \<Rightarrow>
                             (case published_keys (dget payload ''keys'') of
                                Inl e \<Rightarrow> (s4, Inl e)
                              | Inr keys \<Rightarrow>
                                  (s4\<lparr>as_jwks := cache_put (au_clock env (as_step s4)) (as_jwks s4) uri keys,
                                      as_step := Suc (as_step s4)\<rparr>, Inr keys))))))"

subsection \<open>Checking a token\<close>

definition key_id :: "dict \<Rightarrow> string" where
  "key_id d = py_str (py_or (dget d ''kid'') (JStr []))"

definition choose_key :: "string \<Rightarrow> dict list \<Rightarrow> dict result" where
  "choose_key kid keys =
     (case (if kid \<noteq> [] then List.find (\<lambda>k. key_id k = kid) keys else None) of
        Some k \<Rightarrow> Inr k
      | None \<Rightarrow> (case keys of [k] \<Rightarrow> Inr k | _ \<Rightarrow> Inl (RuntimeError ''Unable to resolve signing key for JWT'')))"

definition get_signing_key :: "auth_env \<Rightarrow> auth_settings \<Rightarrow> string \<Rightarrow> auth_state \<Rightarrow> auth_state \<times> dict result" where
  "get_signing_key env st token s =
     (if st_issuer st = [] \<or> st_audience st = []
      then (s, Inl (RuntimeError ''AAD issuer and audience must be configured when auth is required''))
      else (case au_header env token of
          Inl e \<Rightarrow> (s, Inl e)
        | Inr header \<Rightarrow>
            (case get_jwks env (st_issuer st) s of
               (s1, Inl e) \<Rightarrow> (s1, Inl e)
             | (s1, Inr keys) \<Rightarrow> (s1, choose_key (key_id header) keys))))"

definition decode_jwt :: "auth_env \<Rightarrow> auth_settings \<Rightarrow> string \<Rightarrow> auth_state \<Rightarrow> auth_state \<times> dict route" where
  "decode_jwt env st token s =
     (case get_signing_key env st token s of
        (s1, Inl e) \<Rightarrow> (s1, Inl (HttpRaised 401 ''Invalid token''))
      | (s1, Inr key) \<Rightarrow>
          (case au_verify env token key (st_audience st) (st_issuer st) of
             Inl e \<Rightarrow> (s1, Inl (HttpRaised 401 ''Invalid token''))
           | Inr claims \<Rightarrow> (s1, Inr claims)))"

definition require_auth :: "auth_env \<Rightarrow> auth_settings \<Rightarrow> string option \<Rightarrow> auth_state \<Rightarrow> auth_state \<times> dict route" where
  "require_auth env st token s =
     (if \<not> st_auth_required st then (s, Inr [])
      else (case token of
          None \<Rightarrow> (s, Inl (HttpRaised 401 ''Missing bearer token''))
        | Some t \<Rightarrow> decode_jwt env st t s))"

definition initial_auth :: auth_state where
  "initial_auth = \<lparr>as_step = 0, as_jwks = Map.empty, as_openid = Map.empty\<rparr>"

definition served :: "auth_env \<Rightarrow> auth_settings \<Rightarrow> string option list \<Rightarrow> auth_state" where
  "served env st tokens = fold (\<lambda>t s. fst (require_auth env st t s)) tokens initial_auth"

subsection \<open>Where a cached value comes from\<close>

text \<open>
  The request of step \<open>i\<close> brought a payload and the next step read the clock for its expiry.
\<close>

definition config_entry :: "auth_env \<Rightarrow> nat \<Rightarrow> string \<Rightarrow> rat \<Rightarrow> dict \<Rightarrow> bool" where
  "config_entry env n k e v \<longleftrightarrow>
     (\<exists>i. Suc i < n \<and> au_http env i (openid_url k) = Inr (JObj v) \<and> e = fl64 (au_clock env (Suc i) + 300))"

definition keys_entry :: "auth_env \<Rightarrow> nat \<Rightarrow> string \<Rightarrow> rat \<Rightarrow> dict list \<Rightarrow> bool" where
  "keys_entry env n k e v \<longleftrightarrow>
     (\<exists>i payload. Suc i < n \<and> au_http env i k = Inr (JObj payload) \<and> published_keys (dget payload ''keys'') = Inr v \<and>
        e = fl64 (au_clock env (Suc i) + 300))"

definition auth_inv :: "auth_env \<Rightarrow> auth_state \<Rightarrow> bool" where
  "auth_inv env s \<longleftrightarrow> entries (config_entry env (as_step s)) (as_openid s) \<and> entries (keys_entry env (as_step s)) (as_jwks s)"

text \<open>
  A payload used between the steps \<open>lo\<close> and \<open>hi\<close> was fetched in that time, or earlier and
  the clock read in that time had not reached five minutes after the fetch.
\<close>

definition recent :: "auth_env \<Rightarrow> nat \<Rightarrow> nat \<Rightarrow> string \<Rightarrow> dict \<Rightarrow> bool" where
  "recent env lo hi url payload \<longleftrightarrow>
     (\<exists>i < hi. au_http env i url = Inr (JObj payload) \<and>
        (lo \<le> i \<or> (\<exists>m. lo \<le> m \<and> m < hi \<and> au_clock env m < fl64 (au_clock env (Suc i) + 300))))"

lemma config_entry_mono: "config_entry env n k e v \<Longrightarrow> n \<le> n' \<Longrightarrow> config_entry env n' k e v"
  unfolding config_entry_def using less_le_trans by blast

lemma keys_entry_mono: "keys_entry env n k e v \<Longrightarrow> n \<le> n' \<Longrightarrow> keys_entry env n' k e v"
  unfolding keys_entry_def using less_le_trans by blast

lemma recent_mono: "recent env lo hi url p \<Longrightarrow> lo' \<le> lo \<Longrightarrow> hi \<le> hi' \<Longrightarrow> recent env lo' hi' url p"
  unfolding recent_def by (meson le_trans less_le_trans)

lemma fetch_json_Inr:
  "fetch_json env url s = (s', Inr d) \<Longrightarrow> s' = s\<lparr>as_step := Suc (as_step s)\<rparr> \<and> au_http env (as_step s) url = Inr (JObj d)"
  by (auto simp: fetch_json_def split: sum.splits json.splits)

lemma fetch_json_state: "fetch_json env url s = (s', r) \<Longrightarrow> s' = s\<lparr>as_step := Suc (as_step s)\<rparr>"
  by (auto simp: fetch_json_def)

lemma lookup_stepE:
  assumes "lookup_step env c k s = (s', c', hit)" and "entries P c"
  obtains "as_step s \<le> as_step s'" "s' = s\<lparr>as_step := as_step s'\<rparr>" "entries P c'"
    "\<And>v. hit = Some v \<Longrightarrow> as_step s < as_step s' \<and> (\<exists>e. P k e v \<and> au_clock env (as_step s) < e)"
proof -
  obtain r where g: "cache_get (au_clock env (as_step s)) c k = (c', hit)"
    and s': "s' = (if c k = None then s else s\<lparr>as_step := Suc (as_step s)\<rparr>)"
    using assms(1) by (auto simp: lookup_step_def Let_def split: prod.splits)
  have "hit = Some v \<Longrightarrow> c k \<noteq> None" for v using g by (cases "c k") (simp_all add: cache_get_def)
  with that show thesis using entries_get[OF assms(2) g] cache_hit[OF assms(2)] g s' by (auto split: if_splits)
qed

end
