(* ===== verification/AuthProperties.thy ===== *)
theory AuthProperties
  imports Auth
begin

text \<open>
  The invariant of the two caches, kept by every step of the token check, and the property of
  \<^verbatim>\<open>require_auth\<close> that follows from it.
\<close>

subsection \<open>The caches hold what was fetched\<close>

lemma inv_bump: "auth_inv env s \<Longrightarrow> as_step s \<le> n \<Longrightarrow> auth_inv env (s\<lparr>as_step := n\<rparr>)"
  unfolding auth_inv_def by (auto intro: config_entry_mono keys_entry_mono elim!: entries_mono)

lemma inv_openid: "auth_inv env s \<Longrightarrow> entries (config_entry env (as_step s)) c \<Longrightarrow> auth_inv env (s\<lparr>as_openid := c\<rparr>)"
  by (simp add: auth_inv_def)

lemma inv_jwks: "auth_inv env s \<Longrightarrow> entries (keys_entry env (as_step s)) c \<Longrightarrow> auth_inv env (s\<lparr>as_jwks := c\<rparr>)"
  by (simp add: auth_inv_def)

lemma recent_hit:
  assumes "Suc i < lo" and "au_http env i url = Inr (JObj d)" and "au_clock env lo < fl64 (au_clock env (Suc i) + 300)"
    and "lo < hi"
  shows "recent env lo hi url d"
  unfolding recent_def using assms by (intro exI[of _ i]) auto

lemma recent_fetch: "au_http env i url = Inr (JObj d) \<Longrightarrow> lo \<le> i \<Longrightarrow> i < hi \<Longrightarrow> recent env lo hi url d"
  unfolding recent_def by blast

lemma openid_law:
  assumes inv: "auth_inv env s" and run: "get_openid_configuration env issuer s = (s', r)"
  shows "auth_inv env s' \<and> as_step s \<le> as_step s' \<and>
    (\<forall>d. r = Inr d \<longrightarrow> recent env (as_step s) (as_step s') (openid_url (rstrip_slash issuer)) d)"
proof -
  let ?n = "rstrip_slash issuer"
  obtain s1 c hit where l: "lookup_step env (as_openid s) ?n s = (s1, c, hit)" by (metis prod_cases3)
  let ?s2 = "s1\<lparr>as_openid := c\<rparr>"
  from inv have ent: "entries (config_entry env (as_step s)) (as_openid s)" by (simp add: auth_inv_def)
  from l ent obtain le: "as_step s \<le> as_step s1" and s1: "s1 = s\<lparr>as_step := as_step s1\<rparr>"
    and c: "entries (config_entry env (as_step s)) c"
    and hit: "\<And>v. hit = Some v \<Longrightarrow> as_step s < as_step s1 \<and> (\<exists>e. config_entry env (as_step s) ?n e v \<and> au_clock env (as_step s) < e)"
    by (rule lookup_stepE) blast
  have "auth_inv env s1" using inv_bump[OF inv le] s1 by simp
  then have inv2: "auth_inv env ?s2"
    by (rule inv_openid) (use c le in \<open>auto elim!: entries_mono intro: config_entry_mono\<close>)
  show ?thesis
  proof (cases hit)
    case (Some d)
    with run l have s': "s' = ?s2" "r = Inr d" by (simp_all add: get_openid_configuration_def)
    from hit[OF Some] obtain i where "Suc i < as_step s" "au_http env i (openid_url ?n) = Inr (JObj d)"
      "au_clock env (as_step s) < fl64 (au_clock env (Suc i) + 300)" "as_step s < as_step s1"
      unfolding config_entry_def by blast
    then have "recent env (as_step s) (as_step s') (openid_url ?n) d" unfolding s' by (auto intro: recent_hit)
    with inv2 le s' show ?thesis by simp
  next
    case None
    obtain s3 f where f: "fetch_json env (openid_url ?n) ?s2 = (s3, f)" by (metis surj_pair)
    note s3 = fetch_json_state[OF f]
    show ?thesis
    proof (cases f)
      case (Inl e)
      with run l None f have "s' = s3" "r = Inl e" by (simp_all add: get_openid_configuration_def)
      with inv_bump[OF inv2, of "Suc (as_step ?s2)"] le s3 show ?thesis by simp
    next
      case (Inr d)
      note h = conjunct2[OF fetch_json_Inr[OF f[unfolded Inr]]]
      from run l None f Inr have s': "s' = s3\<lparr>as_openid := cache_put (au_clock env (as_step s3)) (as_openid s3) ?n d,
          as_step := Suc (as_step s3)\<rparr>" and r: "r = Inr d"
        by (simp_all add: get_openid_configuration_def)
      have "auth_inv env (?s2\<lparr>as_step := Suc (Suc (as_step ?s2))\<rparr>)" by (rule inv_bump[OF inv2]) simp
      moreover have "config_entry env (Suc (Suc (as_step ?s2))) ?n (fl64 (au_clock env (Suc (as_step ?s2)) + 300)) d"
        unfolding config_entry_def using h by blast
      ultimately have "auth_inv env s'" unfolding s' s3 by (simp add: auth_inv_def entries_put)
      moreover have "recent env (as_step s) (as_step s') (openid_url ?n) d"
        using recent_fetch[OF h] le by (simp add: s' s3)
      ultimately show ?thesis using le by (simp add: s' s3 r)
    qed
  qed
qed

lemma jwks_law:
  assumes inv: "auth_inv env s" and run: "get_jwks env issuer s = (s', r)"
  shows "auth_inv env s' \<and> as_step s \<le> as_step s' \<and>
    (\<forall>keys. r = Inr keys \<longrightarrow>
      (\<exists>cfg payload. recent env (as_step s) (as_step s') (openid_url (rstrip_slash issuer)) cfg \<and>
         recent env (as_step s) (as_step s') (jwks_uri cfg) payload \<and>
         published_keys (dget payload ''keys'') = Inr keys))"
proof -
  obtain s1 q where q: "get_openid_configuration env issuer s = (s1, q)" by (metis surj_pair)
  note o' = openid_law[OF inv q]
  show ?thesis
  proof (cases "\<exists>cfg. q = Inr cfg \<and> jwks_uri cfg \<noteq> []")
    case False
    then have "s' = s1 \<and> (\<exists>e. r = Inl e)"
      using run q by (cases q) (auto simp: get_jwks_def Let_def)
    with o' show ?thesis by auto
  next
    case True
    then obtain cfg where cfg: "q = Inr cfg" "jwks_uri cfg \<noteq> []" by blast
    let ?u = "jwks_uri cfg"
    obtain s2 c hit where l: "lookup_step env (as_jwks s1) ?u s1 = (s2, c, hit)" by (metis prod_cases3)
    let ?s3 = "s2\<lparr>as_jwks := c\<rparr>"
    from o' have ent: "entries (keys_entry env (as_step s1)) (as_jwks s1)" by (simp add: auth_inv_def)
    from l ent obtain le: "as_step s1 \<le> as_step s2" and s2: "s2 = s1\<lparr>as_step := as_step s2\<rparr>"
      and c: "entries (keys_entry env (as_step s1)) c"
      and hit: "\<And>v. hit = Some v \<Longrightarrow> as_step s1 < as_step s2 \<and> (\<exists>e. keys_entry env (as_step s1) ?u e v \<and> au_clock env (as_step s1) < e)"
      by (rule lookup_stepE) blast
    have "auth_inv env s2" using inv_bump[OF conjunct1[OF o'] le] s2 by simp
    then have inv3: "auth_inv env ?s3"
      by (rule inv_jwks) (use c le in \<open>auto elim!: entries_mono intro: keys_entry_mono\<close>)
    have cr: "recent env (as_step s) hi (openid_url (rstrip_slash issuer)) cfg" if "as_step s1 \<le> hi" for hi
      using o' cfg(1) that by (auto intro: recent_mono)
    show ?thesis
    proof (cases hit)
      case (Some keys)
      with run q cfg l have s': "s' = ?s3" "r = Inr keys" by (simp_all add: get_jwks_def)
      from hit[OF Some] obtain i payload where "Suc i < as_step s1" "au_http env i ?u = Inr (JObj payload)"
        "au_clock env (as_step s1) < fl64 (au_clock env (Suc i) + 300)" "as_step s1 < as_step s2"
        "published_keys (dget payload ''keys'') = Inr keys"
        unfolding keys_entry_def by blast
      moreover from this have "recent env (as_step s1) (as_step s') ?u payload" unfolding s' by (auto intro: recent_hit)
      ultimately show ?thesis using inv3 le o' cr[of "as_step s'"] by (auto simp: s' intro: recent_mono)
    next
      case None
      obtain s4 f where f: "fetch_json env ?u ?s3 = (s4, f)" by (metis surj_pair)
      note s4 = fetch_json_state[OF f]
      have inv4: "auth_inv env s4" unfolding s4 by (rule inv_bump[OF inv3]) simp
      show ?thesis
      proof (cases "\<exists>payload keys. f = Inr payload \<and> published_keys (dget payload ''keys'') = Inr keys")
        case False
        then have "s' = s4 \<and> (\<exists>e. r = Inl e)"
          using run q cfg l None f by (cases f) (auto simp: get_jwks_def split: sum.splits dest: sym)
        with inv4 o' le s4 show ?thesis by auto
      next
        case True
        then obtain payload keys where p: "f = Inr payload" "published_keys (dget payload ''keys'') = Inr keys" by blast
        note h = conjunct2[OF fetch_json_Inr[OF f[unfolded p(1)]]]
        from run q cfg l None f p have s': "s' = s4\<lparr>as_jwks := cache_put (au_clock env (as_step s4)) (as_jwks s4) ?u keys,
            as_step := Suc (as_step s4)\<rparr>" and r: "r = Inr keys"
          by (simp_all add: get_jwks_def)
        have "auth_inv env (?s3\<lparr>as_step := Suc (Suc (as_step ?s3))\<rparr>)" by (rule inv_bump[OF inv3]) simp
        moreover have "keys_entry env (Suc (Suc (as_step ?s3))) ?u (fl64 (au_clock env (Suc (as_step ?s3)) + 300)) keys"
          unfolding keys_entry_def using h p(2) by blast
        ultimately have "auth_inv env s'" unfolding s' s4 by (simp add: auth_inv_def entries_put)
        moreover have "recent env (as_step s) (as_step s') ?u payload"
          using recent_fetch[OF h] le o' by (simp add: s' s4)
        moreover have "as_step s1 \<le> as_step s'" using le by (simp add: s' s4)
        ultimately show ?thesis using o' cr[of "as_step s'"] p(2) r by auto
      qed
    qed
  qed
qed

lemma signing_key_law:
  assumes "auth_inv env s" and "get_signing_key env st token s = (s', r)"
  shows "auth_inv env s'"
  using assms jwks_law[OF assms(1)]
  by (auto simp: get_signing_key_def split: if_splits sum.splits prod.splits)

lemma require_auth_inv: "auth_inv env s \<Longrightarrow> auth_inv env (fst (require_auth env st t s))"
  using signing_key_law
  by (auto simp: require_auth_def decode_jwt_def split: option.splits sum.splits prod.splits)

lemma served_inv: "auth_inv env (served env st tokens)"
proof -
  have "auth_inv env s \<Longrightarrow> auth_inv env (fold (\<lambda>t s. fst (require_auth env st t s)) tokens s)" for s
    by (induction tokens arbitrary: s) (simp_all add: require_auth_inv)
  then show ?thesis by (simp add: served_def initial_auth_def auth_inv_def)
qed

lemma choose_key_published:
  "choose_key kid keys = Inr k \<Longrightarrow> k \<in> set keys \<and> (kid \<noteq> [] \<and> key_id k = kid \<or> keys = [k])"
  by (auto simp: choose_key_def find_Some_iff split: option.splits list.splits if_splits)

subsection \<open>The property\<close>

definition au_kid :: dict where "au_kid = [(''kid'', JStr ''k1'')]"

definition au_env :: auth_env where
  "au_env = \<lparr>au_clock = (\<lambda>n. of_nat n),
     au_http = (\<lambda>n url. if url = ''https://sts/.well-known/openid-configuration''
        then Inr (JObj [(''jwks_uri'', JStr ''https://sts/keys'')])
        else Inr (JObj [(''keys'', JList [JObj au_kid])])),
     au_header = (\<lambda>t. Inr au_kid), au_verify = (\<lambda>t k aud iss. Inr [(''sub'', JStr t)])\<rparr>"

definition au_settings :: auth_settings where
  "au_settings = \<lparr>st_auth_required = True, st_issuer = ''https://sts/'', st_audience = ''api''\<rparr>"

text \<open>C34: with authentication required, a request is let in only with a token that verifies, for
  the configured audience and issuer, against a key the issuer published: one of the key set at
  the \<^verbatim>\<open>jwks_uri\<close> of the issuer's own configuration, with the token's key id or the only
  one there; both documents were fetched while serving the request or less than five minutes
  (as the clock of the process and its floats have it) before. Every other end is a 401.\<close>

theorem authenticated_by_published_key:
  assumes "st_auth_required st" and "s = served env st earlier" and "require_auth env st token s = (s', r)"
  shows "case r of
      Inl e \<Rightarrow> e \<in> {HttpRaised 401 ''Missing bearer token'', HttpRaised 401 ''Invalid token''}
    | Inr claims \<Rightarrow> \<exists>t header cfg payload keys key.
        token = Some t \<and> st_issuer st \<noteq> [] \<and> st_audience st \<noteq> [] \<and>
        au_verify env t key (st_audience st) (st_issuer st) = Inr claims \<and>
        recent env (as_step s) (as_step s') (openid_url (rstrip_slash (st_issuer st))) cfg \<and>
        recent env (as_step s) (as_step s') (jwks_uri cfg) payload \<and>
        published_keys (dget payload ''keys'') = Inr keys \<and> key \<in> set keys \<and>
        au_header env t = Inr header \<and> (key_id header \<noteq> [] \<and> key_id key = key_id header \<or> keys = [key])"
proof (cases token)
  case None
  with assms show ?thesis by (auto simp: require_auth_def)
next
  case (Some t)
  have inv: "auth_inv env s" unfolding assms(2) by (rule served_inv)
  obtain s1 k where k: "get_signing_key env st t s = (s1, k)" by (metis surj_pair)
  from assms(1,3) Some k have r: "s' = s1"
    "r = (case k of Inl e \<Rightarrow> Inl (HttpRaised 401 ''Invalid token'')
      | Inr key \<Rightarrow> (case au_verify env t key (st_audience st) (st_issuer st) of
          Inl e \<Rightarrow> Inl (HttpRaised 401 ''Invalid token'') | Inr claims \<Rightarrow> Inr claims))"
    by (auto simp: require_auth_def decode_jwt_def split: sum.splits)
  show ?thesis
  proof (cases "\<exists>key claims. k = Inr key \<and> au_verify env t key (st_audience st) (st_issuer st) = Inr claims")
    case False
    then show ?thesis unfolding r(2) by (auto split: sum.splits)
  next
    case True
    then obtain key claims where key: "k = Inr key" "au_verify env t key (st_audience st) (st_issuer st) = Inr claims" by blast
    then obtain header keys where h: "st_issuer st \<noteq> []" "st_audience st \<noteq> []" "au_header env t = Inr header"
      "get_jwks env (st_issuer st) s = (s1, Inr keys)" "choose_key (key_id header) keys = Inr key"
      using k by (auto simp: get_signing_key_def split: if_splits sum.splits prod.splits)
    from jwks_law[OF inv h(4)] choose_key_published[OF h(5)] h key Some show ?thesis
      unfolding r by auto
  qed
qed

theorem authenticated_by_published_key_witness:
  "\<exists>s' cfg payload. require_auth au_env au_settings (Some ''alice'') (served au_env au_settings [Some ''bob'']) =
      (s', Inr [(''sub'', JStr ''alice'')]) \<and>
    recent au_env 4 6 ''https://sts/.well-known/openid-configuration'' cfg \<and> recent au_env 4 6 (jwks_uri cfg) payload"
proof -
  let ?s = "served au_env au_settings [Some ''bob'']"
  have clocks: "fl64 301 = 301" "fl64 303 = 303" by code_simp+
  have s: "as_step ?s = 4" "as_openid ?s ''https://sts'' = Some (301, [(''jwks_uri'', JStr ''https://sts/keys'')])"
    "as_jwks ?s ''https://sts/keys'' = Some (303, [au_kid])"
    by (simp_all add: served_def initial_auth_def require_auth_def decode_jwt_def get_signing_key_def get_jwks_def
        get_openid_configuration_def lookup_step_def cache_get_def fetch_json_def openid_url_def rstrip_of_def
        au_env_def au_settings_def jwks_uri_def dict_keys_def choose_key_def key_id_def au_kid_def cache_put_def
        List.map_filter_simps clocks Let_def)
  then obtain s' where q: "require_auth au_env au_settings (Some ''alice'') ?s = (s', Inr [(''sub'', JStr ''alice'')])" "as_step s' = 6"
    by (simp add: require_auth_def decode_jwt_def get_signing_key_def get_jwks_def
        get_openid_configuration_def lookup_step_def cache_get_def openid_url_def rstrip_of_def
        au_env_def au_settings_def jwks_uri_def choose_key_def key_id_def au_kid_def Let_def)
  have "st_auth_required au_settings" by (simp add: au_settings_def)
  from authenticated_by_published_key[OF this refl q(1)] s(1) q(2)
  have "\<exists>cfg payload. recent au_env 4 6 (openid_url (rstrip_slash (st_issuer au_settings))) cfg \<and> recent au_env 4 6 (jwks_uri cfg) payload"
    by auto
  moreover have "openid_url (rstrip_slash (st_issuer au_settings)) = ''https://sts/.well-known/openid-configuration''"
    by (simp add: openid_url_def rstrip_of_def au_settings_def)
  ultimately show ?thesis using q(1) by auto
qed

end
