(* ===== verification/DlqReplay.thy ===== *)
theory DlqReplay
  imports Contracts Tracing JsonLaws "HOL-Library.Multiset"
begin

text \<open>
  The dead letter tool (\<^verbatim>\<open>orchestrator/functions/dlq_replay/__init__.py\<close>): peeking at
  a dead letter queue and replaying it onto its main queue. The state is the messages of the
  main queues and of the dead letter queues. What the broker hands out, and whether it takes a
  message or settles one, are parameters; an exception while one message is handled is caught
  there, one before or around the loop leaves the function.
\<close>

subsection \<open>\<^verbatim>\<open>int(s)\<close> for decimal text\<close>

definition dec_val :: "char \<Rightarrow> nat option" where
  "dec_val c = (let n = codept c in if 48 \<le> n \<and> n \<le> 57 then Some (n - 48) else None)"

fun dec_run :: "nat \<Rightarrow> string \<Rightarrow> nat option" where
  "dec_run acc [] = Some acc"
| "dec_run acc (c # cs) =
     (if c = CHR ''_''
      then (case cs of [] \<Rightarrow> None
            | d # ds \<Rightarrow> (case dec_val d of None \<Rightarrow> None | Some v \<Rightarrow> dec_run (10 * acc + v) ds))
      else (case dec_val c of None \<Rightarrow> None | Some v \<Rightarrow> dec_run (10 * acc + v) cs))"

definition dec_number :: "string \<Rightarrow> nat option" where
  "dec_number s = (case s of [] \<Rightarrow> None | c # cs \<Rightarrow> (case dec_val c of None \<Rightarrow> None | Some v \<Rightarrow> dec_run v cs))"

definition int10 :: "string \<Rightarrow> int option" where
  "int10 s =
     (case int_strip s of
        [] \<Rightarrow> None
      | c # cs \<Rightarrow>
          (if c = CHR ''-'' then map_option (\<lambda>n. - int n) (dec_number cs)
           else if c = CHR ''+'' then map_option int (dec_number cs)
           else map_option int (dec_number (c # cs))))"

subsection \<open>Messages, broker and environment\<close>

record dl_message =
  dm_sequence :: nat
  dm_body :: string
  dm_message_id :: "string option"
  dm_correlation_id :: "string option"
  dm_content_type :: "string option"
  dm_properties :: "(string \<times> string) list"
  dm_reason :: "string option"
  dm_description :: "string option"
  dm_enqueued :: "string option"

record out_message =
  om_body :: string
  om_content_type :: string
  om_message_id :: "string option"
  om_correlation_id :: "string option"
  om_properties :: "(string \<times> string) list"

record broker =
  bk_main :: "string \<Rightarrow> out_message list"
  bk_dlq :: "string \<Rightarrow> dl_message list"

record dlq_env =
  dq_runs_queue :: string
  dq_results_queue :: string
  dq_decode :: "string \<Rightarrow> string option"
  dq_float :: "string \<Rightarrow> json option"
  dq_receive :: "int \<Rightarrow> dl_message list \<Rightarrow> (dl_message list \<times> dl_message list) result"
  dq_peek :: "int \<Rightarrow> dl_message list \<Rightarrow> dl_message list result"
  dq_send :: "out_message \<Rightarrow> unit result"
  dq_complete :: "dl_message \<Rightarrow> unit result"
  dq_text :: "pyerr \<Rightarrow> string"

definition dq_loads :: "dlq_env \<Rightarrow> string \<Rightarrow> json option" where
  "dq_loads env = json_loads (dq_float env)"

definition resolve_queue :: "dlq_env \<Rightarrow> string \<Rightarrow> string result" where
  "resolve_queue env kind =
     (if kind = ''runs'' then Inr (dq_runs_queue env)
      else if kind = ''results'' then Inr (dq_results_queue env)
      else Inl (ValueError (''unknown DLQ kind: '' @ repr_str kind)))"

text \<open>\<^verbatim>\<open>min(int(req.params.get("max", "10")), 100)\<close>\<close>

definition max_count :: "string option \<Rightarrow> int result" where
  "max_count p =
     (case int10 (case p of None \<Rightarrow> ''10'' | Some s \<Rightarrow> s) of
        None \<Rightarrow> Inl (ValueError [])
      | Some n \<Rightarrow> Inr (min n 100))"

subsection \<open>Replaying\<close>

definition parse_json_payload :: "dlq_env \<Rightarrow> string \<Rightarrow> dict" where
  "parse_json_payload env body = (case dq_loads env body of Some (JObj d) \<Rightarrow> d | _ \<Rightarrow> [])"

definition message_text :: "dlq_env \<Rightarrow> dl_message \<Rightarrow> string option" where
  "message_text env m = (if dm_body m = [] then Some [] else dq_decode env (dm_body m))"

definition poison :: "dlq_env \<Rightarrow> string \<Rightarrow> string \<Rightarrow> bool" where
  "poison env kind body \<longleftrightarrow>
     kind = ''results'' \<and>
     (let d = parse_json_payload env body in \<not> truthy (dget d ''run_id'') \<or> \<not> truthy (dget d ''status''))"

definition nonempty :: "string option \<Rightarrow> string option" where
  "nonempty v = (case v of None \<Rightarrow> None | Some s \<Rightarrow> (if s = [] then None else Some s))"

definition republish :: "dl_message \<Rightarrow> string \<Rightarrow> out_message" where
  "republish m body =
     \<lparr>om_body = body,
      om_content_type = (case nonempty (dm_content_type m) of None \<Rightarrow> ''application/json'' | Some c \<Rightarrow> c),
      om_message_id = nonempty (dm_message_id m), om_correlation_id = nonempty (dm_correlation_id m),
      om_properties = dm_properties m\<rparr>"

text \<open>
  What became of one message: what was sent for it, whether it was settled, and the entry of
  \<^verbatim>\<open>failed\<close> it left.
\<close>

record handled =
  hn_sent :: "out_message list"
  hn_completed :: bool
  hn_failed :: "(string option \<times> string) option"

definition replay_one :: "dlq_env \<Rightarrow> string \<Rightarrow> dl_message \<Rightarrow> handled" where
  "replay_one env kind m =
     (let failure = (\<lambda>sent e. \<lparr>hn_sent = sent, hn_completed = False, hn_failed = Some (dm_message_id m, dq_text env e)\<rparr>)
      in case message_text env m of
           None \<Rightarrow> failure [] (ValueError [])
         | Some body \<Rightarrow>
             (if poison env kind body
              then (case dq_complete env m of
                  Inl e \<Rightarrow> failure [] e
                | Inr _ \<Rightarrow> \<lparr>hn_sent = [], hn_completed = True,
                    hn_failed = Some (dm_message_id m, ''poison message missing run_id/status'')\<rparr>)
              else (case dq_send env (republish m body) of
                  Inl e \<Rightarrow> failure [] e
                | Inr _ \<Rightarrow>
                    (case dq_complete env m of
                       Inl e \<Rightarrow> failure [republish m body] e
                     | Inr _ \<Rightarrow> \<lparr>hn_sent = [republish m body], hn_completed = True, hn_failed = None\<rparr>))))"

record replay_report =
  rl_kept :: "dl_message list"
  rl_sent :: "out_message list"
  rl_replayed :: nat
  rl_failed :: "(string option \<times> string) list"

fun replay_loop :: "dlq_env \<Rightarrow> string \<Rightarrow> dl_message list \<Rightarrow> replay_report \<Rightarrow> replay_report" where
  "replay_loop env kind [] r = r"
| "replay_loop env kind (m # ms) r =
     (let x = replay_one env kind m
      in replay_loop env kind ms
        \<lparr>rl_kept = rl_kept r @ (if hn_completed x then [] else [m]), rl_sent = rl_sent r @ hn_sent x,
         rl_replayed = rl_replayed r + (if hn_failed x = None then 1 else 0),
         rl_failed = rl_failed r @ (case hn_failed x of None \<Rightarrow> [] | Some f \<Rightarrow> [f])\<rparr>)"

record dl_summary =
  dy_message_id :: "string option"
  dy_correlation_id :: "string option"
  dy_reason :: "string option"
  dy_description :: "string option"
  dy_enqueued :: string

definition msg_summary :: "dl_message \<Rightarrow> dl_summary" where
  "msg_summary m =
     \<lparr>dy_message_id = dm_message_id m, dy_correlation_id = dm_correlation_id m, dy_reason = dm_reason m,
      dy_description = dm_description m, dy_enqueued = (case dm_enqueued m of None \<Rightarrow> ''None'' | Some t \<Rightarrow> t)\<rparr>"

datatype dlq_answer =
    BadKind string
  | ReplayAnswer string nat "(string option \<times> string) list"
  | PeekAnswer string "dl_summary list"

definition empty_report :: replay_report where
  "empty_report = \<lparr>rl_kept = [], rl_sent = [], rl_replayed = 0, rl_failed = []\<rparr>"

definition http_dlq_replay :: "dlq_env \<Rightarrow> string \<Rightarrow> string option \<Rightarrow> broker \<Rightarrow> broker \<times> dlq_answer result" where
  "http_dlq_replay env kind max_param b =
     (case max_count max_param of
        Inl e \<Rightarrow> (b, Inl e)
      | Inr n \<Rightarrow>
          (case resolve_queue env kind of
             Inl (ValueError text) \<Rightarrow> (b, Inr (BadKind text))
           | Inl e \<Rightarrow> (b, Inl e)
           | Inr q \<Rightarrow>
               (case dq_receive env n (bk_dlq b q) of
                  Inl e \<Rightarrow> (b, Inl e)
                | Inr (received, left) \<Rightarrow>
                    (let r = replay_loop env kind received empty_report
                     in (b\<lparr>bk_main := (bk_main b)(q := bk_main b q @ rl_sent r),
                           bk_dlq := (bk_dlq b)(q := rl_kept r @ left)\<rparr>,
                         Inr (ReplayAnswer kind (rl_replayed r) (rl_failed r)))))))"

definition http_dlq_peek :: "dlq_env \<Rightarrow> string \<Rightarrow> string option \<Rightarrow> broker \<Rightarrow> dlq_answer result" where
  "http_dlq_peek env kind max_param b =
     bind_res (max_count max_param) (\<lambda>n.
       (case resolve_queue env kind of
          Inl (ValueError text) \<Rightarrow> Inr (BadKind text)
        | Inl e \<Rightarrow> Inl e
        | Inr q \<Rightarrow> bind_res (dq_peek env n (bk_dlq b q)) (\<lambda>ms. Inr (PeekAnswer kind (map msg_summary ms)))))"

subsection \<open>Laws\<close>

text \<open>What the broker promises of a receive: a part of the queue, no more than asked for.\<close>

definition receive_law :: "dlq_env \<Rightarrow> bool" where
  "receive_law env \<longleftrightarrow>
     (\<forall>n ms received left. dq_receive env n ms = Inr (received, left) \<longrightarrow>
        mset ms = mset received + mset left \<and> int (length received) \<le> n)"

definition is_poison :: "dlq_env \<Rightarrow> string \<Rightarrow> dl_message \<Rightarrow> bool" where
  "is_poison env kind m \<longleftrightarrow> (\<exists>body. message_text env m = Some body \<and> poison env kind body)"

definition republication :: "dlq_env \<Rightarrow> dl_message \<Rightarrow> out_message" where
  "republication env m = republish m (case message_text env m of None \<Rightarrow> [] | Some body \<Rightarrow> body)"

lemma replay_one_cases:
  obtains (kept) f where "replay_one env kind m = \<lparr>hn_sent = [], hn_completed = False, hn_failed = Some f\<rparr>"
  | (twice) f where "replay_one env kind m = \<lparr>hn_sent = [republication env m], hn_completed = False, hn_failed = Some f\<rparr>"
      "\<not> is_poison env kind m"
  | (dropped) f where "replay_one env kind m = \<lparr>hn_sent = [], hn_completed = True, hn_failed = Some f\<rparr>" "is_poison env kind m"
  | (moved) "replay_one env kind m = \<lparr>hn_sent = [republication env m], hn_completed = True, hn_failed = None\<rparr>"
      "\<not> is_poison env kind m"
proof (cases "message_text env m")
  case None
  then have "replay_one env kind m =
      \<lparr>hn_sent = [], hn_completed = False, hn_failed = Some (dm_message_id m, dq_text env (ValueError []))\<rparr>"
    by (simp add: replay_one_def)
  then show thesis by (rule kept)
next
  case (Some body)
  then have rep: "republication env m = republish m body" by (simp add: republication_def)
  show thesis
  proof (cases "poison env kind body")
    case True
    with Some have p: "is_poison env kind m" by (simp add: is_poison_def)
    from Some True show thesis
      by (cases "dq_complete env m") (auto simp: replay_one_def intro: kept dropped p)
  next
    case False
    with Some have p: "\<not> is_poison env kind m" by (simp add: is_poison_def)
    note def = replay_one_def Some False rep
    show thesis
    proof (cases "dq_send env (republish m body)")
      case (Inl e)
      then show thesis by (intro kept) (simp add: def)
    next
      case sent: (Inr u)
      show thesis
      proof (cases "dq_complete env m")
        case (Inl e)
        with sent show thesis by (intro twice[OF _ p]) (simp add: def)
      next
        case (Inr v)
        with sent show thesis by (intro moved[OF _ p]) (simp add: def)
      qed
    qed
  qed
qed

lemma max_count_bound: "max_count p = Inr n \<Longrightarrow> n \<le> 100"
  by (auto simp: max_count_def split: option.splits)

end
