(* ===== verification/DlqProperties.thy ===== *)
theory DlqProperties
  imports DlqReplay Intake
begin

text \<open>The properties of a dead letter replay, with a queue of two results.\<close>

lemma mset_take_drop: "mset (take n xs) + mset (drop n xs) = mset xs"
  by (metis append_take_drop_id mset_append)

subsection \<open>The loop in one equation\<close>

definition done_msg :: "dlq_env \<Rightarrow> string \<Rightarrow> dl_message \<Rightarrow> bool" where
  "done_msg env kind m \<longleftrightarrow> hn_completed (replay_one env kind m)"

definition sent_twice :: "dlq_env \<Rightarrow> string \<Rightarrow> dl_message \<Rightarrow> bool" where
  "sent_twice env kind m \<longleftrightarrow> \<not> done_msg env kind m \<and> hn_sent (replay_one env kind m) \<noteq> []"

lemma replay_loop_spec:
  "replay_loop env kind ms r =
    \<lparr>rl_kept = rl_kept r @ filter (\<lambda>m. \<not> done_msg env kind m) ms,
     rl_sent = rl_sent r @ concat (map (\<lambda>m. hn_sent (replay_one env kind m)) ms),
     rl_replayed = rl_replayed r + length (filter (\<lambda>m. hn_failed (replay_one env kind m) = None) ms),
     rl_failed = rl_failed r @ List.map_filter (\<lambda>m. hn_failed (replay_one env kind m)) ms\<rparr>"
  by (induction ms arbitrary: r)
     (auto simp: Let_def done_msg_def List.map_filter_simps split: option.splits)

lemma loop_sent:
  "mset (concat (map (\<lambda>m. hn_sent (replay_one env kind m)) ms)) =
    image_mset (republication env) (mset (filter (\<lambda>m. \<not> is_poison env kind m) (filter (done_msg env kind) ms)))
    + image_mset (republication env) (mset (filter (sent_twice env kind) ms))"
proof (induction ms)
  case Nil
  then show ?case by simp
next
  case (Cons m ms)
  show ?case
    by (cases rule: replay_one_cases[of env kind m]) (use Cons.IH in \<open>simp_all add: done_msg_def sent_twice_def\<close>)
qed

lemma loop_replayed:
  "length (filter (\<lambda>m. hn_failed (replay_one env kind m) = None) ms) =
   length (filter (\<lambda>m. \<not> is_poison env kind m) (filter (done_msg env kind) ms))"
proof (induction ms)
  case Nil
  then show ?case by simp
next
  case (Cons m ms)
  show ?case by (cases rule: replay_one_cases[of env kind m]) (use Cons.IH in \<open>simp_all add: done_msg_def\<close>)
qed

lemma loop_failed:
  "length (List.map_filter (\<lambda>m. hn_failed (replay_one env kind m)) ms) =
   length (filter (is_poison env kind) (filter (done_msg env kind) ms)) + length (filter (\<lambda>m. \<not> done_msg env kind m) ms)"
proof (induction ms)
  case Nil
  then show ?case by (simp add: List.map_filter_simps)
next
  case (Cons m ms)
  show ?case
    by (cases rule: replay_one_cases[of env kind m]) (use Cons.IH in \<open>simp_all add: done_msg_def List.map_filter_simps\<close>)
qed

lemma replay_runE:
  assumes "http_dlq_replay env kind p b = (b', Inr (ReplayAnswer k n failed))" and "resolve_queue env kind = Inr q"
  obtains max received left where "max_count p = Inr max" "dq_receive env max (bk_dlq b q) = Inr (received, left)"
    "b' = b\<lparr>bk_main := (bk_main b)(q := bk_main b q @ rl_sent (replay_loop env kind received empty_report)),
            bk_dlq := (bk_dlq b)(q := rl_kept (replay_loop env kind received empty_report) @ left)\<rparr>"
    "n = rl_replayed (replay_loop env kind received empty_report)"
    "failed = rl_failed (replay_loop env kind received empty_report)"
  using assms by (auto simp: http_dlq_replay_def Let_def split: sum.splits pyerr.splits)

text \<open>C35: a replay loses no message: of the at most hundred messages it takes from the dead letter
  queue each is sent to its main queue with the body and the ids it had and removed, or stays,
  or (results only) is poison and removed; one that was sent but could not be settled stays as
  well, so it may arrive twice and never not at all. The report counts the moved ones and has
  an entry for every other, and no other queue changes.\<close>

theorem replay_conserves_messages:
  assumes "receive_law env" and "resolve_queue env kind = Inr q"
    and "http_dlq_replay env kind p b = (b', Inr (ReplayAnswer k n failed))"
  shows "\<exists>handled twice.
    mset (bk_dlq b q) = mset (bk_dlq b' q) + mset handled \<and>
    mset (bk_main b' q) = mset (bk_main b q)
      + image_mset (republication env) (mset (filter (\<lambda>m. \<not> is_poison env kind m) handled))
      + image_mset (republication env) (mset twice) \<and>
    mset twice \<subseteq># mset (bk_dlq b' q) \<and>
    n = length (filter (\<lambda>m. \<not> is_poison env kind m) handled) \<and>
    length (filter (is_poison env kind) handled) + length twice \<le> length failed \<and> n + length failed \<le> 100 \<and>
    (kind = ''runs'' \<longrightarrow> n = length handled) \<and>
    (\<forall>q'. q' \<noteq> q \<longrightarrow> bk_main b' q' = bk_main b q' \<and> bk_dlq b' q' = bk_dlq b q')"
proof -
  obtain max received left where mx: "max_count p = Inr max" and rc: "dq_receive env max (bk_dlq b q) = Inr (received, left)"
    and b': "b' = b\<lparr>bk_main := (bk_main b)(q := bk_main b q @ rl_sent (replay_loop env kind received empty_report)),
            bk_dlq := (bk_dlq b)(q := rl_kept (replay_loop env kind received empty_report) @ left)\<rparr>"
    and n: "n = rl_replayed (replay_loop env kind received empty_report)"
    and failed: "failed = rl_failed (replay_loop env kind received empty_report)"
    by (rule replay_runE[OF assms(3,2)])
  note spec = replay_loop_spec empty_report_def
  let ?h = "filter (done_msg env kind) received" and ?t = "filter (sent_twice env kind) received"
    and ?kept = "filter (\<lambda>m. \<not> done_msg env kind m) received"
  from assms(1) rc have part: "mset (bk_dlq b q) = mset received + mset left" and len: "int (length received) \<le> max"
    by (auto simp: receive_law_def)
  have split: "mset received = mset ?kept + mset ?h" by (induction received) simp_all
  then have lens: "length received = length ?kept + length ?h" by (metis size_mset size_union)
  have hlen: "length ?h = length (filter (\<lambda>m. \<not> is_poison env kind m) ?h) + length (filter (is_poison env kind) ?h)"
    using sum_length_filter_compl[of "is_poison env kind" ?h] by simp
  have n': "n = length (filter (\<lambda>m. \<not> is_poison env kind m) ?h)" unfolding n by (simp add: spec loop_replayed del: filter_filter)
  have f': "length failed = length (filter (is_poison env kind) ?h) + length ?kept"
    unfolding failed by (simp add: spec loop_failed del: filter_filter)
  have "mset ?t = filter_mset (\<lambda>m. hn_sent (replay_one env kind m) \<noteq> []) (mset ?kept)"
    by (induction received) (simp_all add: sent_twice_def)
  then have twice: "mset ?t \<subseteq># mset ?kept" by (metis multiset_filter_subset)
  from size_mset_mono[OF twice] have "length ?t \<le> length ?kept" by (simp only: size_mset)
  moreover have "n + length failed \<le> 100" using n' f' hlen lens len max_count_bound[OF mx] by linarith
  moreover have "kind = ''runs'' \<longrightarrow> n = length ?h" unfolding n' by (auto simp: is_poison_def poison_def)
  moreover have "mset (bk_dlq b' q) = mset ?kept + mset left" by (simp add: b' spec)
  moreover from this have "mset (bk_dlq b q) = mset (bk_dlq b' q) + mset ?h"
    unfolding part by (subst split) (simp only: ac_simps)
  moreover have "mset (bk_main b' q) = mset (bk_main b q)
      + image_mset (republication env) (mset (filter (\<lambda>m. \<not> is_poison env kind m) ?h)) + image_mset (republication env) (mset ?t)"
    by (simp add: b' spec loop_sent del: filter_filter)
  moreover have "mset ?t \<subseteq># mset (bk_dlq b' q)" using twice by (simp add: b' spec subset_mset.add_increasing2)
  moreover have "\<forall>q'. q' \<noteq> q \<longrightarrow> bk_main b' q' = bk_main b q' \<and> bk_dlq b' q' = bk_dlq b q'" by (simp add: b')
  moreover have "length (filter (is_poison env kind) ?h) + length ?t \<le> length failed"
    using \<open>length ?t \<le> length ?kept\<close> f' by linarith
  ultimately show ?thesis using n' by (intro exI[of _ ?h] exI[of _ ?t] conjI)
qed

definition dlq_result :: dict where
  "dlq_result = [(''runId'', JStr ''r1''), (''status'', JStr ''Succeeded''), (''duration_ms'', JInt 5),
     (''tokens_prompt'', JInt 1), (''tokens_completion'', JInt 2), (''correlation_id'', JStr ''c1'')]"

definition dlq_body :: string where "dlq_body = json_dumps (JObj dlq_result)"

lemma dlq_result_read [simp]: "json_loads pf dlq_body = Some (JObj dlq_result)"
  by (simp add: dlq_body_def dlq_result_def)

lemma dlq_body_some [simp]: "dlq_body \<noteq> []"
  by (simp add: dlq_body_def json_text.simps)

lemma dlq_result_normal: "normalize_dict dlq_result = dlq_result @ [(''run_id'', JStr ''r1'')]"
  by (simp add: normalize_dict_def aliases_def apply_alias_def dlq_result_def dset_def)

lemma dlq_result_accepted: "\<exists>rm. validate_run_result (dlq_result @ [(''run_id'', JStr ''r1'')]) = Inr rm"
  by (simp add: validate_run_result_def dlq_result_def req_str_def req_int_def opt_str_def opt_artifacts_def)

definition dlq_message :: "nat \<Rightarrow> dl_message" where
  "dlq_message n = \<lparr>dm_sequence = n, dm_body = dlq_body, dm_message_id = Some ''m1'', dm_correlation_id = None,
     dm_content_type = None, dm_properties = [], dm_reason = None, dm_description = None, dm_enqueued = None\<rparr>"

definition dlq_env0 :: dlq_env where
  "dlq_env0 = \<lparr>dq_runs_queue = ''engine-runs'', dq_results_queue = ''engine-results'', dq_decode = Some,
     dq_float = (\<lambda>t. None), dq_receive = (\<lambda>n ms. if n \<le> 0 then Inl (ValueError []) else Inr (take (nat n) ms, drop (nat n) ms)),
     dq_peek = (\<lambda>n ms. Inr (take (nat n) ms)), dq_send = (\<lambda>m. Inr ()), dq_complete = (\<lambda>m. Inr ()), dq_text = (\<lambda>e. [])\<rparr>"

definition dlq_broker :: broker where
  "dlq_broker = \<lparr>bk_main = (\<lambda>q. []), bk_dlq = (\<lambda>q. [dlq_message 1, dlq_message 2])\<rparr>"

definition dlq_intake :: intake_env where
  "dlq_intake = \<lparr>ie_account = ''acct'', ie_container = ''batch-results'', ie_net = reliable, ie_decode = Some, ie_decode_ignore = (\<lambda>s. s),
     ie_float = (\<lambda>t. None), ie_raise = (\<lambda>e. Inr ()), ie_explain = (\<lambda>d. [])\<rparr>"

theorem replay_conserves_messages_witness:
  "\<exists>b' handled. http_dlq_replay dlq_env0 ''runs'' (Some ''1'') dlq_broker = (b', Inr (ReplayAnswer ''runs'' 1 [])) \<and>
     mset (bk_dlq dlq_broker ''engine-runs'') = mset (bk_dlq b' ''engine-runs'') + mset handled \<and> length handled = 1 \<and>
     bk_main b' ''engine-runs'' \<noteq> []"
proof -
  have law: "receive_law dlq_env0"
    unfolding receive_law_def dlq_env0_def by (auto simp: mset_take_drop split: if_splits)
  have q: "resolve_queue dlq_env0 ''runs'' = Inr ''engine-runs''" by (simp add: resolve_queue_def dlq_env0_def)
  have "snd (http_dlq_replay dlq_env0 ''runs'' (Some ''1'') dlq_broker) = Inr (ReplayAnswer ''runs'' 1 [])" by code_simp
  then obtain b' where r: "http_dlq_replay dlq_env0 ''runs'' (Some ''1'') dlq_broker = (b', Inr (ReplayAnswer ''runs'' 1 []))"
    by (metis prod.collapse)
  from replay_conserves_messages[OF law q r] obtain handled twice where
    h: "mset (bk_dlq dlq_broker ''engine-runs'') = mset (bk_dlq b' ''engine-runs'') + mset handled" "length handled = 1"
      "mset (bk_main b' ''engine-runs'') = mset (bk_main dlq_broker ''engine-runs'')
        + image_mset (republication dlq_env0) (mset (filter (\<lambda>m. \<not> is_poison dlq_env0 ''runs'' m) handled))
        + image_mset (republication dlq_env0) (mset twice)"
      "1 = length (filter (\<lambda>m. \<not> is_poison dlq_env0 ''runs'' m) handled)"
    by auto
  then have "filter (\<lambda>m. \<not> is_poison dlq_env0 ''runs'' m) handled \<noteq> []" by auto
  with h(3) have "bk_main b' ''engine-runs'' \<noteq> []" by auto
  with r h(1,2) show ?thesis by blast
qed

text \<open>C36: a replay throws away results the platform can use: a result in the camelCase spelling,
  which the result intake accepts as it is, is taken for poison, removed from the dead letter
  queue and not sent; the others are handled as if it were not there.\<close>

theorem aliased_result_thrown_away:
  assumes "sb_accept ienv msg = Inr rm" and "sb_body msg = dm_body m" and "dm_body m \<noteq> []"
    and "ie_decode ienv = dq_decode env" and "ie_loads ienv = dq_loads env"
    and "message_text env m = Some body" and "dq_loads env body = Some (JObj d)" and "\<not> dhas d ''run_id''"
    and "max_count p = Inr n" and "dq_receive env n (bk_dlq b (dq_results_queue env)) = Inr (received, left)"
    and "m \<in> set received" and "m \<notin> set left" and "dq_complete env m = Inr ()"
  shows "\<exists>b' k failed. http_dlq_replay env ''results'' p b = (b', Inr (ReplayAnswer ''results'' k failed)) \<and>
    m \<notin> set (bk_dlq b' (dq_results_queue env)) \<and>
    bk_main b' (dq_results_queue env) = bk_main b (dq_results_queue env)
      @ concat (map (\<lambda>x. hn_sent (replay_one env ''results'' x)) (filter (\<lambda>x. x \<noteq> m) received)) \<and>
    (dm_message_id m, ''poison message missing run_id/status'') \<in> set failed"
proof -
  have "\<not> truthy (dget d ''run_id'')" using assms(8) by (simp add: dget_no_key)
  then have one: "replay_one env ''results'' m = \<lparr>hn_sent = [], hn_completed = True,
      hn_failed = Some (dm_message_id m, ''poison message missing run_id/status'')\<rparr>"
    using assms(6,7,13) by (simp add: replay_one_def poison_def parse_json_payload_def)
  have q: "resolve_queue env ''results'' = Inr (dq_results_queue env)" by (simp add: resolve_queue_def)
  let ?r = "replay_loop env ''results'' received empty_report"
  have "concat (map (\<lambda>x. hn_sent (replay_one env ''results'' x)) xs) =
      concat (map (\<lambda>x. hn_sent (replay_one env ''results'' x)) (filter (\<lambda>x. x \<noteq> m) xs))" for xs
    by (induction xs) (simp_all add: one)
  then have "rl_sent ?r = concat (map (\<lambda>x. hn_sent (replay_one env ''results'' x)) (filter (\<lambda>x. x \<noteq> m) received))"
    by (simp add: replay_loop_spec empty_report_def)
  moreover have "m \<notin> set (rl_kept ?r @ left)" using assms(12) by (simp add: replay_loop_spec empty_report_def done_msg_def one)
  moreover have "(dm_message_id m, ''poison message missing run_id/status'') \<in> set (rl_failed ?r)"
    using assms(11) one by (force simp: replay_loop_spec empty_report_def List.map_filter_def)
  moreover have "http_dlq_replay env ''results'' p b =
      (b\<lparr>bk_main := (bk_main b)(dq_results_queue env := bk_main b (dq_results_queue env) @ rl_sent ?r),
         bk_dlq := (bk_dlq b)(dq_results_queue env := rl_kept ?r @ left)\<rparr>,
       Inr (ReplayAnswer ''results'' (rl_replayed ?r) (rl_failed ?r)))"
    using assms(9,10) q by (simp add: http_dlq_replay_def Let_def)
  ultimately show ?thesis by simp
qed

theorem aliased_result_thrown_away_witness:
  "\<exists>b' k failed. http_dlq_replay dlq_env0 ''results'' (Some ''1'') dlq_broker = (b', Inr (ReplayAnswer ''results'' k failed)) \<and>
     dlq_message 1 \<notin> set (bk_dlq b' ''engine-results'') \<and> bk_main b' ''engine-results'' = []"
proof -
  from dlq_result_accepted obtain rm where rm: "sb_accept dlq_intake \<lparr>sb_body = dlq_body, sb_props = []\<rparr> = Inr rm"
    by (auto simp: sb_accept_def dlq_intake_def ie_loads_def normalize_completion_payload_def dlq_result_normal)
  have d: "sb_body \<lparr>sb_body = dlq_body, sb_props = []\<rparr> = dm_body (dlq_message 1)" "dm_body (dlq_message 1) \<noteq> []"
    "ie_decode dlq_intake = dq_decode dlq_env0" "ie_loads dlq_intake = dq_loads dlq_env0"
    "message_text dlq_env0 (dlq_message 1) = Some dlq_body" "dq_loads dlq_env0 dlq_body = Some (JObj dlq_result)"
    "\<not> dhas dlq_result ''run_id''"
    by (simp_all add: dlq_message_def dlq_intake_def dlq_env0_def message_text_def ie_loads_def dq_loads_def) (simp add: dlq_result_def)
  have m: "max_count (Some ''1'') = Inr 1" by code_simp
  have r: "dq_receive dlq_env0 1 (bk_dlq dlq_broker (dq_results_queue dlq_env0)) = Inr ([dlq_message 1], [dlq_message 2])"
    "dq_complete dlq_env0 (dlq_message 1) = Inr ()" "dlq_message 1 \<notin> set [dlq_message 2]"
    by (simp_all add: dlq_env0_def dlq_broker_def dlq_message_def)
  from aliased_result_thrown_away[OF rm d m r(1) _ r(3,2)] show ?thesis
    by (auto simp: dlq_env0_def dlq_broker_def)
qed

end
