(* ===== verification/LiveProjection.thy ===== *)
theory LiveProjection
  imports Orchestrator Tracing
begin

text \<open>
  The projection of live events to SignalR (\<^verbatim>\<open>project_live_progress_event\<close> and its
  helpers in \<^verbatim>\<open>runtime/events.py\<close>, with the activity
  \<^verbatim>\<open>project_live_progress\<close> around it). The managed identity, the answer to
  the HTTP request, the clock and HMAC-SHA256 are parameters; Base64 is written out. The
  state is what was posted and what the metric counted.
\<close>

subsection \<open>Settings, environment, state\<close>

record live_settings =
  ls_enabled :: bool
  ls_target :: string
  ls_group_prefix :: string
  ls_connection_string :: string
  ls_service_endpoint :: string
  ls_token_scope :: string
  ls_hub_name :: string
  ls_timeout_s :: rat

datatype live_error = AzureError | HttpError | OtherError pyerr

text \<open>A POST as \<^verbatim>\<open>httpx.post\<close> gets it; its answer is the status code.\<close>

record http_post =
  hp_url :: string
  hp_headers :: "(string \<times> string) list"
  hp_body :: json
  hp_timeout :: rat

record live_env =
  le_identity :: "string \<Rightarrow> live_error + string"
  le_post :: "http_post \<Rightarrow> live_error + nat"
  le_now :: int
  le_hmac :: "string \<Rightarrow> string \<Rightarrow> string"

record live_post =
  lo_url :: string
  lo_token :: string
  lo_target :: string
  lo_event :: live_event

record live_outcome =
  oc_projected :: bool
  oc_reason :: "string option"
  oc_transport :: string

record live_state =
  lv_posts :: "live_post list"
  lv_counted :: "(string \<times> string \<times> string) list"

subsection \<open>The endpoint\<close>

definition before_eq :: "string \<Rightarrow> string" where
  "before_eq s = takeWhile (\<lambda>c. c \<noteq> CHR ''='') s"

definition after_eq :: "string \<Rightarrow> string" where
  "after_eq s = tl (dropWhile (\<lambda>c. c \<noteq> CHR ''='') s)"

definition connection_parts :: "string \<Rightarrow> string \<rightharpoonup> string" where
  "connection_parts s =
     fold (\<lambda>part m. if part = [] \<or> CHR ''='' \<notin> set part then m else m(before_eq part \<mapsto> after_eq part))
       (split_on CHR '';'' s) Map.empty"

definition part_or_empty :: "(string \<rightharpoonup> string) \<Rightarrow> string \<Rightarrow> string" where
  "part_or_empty m k = (case m k of None \<Rightarrow> [] | Some v \<Rightarrow> v)"

definition parse_signalr_connection_string :: "string \<Rightarrow> string \<times> string" where
  "parse_signalr_connection_string s =
     (let m = connection_parts s in (rstrip_slash (part_or_empty m ''Endpoint''), part_or_empty m ''AccessKey''))"

definition resolve_signalr_endpoint :: "live_settings \<Rightarrow> string \<times> string" where
  "resolve_signalr_endpoint st =
     (let (endpoint, key) = parse_signalr_connection_string (ls_connection_string st)
      in if endpoint \<noteq> [] then (endpoint, key) else (rstrip_slash (ls_service_endpoint st), []))"

subsection \<open>The bearer token\<close>

definition b64_char :: "nat \<Rightarrow> char" where
  "b64_char n =
     (if n < 26 then char_of (65 + n) else if n < 52 then char_of (71 + n)
      else if n < 62 then char_of (n - 4) else if n = 62 then CHR ''-'' else CHR ''_'')"

fun b64_encode :: "string \<Rightarrow> string" where
  "b64_encode [] = []"
| "b64_encode [a] = [b64_char (codept a div 4), b64_char (codept a mod 4 * 16), CHR ''='', CHR ''='']"
| "b64_encode [a, b] =
     [b64_char (codept a div 4), b64_char (codept a mod 4 * 16 + codept b div 16), b64_char (codept b mod 16 * 4), CHR ''='']"
| "b64_encode (a # b # c # s) =
     [b64_char (codept a div 4), b64_char (codept a mod 4 * 16 + codept b div 16),
      b64_char (codept b mod 16 * 4 + codept c div 64), b64_char (codept c mod 64)] @ b64_encode s"

definition base64url :: "string \<Rightarrow> string" where
  "base64url s = rstrip_of CHR ''='' (b64_encode s)"

definition base64url_json :: "json \<Rightarrow> string" where
  "base64url_json v = base64url (json_text '','' '':'' v)"

definition jwt_header :: json where
  "jwt_header = JObj [(''alg'', JStr ''HS256''), (''typ'', JStr ''JWT'')]"

definition jwt_payload :: "live_env \<Rightarrow> string \<Rightarrow> json" where
  "jwt_payload env url = JObj [(''aud'', JStr url), (''exp'', JInt (le_now env + 300))]"

definition build_signalr_bearer_token :: "live_env \<Rightarrow> string \<Rightarrow> string \<Rightarrow> string \<Rightarrow> live_error + string" where
  "build_signalr_bearer_token env url key scope =
     (if key = [] then le_identity env scope
      else
        (let header = base64url_json jwt_header; payload = base64url_json (jwt_payload env url);
             input = header @ ''.'' @ payload
         in Inr (header @ ''.'' @ payload @ ''.'' @ base64url (le_hmac env key input))))"

subsection \<open>Projecting\<close>

definition record_projection_outcome :: "live_outcome \<Rightarrow> live_state \<Rightarrow> live_state" where
  "record_projection_outcome out s =
     s\<lparr>lv_counted := lv_counted s @
         [(if oc_projected out then ''true'' else ''false'', oc_transport out,
           case oc_reason out of None \<Rightarrow> ''none'' | Some r \<Rightarrow> str_or r ''none'')]\<rparr>"

definition not_projected :: "string \<Rightarrow> live_outcome" where
  "not_projected reason = \<lparr>oc_projected = False, oc_reason = Some reason, oc_transport = ''poll''\<rparr>"

definition group_url :: "live_settings \<Rightarrow> string \<Rightarrow> string \<Rightarrow> string" where
  "group_url st endpoint batch_id =
     endpoint @ ''/api/v1/hubs/'' @ ls_hub_name st @ ''/groups/'' @ ls_group_prefix st @ '':'' @ batch_id"

text \<open>The dict an event record stands for, and the request that carries it.\<close>

definition opt_json :: "('a \<Rightarrow> json) \<Rightarrow> 'a option \<Rightarrow> json" where
  "opt_json f v = (case v of None \<Rightarrow> JNull | Some x \<Rightarrow> f x)"

definition event_json :: "live_event \<Rightarrow> json" where
  "event_json ev = JObj
     [(''specVersion'', JStr (ev_specVersion ev)), (''eventType'', JStr (ev_eventType ev)),
      (''sequence'', JInt (int (ev_sequence ev))), (''occurredAt'', JStr (ev_occurredAt ev)),
      (''submission'', let r = ev_submission ev in JObj
        [(''submissionId'', JStr (sr_submissionId r)), (''batchId'', JStr (sr_batchId r)),
         (''jobId'', opt_json JStr (sr_jobId r)), (''status'', JStr (sr_status r))]),
      (''application'', opt_json (\<lambda>r. JObj
        [(''applicationId'', JStr (ar_applicationId r)), (''documentId'', JStr (ar_documentId r)),
         (''status'', JStr (ar_status r))]) (ev_application ev)),
      (''run'', opt_json (\<lambda>r. JObj
        [(''runId'', rr_runId r), (''runIndex'', JInt (int (rr_runIndex r))), (''status'', rr_status r),
         (''artifactCount'', JInt (int (rr_artifactCount r)))]) (ev_run ev)),
      (''progress'', let r = ev_progress ev in JObj
        [(''status'', JStr (pr_status r)), (''cvsCompleted'', JInt (int (pr_cvsCompleted r))),
         (''cvsTotal'', JInt (int (pr_cvsTotal r))), (''runsCompleted'', JInt (int (pr_runsCompleted r))),
         (''runsDispatched'', JInt (int (pr_runsDispatched r))), (''runsTotal'', JInt (int (pr_runsTotal r))),
         (''lastUpdatedAt'', JStr (pr_lastUpdatedAt r))]),
      (''artifacts'', ev_artifacts ev),
      (''trace'', JObj [(''correlationId'', ev_correlationId ev), (''traceparent'', ev_traceparent ev)]),
      (''fallback'', JObj [(''mode'', JStr (ev_fallbackMode ev)), (''pollUrl'', JStr (ev_pollUrl ev))])]"

definition group_body :: "live_settings \<Rightarrow> live_event \<Rightarrow> json" where
  "group_body st ev = JObj [(''target'', JStr (ls_target st)), (''arguments'', JList [event_json ev])]"

definition post_to_signalr_group ::
  "live_env \<Rightarrow> live_settings \<Rightarrow> string \<Rightarrow> string \<Rightarrow> json \<Rightarrow> live_error + unit" where
  "post_to_signalr_group env st url bearer body =
     (case le_post env \<lparr>hp_url = url,
          hp_headers = [(''Authorization'', ''Bearer '' @ bearer), (''Content-Type'', ''application/json'')],
          hp_body = body, hp_timeout = ls_timeout_s st\<rparr> of
        Inl e \<Rightarrow> Inl e
      | Inr status \<Rightarrow> (if 200 \<le> status \<and> status < 300 then Inr () else Inl HttpError))"

text \<open>Building the token and posting, the body of the \<^verbatim>\<open>try\<close>.\<close>

definition send_event :: "live_env \<Rightarrow> live_settings \<Rightarrow> string \<Rightarrow> string \<Rightarrow> live_event \<Rightarrow> live_error + live_post" where
  "send_event env st url key ev =
     (case build_signalr_bearer_token env url key (ls_token_scope st) of
        Inl e \<Rightarrow> Inl e
      | Inr token \<Rightarrow> map_sum id (\<lambda>_. \<lparr>lo_url = url, lo_token = token, lo_target = ls_target st, lo_event = ev\<rparr>)
          (post_to_signalr_group env st url token (group_body st ev)))"

definition project_live_progress_event ::
  "live_env \<Rightarrow> live_settings \<Rightarrow> live_event \<Rightarrow> live_state \<Rightarrow> live_state \<times> live_outcome result" where
  "project_live_progress_event env st ev s =
     (let finish = (\<lambda>out s. (record_projection_outcome out s, Inr out))
      in if \<not> ls_enabled st then finish (not_projected ''disabled'') s
         else
           (let (endpoint, key) = resolve_signalr_endpoint st
            in if endpoint = [] then finish (not_projected ''not-configured'') s
               else
                 (case send_event env st (group_url st endpoint (sr_batchId (ev_submission ev))) key ev of
                    Inr p \<Rightarrow> finish \<lparr>oc_projected = True, oc_reason = None, oc_transport = ''signalr''\<rparr>
                        (s\<lparr>lv_posts := lv_posts s @ [p]\<rparr>)
                  | Inl (OtherError e) \<Rightarrow> (s, Inl e)
                  | Inl e \<Rightarrow> finish (not_projected ''signalr-error'') s)))"

text \<open>The activity as the orchestrator sees it: it only waits for the activity to succeed.\<close>

definition project_live_progress :: "live_env \<Rightarrow> live_settings \<Rightarrow> live_state \<Rightarrow> live_event \<Rightarrow> unit result" where
  "project_live_progress env st s ev = map_sum id (\<lambda>_. ()) (snd (project_live_progress_event env st ev s))"

subsection \<open>Laws\<close>

lemma b64_char_plain: "n < 64 \<Longrightarrow> CHR ''.'' \<noteq> b64_char n"
proof
  assume n: "n < 64" and dot: "CHR ''.'' = b64_char n"
  have "of_char (b64_char n) = (46 :: nat)" unfolding dot[symmetric] by code_simp
  with n show False by (auto simp: b64_char_def split: if_splits)
qed

lemma codept_byte: "codept c < 256"
  by (simp add: codept_def)

lemma b64_no_dot: "CHR ''.'' \<notin> set (b64_encode s)"
proof (induction s rule: b64_encode.induct)
  case 1
  show ?case by simp
next
  case (2 a)
  have "codept a div 4 < 64" "codept a mod 4 * 16 < 64" using codept_byte[of a] by linarith+
  then show ?case by (simp add: b64_char_plain)
next
  case (3 a b)
  have "codept a div 4 < 64" "codept a mod 4 * 16 + codept b div 16 < 64" "codept b mod 16 * 4 < 64"
    using codept_byte[of a] codept_byte[of b] by linarith+
  then show ?case by (simp add: b64_char_plain)
next
  case (4 a b c s)
  have "codept a div 4 < 64" "codept a mod 4 * 16 + codept b div 16 < 64" "codept b mod 16 * 4 + codept c div 64 < 64"
    "codept c mod 64 < 64"
    using codept_byte[of a] codept_byte[of b] codept_byte[of c] by linarith+
  with 4 show ?case by (simp add: b64_char_plain)
qed

lemma base64url_no_dot: "CHR ''.'' \<notin> set (base64url s)"
proof -
  have "set (rstrip_of ch xs) \<subseteq> set xs" for ch xs
    unfolding rstrip_of_def using set_dropWhileD by force
  with b64_no_dot show ?thesis unfolding base64url_def by blast
qed

lemma signed_token_parts:
  assumes "key \<noteq> []"
  shows "\<exists>token. build_signalr_bearer_token env url key scope = Inr token \<and>
    split_on CHR ''.'' token =
      [base64url_json jwt_header, base64url_json (jwt_payload env url),
       base64url (le_hmac env key (base64url_json jwt_header @ ''.'' @ base64url_json (jwt_payload env url)))]"
  using assms base64url_no_dot
  by (simp add: build_signalr_bearer_token_def base64url_json_def Let_def split_on_append split_on_clean)

text \<open>An environment whose identity and POST fail with Azure and HTTP errors only.\<close>

definition contained :: "live_env \<Rightarrow> bool" where
  "contained env \<longleftrightarrow> (\<forall>scope x. le_identity env scope \<noteq> Inl (OtherError x)) \<and>
     (\<forall>r x. le_post env r \<noteq> Inl (OtherError x))"

lemma send_event_contained: "contained env \<Longrightarrow> send_event env st url key ev \<noteq> Inl (OtherError x)"
  by (auto simp: send_event_def post_to_signalr_group_def build_signalr_bearer_token_def contained_def Let_def map_sum_Inl_iff split: sum.splits if_splits)

lemma contained_projects:
  assumes "contained env"
  shows "project_live_progress env st s = (\<lambda>ev. Inr ())"
proof (rule ext)
  fix ev
  obtain endpoint key where r: "resolve_signalr_endpoint st = (endpoint, key)" by (metis surj_pair)
  let ?x = "send_event env st (group_url st endpoint (sr_batchId (ev_submission ev))) key ev"
  note def = project_live_progress_def project_live_progress_event_def Let_def
  show "project_live_progress env st s ev = Inr ()"
  proof (cases ?x)
    case (Inl e)
    with send_event_contained[OF assms] have "\<forall>y. e \<noteq> OtherError y" by metis
    with Inl r show ?thesis by (cases e) (simp_all add: def)
  next
    case (Inr p)
    with r show ?thesis by (simp add: def)
  qed
qed

end
