(* ===== verification/LiveProperties.thy ===== *)
theory LiveProperties
  imports LiveProjection
begin

text \<open>The property of the projection, with a hub that answers 503.\<close>

lemma send_event_post:
  assumes "send_event env st url key ev = Inr p"
  shows "lo_url p = url \<and> lo_event p = ev \<and> lo_target p = ls_target st \<and>
    (key \<noteq> [] \<longrightarrow> split_on CHR ''.'' (lo_token p) =
      [base64url_json jwt_header, base64url_json (jwt_payload env url),
       base64url (le_hmac env key (base64url_json jwt_header @ ''.'' @ base64url_json (jwt_payload env url)))])"
proof -
  from assms obtain token where t: "build_signalr_bearer_token env url key (ls_token_scope st) = Inr token"
    "p = \<lparr>lo_url = url, lo_token = token, lo_target = ls_target st, lo_event = ev\<rparr>"
    by (auto simp: send_event_def map_sum_Inr_iff split: sum.splits)
  then show ?thesis using signed_token_parts[of key env url "ls_token_scope st"] by auto
qed

text \<open>C37: as long as the identity and SignalR fail only with Azure and HTTP errors, projecting
  an event always ends with an outcome, counted once; it is posted at most once, to the group
  of its own batch, with a token of three parts signed over the first two when there is an
  access key, and only when the projection is enabled and configured. So no outage of SignalR
  and no setting of it changes what a batch does.\<close>

theorem projection_never_disturbs_batch:
  assumes "contained env"
  shows "(\<exists>s' out. project_live_progress_event env st ev s = (s', Inr out) \<and>
      length (lv_counted s') = Suc (length (lv_counted s)) \<and>
      (oc_projected out \<longrightarrow> ls_enabled st \<and>
        (\<exists>endpoint key p. resolve_signalr_endpoint st = (endpoint, key) \<and> endpoint \<noteq> [] \<and> lv_posts s' = lv_posts s @ [p] \<and>
           lo_event p = ev \<and> lo_url p = group_url st endpoint (sr_batchId (ev_submission ev)) \<and>
           (key \<noteq> [] \<longrightarrow> (\<exists>h b sig. split_on CHR ''.'' (lo_token p) = [h, b, sig] \<and> sig = base64url (le_hmac env key (h @ ''.'' @ b)))))) \<and>
      (\<not> oc_projected out \<longrightarrow> lv_posts s' = lv_posts s \<and> oc_transport out = ''poll'')) \<and>
    batch_orchestrator uuid5 (make_ctx uuid5 pf (project_live_progress env st s) inp) stage dispatch fin clock inp ds =
      batch_orchestrator uuid5 (make_ctx uuid5 pf (\<lambda>ev. Inr ()) inp) stage dispatch fin clock inp ds"
proof -
  note def = project_live_progress_event_def record_projection_outcome_def not_projected_def Let_def
  have one: "\<exists>s' out. project_live_progress_event env st ev s = (s', Inr out) \<and>
      length (lv_counted s') = Suc (length (lv_counted s)) \<and>
      (oc_projected out \<longrightarrow> ls_enabled st \<and>
        (\<exists>endpoint key p. resolve_signalr_endpoint st = (endpoint, key) \<and> endpoint \<noteq> [] \<and> lv_posts s' = lv_posts s @ [p] \<and>
           lo_event p = ev \<and> lo_url p = group_url st endpoint (sr_batchId (ev_submission ev)) \<and>
           (key \<noteq> [] \<longrightarrow> (\<exists>h b sig. split_on CHR ''.'' (lo_token p) = [h, b, sig] \<and> sig = base64url (le_hmac env key (h @ ''.'' @ b)))))) \<and>
      (\<not> oc_projected out \<longrightarrow> lv_posts s' = lv_posts s \<and> oc_transport out = ''poll'')" for ev
  proof -
    obtain endpoint key where r: "resolve_signalr_endpoint st = (endpoint, key)" by (metis surj_pair)
    show ?thesis
    proof (cases "ls_enabled st \<and> endpoint \<noteq> []")
      case False
      then show ?thesis by (auto simp: def r)
    next
      case True
      let ?x = "send_event env st (group_url st endpoint (sr_batchId (ev_submission ev))) key ev"
      show ?thesis
      proof (cases ?x)
        case (Inl e)
        with send_event_contained[OF assms] have "\<forall>y. e \<noteq> OtherError y" by metis
        with True Inl r show ?thesis by (cases e) (simp_all add: def)
      next
        case (Inr p)
        with True r send_event_post[OF Inr] show ?thesis by (simp add: def)
      qed
    qed
  qed
  with contained_projects[OF assms, of st s] show ?thesis by simp
qed

definition live_down :: live_env where
  "live_down = \<lparr>le_identity = (\<lambda>s. Inl AzureError), le_post = (\<lambda>r. Inr 503), le_now = 0,
     le_hmac = (\<lambda>k m. m)\<rparr>"

definition live_on :: live_settings where
  "live_on = \<lparr>ls_enabled = True, ls_target = ''batchProgress'', ls_group_prefix = ''submission'',
     ls_connection_string = ''Endpoint=https://x.signalr.net/;AccessKey=a=='', ls_service_endpoint = [],
     ls_token_scope = ''scope'', ls_hub_name = ''batch-progress'', ls_timeout_s = 5\<rparr>"

theorem projection_never_disturbs_batch_witness:
  "resolve_signalr_endpoint live_on = (''https://x.signalr.net'', ''a=='') \<and>
   (\<forall>ev. \<exists>s' out. project_live_progress_event live_down live_on ev \<lparr>lv_posts = [], lv_counted = []\<rparr> = (s', Inr out) \<and>
      length (lv_counted s') = 1)"
proof (intro conjI allI)
  have c: "contained live_down" by (simp add: contained_def live_down_def)
  show "\<exists>s' out. project_live_progress_event live_down live_on ev \<lparr>lv_posts = [], lv_counted = []\<rparr> = (s', Inr out) \<and>
      length (lv_counted s') = 1" for ev
    using projection_never_disturbs_batch[OF c, THEN conjunct1, of live_on ev "\<lparr>lv_posts = [], lv_counted = []\<rparr>"] by fastforce
  show "resolve_signalr_endpoint live_on = (''https://x.signalr.net'', ''a=='')" by code_simp
qed

end
