(* ===== verification/FakeEngine.thy ===== *)
theory FakeEngine
  imports Aggregation Tracing JsonLaws
begin

text \<open>
  The fake engine (\<^verbatim>\<open>tools/fake-engine/function_app.py\<close>), the stand-in worker of the
  tests: it consumes a run message, may fail on purpose, writes an output artifact and answers
  with a result message. Random numbers are the draws \<open>fk_random 0, 1, ...\<close> of one
  invocation; the clock, UUIDs, environment variables and the SDK calls are parameters.
\<close>

subsection \<open>Environment and state\<close>

text \<open>
  \<open>fk_float\<close> is an environment variable read as a float, nothing when it is missing or no
  number; \<open>fk_repr\<close> is \<^verbatim>\<open>repr\<close> of a float, \<open>fk_json_float\<close> reads a float of a JSON text.
\<close>

record fake_env =
  fk_decode :: "string \<Rightarrow> string option"
  fk_json_float :: "string \<Rightarrow> json option"
  fk_float :: "string \<Rightarrow> rat option"
  fk_text :: "string \<Rightarrow> string option"
  fk_random :: "nat \<Rightarrow> rat"
  fk_repr :: "rat \<Rightarrow> string"
  fk_uuid :: "nat \<Rightarrow> string"
  fk_now :: string
  fk_elapsed :: int
  fk_upload :: "string \<Rightarrow> unit result"
  fk_send :: "json \<Rightarrow> unit result"

record fake_result =
  fe_namespace :: string
  fe_queue :: string
  fe_body :: json
  fe_correlation_id :: json
  fe_message_id :: string
  fe_props :: dict

record fake_state =
  fs_blobs :: "string \<rightharpoonup> string"
  fs_sent :: "fake_result list"

definition fk_loads :: "fake_env \<Rightarrow> string \<Rightarrow> json option" where
  "fk_loads env = json_loads (fk_json_float env)"

definition env_float :: "fake_env \<Rightarrow> string \<Rightarrow> rat \<Rightarrow> rat" where
  "env_float env name d = (case fk_float env name of None \<Rightarrow> fl64 d | Some x \<Rightarrow> x)"

definition env_text :: "fake_env \<Rightarrow> string \<Rightarrow> string \<Rightarrow> string" where
  "env_text env name d = (case fk_text env name of None \<Rightarrow> d | Some s \<Rightarrow> s)"

definition environ :: "fake_env \<Rightarrow> string \<Rightarrow> string result" where
  "environ env name = (case fk_text env name of None \<Rightarrow> Inl (KeyError name) | Some s \<Rightarrow> Inr s)"

fun coerce_str :: "(string \<Rightarrow> string option) \<Rightarrow> carried \<Rightarrow> string" where
  "coerce_str decode (Value v) = (if v = JNull then [] else py_str v)"
| "coerce_str decode (Bytes b) = (case decode b of None \<Rightarrow> [] | Some s \<Rightarrow> s)"

subsection \<open>The synthetic output\<close>

text \<open>\<^verbatim>\<open>random.uniform(a, b)\<close> and \<^verbatim>\<open>round(x, 2)\<close>\<close>

definition uniform :: "rat \<Rightarrow> rat \<Rightarrow> rat \<Rightarrow> rat" where
  "uniform a b r = fl64 (a + fl64 (fl64 (b - a) * r))"

definition round2 :: "rat \<Rightarrow> rat" where
  "round2 x = fl64 (of_int (round_even (x * 100)) / 100)"

definition score_at :: "fake_env \<Rightarrow> nat \<Rightarrow> rat" where
  "score_at env n = round2 (uniform (env_float env ''FAKE_SCORE_MIN'' (11 / 2)) (env_float env ''FAKE_SCORE_MAX'' (19 / 2)) (fk_random env n))"

definition float_json :: "fake_env \<Rightarrow> rat \<Rightarrow> json" where
  "float_json env x = JFloat x (fk_repr env x)"

definition met_at :: "fake_env \<Rightarrow> nat \<Rightarrow> bool" where
  "met_at env n \<longleftrightarrow> fk_random env n < env_float env ''FAKE_MUST_HAVE_PASS_RATE'' (17 / 20)"

text \<open>The draws 0 to 2 are the handler's own.\<close>

definition build_output :: "fake_env \<Rightarrow> json \<Rightarrow> dict" where
  "build_output env run_id =
     [(''run_id'', run_id), (''overall_score'', float_json env (score_at env 3)),
      (''sub_scores'', JObj [(''experience'', float_json env (score_at env 4)), (''skills'', float_json env (score_at env 5)),
         (''education'', float_json env (score_at env 6))]),
      (''must_haves'', JList [JObj [(''name'', JStr ''minimum_experience''), (''met'', JBool (met_at env 7))],
         JObj [(''name'', JStr ''required_skills''), (''met'', JBool (met_at env 8))]]),
      (''variance'', JFloat 0 ''0.0''), (''generated_at'', JStr (fk_now env))]"

definition artifact_url :: "string \<Rightarrow> string \<Rightarrow> json \<Rightarrow> string" where
  "artifact_url account container run_id =
     ''https://'' @ account @ ''.blob.core.windows.net/'' @ container @ ''/engine-outputs/'' @ py_str run_id @ ''/output.json''"

definition write_output_artifact ::
  "fake_env \<Rightarrow> string \<Rightarrow> string \<Rightarrow> json \<Rightarrow> dict \<Rightarrow> fake_state \<Rightarrow> fake_state \<times> string result" where
  "write_output_artifact env account container run_id body s =
     (let url = artifact_url account container run_id
      in case fk_upload env url of
           Inl e \<Rightarrow> (s, Inl e)
         | Inr _ \<Rightarrow> (s\<lparr>fs_blobs := (fs_blobs s)(url \<mapsto> json_dumps (JObj body))\<rparr>, Inr url))"

definition artifacts_of :: "string \<Rightarrow> json" where
  "artifacts_of url = JList [JObj [(''name'', JStr ''output.json''), (''blob_uri'', JStr url), (''mime'', JStr ''application/json''),
     (''size_bytes'', JNull), (''sha256'', JNull)]]"

subsection \<open>The trigger\<close>

definition result_body :: "fake_env \<Rightarrow> json \<Rightarrow> json \<Rightarrow> bool \<Rightarrow> json \<Rightarrow> dict" where
  "result_body env run_id cid fail artifacts =
     [(''run_id'', run_id), (''status'', JStr (if fail then ''Failed'' else ''Succeeded'')),
      (''duration_ms'', JInt (fk_elapsed env)), (''tokens_prompt'', JInt 0), (''tokens_completion'', JInt 0),
      (''error_message'', if fail then JStr ''fake-engine synthetic failure'' else JNull),
      (''correlation_id'', cid), (''artifacts'', artifacts)]"

definition send_result :: "fake_env \<Rightarrow> string \<Rightarrow> string \<Rightarrow> dict \<Rightarrow> json \<Rightarrow> dict \<Rightarrow> fake_state \<Rightarrow> fake_state \<times> unit result" where
  "send_result env namespace queue body cid fprops s =
     (case fk_send env (JObj body) of
        Inl e \<Rightarrow> (s, Inl e)
      | Inr _ \<Rightarrow> (s\<lparr>fs_sent := fs_sent s @ [\<lparr>fe_namespace = namespace, fe_queue = queue, fe_body = JObj body,
            fe_correlation_id = cid, fe_message_id = fk_uuid env 1, fe_props = fprops\<rparr>]\<rparr>, Inr ()))"

definition sleep_time :: "fake_env \<Rightarrow> rat" where
  "sleep_time env =
     (let lo = env_float env ''FAKE_LATENCY_MS_MIN'' 50; hi = max lo (env_float env ''FAKE_LATENCY_MS_MAX'' 250)
      in fl64 (uniform lo hi (fk_random env 1) / 1000))"

definition answer_run :: "fake_env \<Rightarrow> json \<Rightarrow> json \<Rightarrow> string \<Rightarrow> fake_state \<Rightarrow> fake_state \<times> unit result" where
  "answer_run env run_id cid tp s =
     (let fail = fk_random env 2 < env_float env ''FAKE_FAILURE_RATE'' 0
      in case (environ env ''SB_NAMESPACE'', environ env ''BLOB_ACCOUNT'') of
           (Inl e, _) \<Rightarrow> (s, Inl e)
         | (Inr ns, Inl e) \<Rightarrow> (s, Inl e)
         | (Inr ns, Inr account) \<Rightarrow>
             (let queue = env_text env ''SB_RESULTS_QUEUE'' ''engine-results'';
                  container = env_text env ''FAKE_ARTIFACT_CONTAINER'' ''batch-results'';
                  out_props = [(''correlationId'', cid), (''runId'', run_id)] @
                    (if tp \<noteq> [] then [(''traceparent'', JStr tp)] else [])
              in if fail then send_result env ns queue (result_body env run_id cid True JNull) cid out_props s
                 else (case write_output_artifact env account container run_id (build_output env run_id) s of
                     (s1, Inl e) \<Rightarrow> (s1, Inl e)
                   | (s1, Inr url) \<Rightarrow>
                       send_result env ns queue (result_body env run_id cid False (artifacts_of url)) cid out_props s1)))"

definition fake_engine_run :: "fake_env \<Rightarrow> string \<Rightarrow> props \<Rightarrow> fake_state \<Rightarrow> fake_state \<times> unit result" where
  "fake_engine_run env body app_props s =
     (case fk_decode env body of
        None \<Rightarrow> (s, Inl (ValueError []))
      | Some text \<Rightarrow>
          (case fk_loads env text of
             None \<Rightarrow> (s, Inl (ValueError []))
           | Some (JObj inbound) \<Rightarrow>
               (let run_id = py_or (dget inbound ''run_id'') (JStr (fk_uuid env 0));
                    cid = py_or (dget inbound ''correlation_id'') (JStr []);
                    tp = coerce_str (fk_decode env)
                      (if carried_truthy (prop_get app_props (StrKey ''traceparent''))
                       then prop_get app_props (StrKey ''traceparent'') else prop_get app_props (BytesKey ''traceparent''))
                in if fk_random env 0 < env_float env ''FAKE_TRANSIENT_RATE'' 0
                   then (s, Inl (RuntimeError ''fake-engine transient''))
                   else if sleep_time env < 0 then (s, Inl (ValueError []))
                   else answer_run env run_id cid tp s)
           | Some _ \<Rightarrow> (s, Inl AttributeError)))"

subsection \<open>Laws\<close>

text \<open>The output of a run is scored as drawn, and approved exactly if both must-haves are met.\<close>

lemma build_output_signal:
  "extract_cv_signal (build_output env run_id) = Inr (Some
    \<lparr>sg_score = Some (fl64 (score_at env 3)), sg_met = (met_at env 7 \<and> met_at env 8),
     sg_decision = (if met_at env 7 \<and> met_at env 8 then ''Approve'' else ''Reject'')\<rparr>)"
  by (simp add: extract_cv_signal_def Let_def build_output_def cv_score_field_def cv_decision_raw_def cv_must_haves_def
      cv_all_met_def cv_decision_def float_json_def status_key_def sub_dict_def py_or_def
      positive_decisions_def negative_decisions_def strip_def lower_def)

lemma send_result_sent:
  assumes "send_result env ns q body cid fprops s = (s', Inr ())"
  shows "\<exists>r. fs_sent s' = fs_sent s @ [r] \<and> fe_body r = JObj body \<and> fe_props r = fprops"
  using assms by (auto simp: send_result_def split: sum.splits)

lemma write_output_artifact_sent: "write_output_artifact env a c run_id body s = (s1, r) \<Longrightarrow> fs_sent s1 = fs_sent s"
  by (auto simp: write_output_artifact_def Let_def split: sum.splits)

lemma write_output_artifact_url: "write_output_artifact env a c run_id body s = (s1, Inr url) \<Longrightarrow> url = artifact_url a c run_id"
  by (auto simp: write_output_artifact_def Let_def split: sum.splits)

definition trace_props :: "json \<Rightarrow> json \<Rightarrow> string \<Rightarrow> dict" where
  "trace_props run_id cid tp =
     [(''correlationId'', cid), (''runId'', run_id)] @ (if tp \<noteq> [] then [(''traceparent'', JStr tp)] else [])"

lemma answer_run_sent:
  assumes "answer_run env run_id cid tp s = (s', Inr ())"
  shows "\<exists>r fail arts. fs_sent s' = fs_sent s @ [r] \<and> fe_body r = JObj (result_body env run_id cid fail arts) \<and>
    fe_props r = trace_props run_id cid tp \<and> (arts = JNull \<or> (\<exists>url. arts = artifacts_of url))"
proof -
  from assms obtain ns account where e: "environ env ''SB_NAMESPACE'' = Inr ns" "environ env ''BLOB_ACCOUNT'' = Inr account"
    by (auto simp: answer_run_def Let_def split: sum.splits)
  let ?q = "env_text env ''SB_RESULTS_QUEUE'' ''engine-results''"
    and ?c = "env_text env ''FAKE_ARTIFACT_CONTAINER'' ''batch-results''"
  show ?thesis
  proof (cases "fk_random env 2 < env_float env ''FAKE_FAILURE_RATE'' 0")
    case True
    with assms e have "send_result env ns ?q (result_body env run_id cid True JNull) cid (trace_props run_id cid tp) s = (s', Inr ())"
      by (simp add: answer_run_def trace_props_def)
    from send_result_sent[OF this] show ?thesis by blast
  next
    case False
    obtain s1 w where w: "write_output_artifact env account ?c run_id (build_output env run_id) s = (s1, w)" by (metis surj_pair)
    with assms e False obtain url where url: "w = Inr url"
      "send_result env ns ?q (result_body env run_id cid False (artifacts_of url)) cid (trace_props run_id cid tp) s1 = (s', Inr ())"
      by (cases w) (simp_all add: answer_run_def trace_props_def)
    from send_result_sent[OF url(2)] write_output_artifact_sent[OF w] show ?thesis by force
  qed
qed

end
