(* ===== verification/Dispatch.thy ===== *)
theory Dispatch
  imports Orchestrator Intake
begin

text \<open>
  The activities that stage the prompt and dispatch one run
  (\<^verbatim>\<open>prepare_prompt_blob\<close>, \<^verbatim>\<open>dispatch_run\<close>,
  \<^verbatim>\<open>_verify_input_blob_sha256\<close> and the blob and Service Bus helpers of
  \<^verbatim>\<open>orchestrator/functions/fanout/__init__.py\<close>). Their state is the blob container
  and the messages sent to the queue; an activity that raises keeps what it wrote before.
\<close>

subsection \<open>State and environment\<close>

record sent_message =
  sm_namespace :: string
  sm_queue :: string
  sm_body :: json
  sm_message_id :: string
  sm_correlation_id :: string
  sm_props :: "(string \<times> string) list"

record platform =
  pl_blobs :: blobs
  pl_sent :: "sent_message list"

text \<open>
  \<open>de_net\<close> is the network to the container; \<open>de_chunks\<close> downloads a blob in chunks, \<open>de_sha256\<close> is the hex digest of the bytes,
  \<open>de_send\<close> the answer of the queue to one message, \<open>de_url\<close> the URL the blob client
  reports.
\<close>

record dispatch_env =
  de_container :: string
  de_net :: network
  de_namespace :: string
  de_queue :: string
  de_chunks :: "string \<Rightarrow> string list result"
  de_sha256 :: "string \<Rightarrow> string"
  de_send :: "sent_message \<Rightarrow> unit result"
  de_url :: "blob_key \<Rightarrow> string"

definition starts_with :: "string \<Rightarrow> string \<Rightarrow> bool" where
  "starts_with prefix s \<longleftrightarrow> take (length prefix) s = prefix"

definition has_suffix :: "string \<Rightarrow> string \<Rightarrow> bool" where
  "has_suffix suffix s \<longleftrightarrow> drop (length s - length suffix) s = suffix"

definition blob_account_url :: "string \<Rightarrow> string" where
  "blob_account_url account =
     (if starts_with ''https://'' account then account
      else ''https://'' @ account @ ''.blob.core.windows.net'')"

definition service_bus_host :: "string \<Rightarrow> string" where
  "service_bus_host ns =
     (if has_suffix ''.servicebus.windows.net'' ns then ns else ns @ ''.servicebus.windows.net'')"

subsection \<open>The activities\<close>

definition verify_input_blob_sha256 :: "dispatch_env \<Rightarrow> string \<Rightarrow> string \<Rightarrow> unit result" where
  "verify_input_blob_sha256 env uri expected =
     (if expected = [] then Inr ()
      else (case de_chunks env uri of
          Inl e \<Rightarrow> Inl (RuntimeError (''failed to verify input blob sha256 for '' @ uri))
        | Inr chunks \<Rightarrow>
            (if lower (de_sha256 env (concat chunks)) \<noteq> lower expected
             then Inl (ValueError (''sha256 mismatch for '' @ uri)) else Inr ())))"

definition prepare_prompt_blob :: "dispatch_env \<Rightarrow> string \<Rightarrow> string \<Rightarrow> platform \<Rightarrow> platform \<times> string result" where
  "prepare_prompt_blob env batch_id text w =
     (let k = (de_container env, batch_prompt_path batch_id)
      in case put_blob (de_net env) k text True (pl_blobs w) of
           (s, r) \<Rightarrow> (w\<lparr>pl_blobs := s\<rparr>, map_sum id (\<lambda>_. de_url env k) r))"

definition run_index_entry :: "dispatch_input \<Rightarrow> string \<Rightarrow> json" where
  "run_index_entry inp now =
     JObj [(''batchId'', JStr (di_batch_id inp)), (''jobId'', JStr (di_job_id inp)),
           (''runId'', JStr (di_run_id inp)), (''applicationId'', JStr (di_application_id inp)),
           (''documentId'', JStr (di_document_id inp)), (''runIndex'', JInt (int (di_run_index inp))),
           (''dispatchedAt'', JStr now)]"

definition build_run_message :: "dispatch_input \<Rightarrow> string \<Rightarrow> string \<Rightarrow> string \<Rightarrow> run_message" where
  "build_run_message inp cid msg_id now =
     \<lparr>msg_message_id = msg_id, msg_run_id = di_run_id inp, msg_engine = ''awreason'',
      msg_cv_blob_uris = [di_blob_uri inp], msg_prompt_blob_uri = Some (di_prompt_blob_uri inp),
      msg_correlation_id = str_or cid (di_batch_id inp), msg_enqueued_at = now\<rparr>"

definition send_run_message :: "dispatch_env \<Rightarrow> sent_message \<Rightarrow> platform \<Rightarrow> platform \<times> unit result" where
  "send_run_message env sm w =
     (case de_send env sm of
        Inl e \<Rightarrow> (w, Inl e)
      | Inr _ \<Rightarrow> (w\<lparr>pl_sent := pl_sent w @ [sm]\<rparr>, Inr ()))"

definition sent_of :: "dispatch_env \<Rightarrow> dispatch_input \<Rightarrow> run_message \<Rightarrow> string \<Rightarrow> sent_message" where
  "sent_of env inp m tp =
     \<lparr>sm_namespace = service_bus_host (de_namespace env), sm_queue = de_queue env,
      sm_body = dump_run_message m, sm_message_id = msg_message_id m,
      sm_correlation_id = msg_correlation_id m,
      sm_props = [(''correlationId'', msg_correlation_id m), (''runId'', di_run_id inp)] @
        (if tp \<noteq> [] then [(''traceparent'', tp)] else [])\<rparr>"

text \<open>
  \<open>now\<close> and \<open>msg_id\<close> are the clock and \<^verbatim>\<open>uuid4\<close>; \<^verbatim>\<open>DispatchRunInput\<close>
  wants strings for the correlation id and the traceparent.
\<close>

definition dispatch_run ::
  "dispatch_env \<Rightarrow> string \<Rightarrow> string \<Rightarrow> dispatch_input \<Rightarrow> platform \<Rightarrow> platform \<times> string result" where
  "dispatch_run env now msg_id inp w =
     (case (di_correlation_id inp, di_traceparent inp) of
        (JStr cid, JStr tp) \<Rightarrow>
          (case verify_input_blob_sha256 env (di_blob_uri inp) (di_sha256 inp) of
             Inl e \<Rightarrow> (w, Inl e)
           | Inr _ \<Rightarrow>
               (case put_blob (de_net env) (de_container env, run_index_path (di_run_id inp))
                       (json_dumps (run_index_entry inp now)) True (pl_blobs w) of
                  (s, Inl e) \<Rightarrow> (w\<lparr>pl_blobs := s\<rparr>, Inl e)
                | (s, Inr _) \<Rightarrow>
                    (let m = build_run_message inp cid msg_id now;
                         (w', r) = send_run_message env (sent_of env inp m tp) (w\<lparr>pl_blobs := s\<rparr>)
                     in (w', map_sum id (\<lambda>_. di_run_id inp) r))))
      | _ \<Rightarrow> (w, Inl ValidationError))"

subsection \<open>Laws\<close>

lemma run_index_entry_read [simp]: "ie_loads ienv (json_dumps (run_index_entry inp now)) = Some (run_index_entry inp now)"
  by (simp add: ie_loads_def run_index_entry_def)

lemma lookup_run_index:
  assumes "ie_account ienv \<noteq> []" and "s (ie_container ienv, run_index_path x) = Some (json_dumps (run_index_entry inp now))"
    and "ie_net ienv (ie_container ienv, run_index_path x) = Answered"
  shows "lookup_batch_id ienv x s = Inr (JStr (di_batch_id inp))"
proof -
  obtain d where d: "run_index_entry inp now = JObj d" "dget d ''batchId'' = JStr (di_batch_id inp)"
    by (simp add: run_index_entry_def)
  with run_index_entry_read[of ienv inp now] assms show ?thesis
    by (simp add: lookup_batch_id_def download_blob_def)
qed

lemma service_bus_host_idem: "service_bus_host (service_bus_host ns) = service_bus_host ns"
proof -
  have "has_suffix ''.servicebus.windows.net'' (ns @ ''.servicebus.windows.net'')"
    by (simp add: has_suffix_def)
  then show ?thesis by (simp add: service_bus_host_def)
qed

lemma blob_account_url_idem: "blob_account_url (blob_account_url a) = blob_account_url a"
  by (simp add: blob_account_url_def starts_with_def)

text \<open>The three ways one dispatch can end.\<close>

lemma dispatch_run_cases:
  obtains (invalid) e where "dispatch_run env now mid inp w = (w, Inl e)"
      "e = ValidationError \<or> e = TransportError \<or> verify_input_blob_sha256 env (di_blob_uri inp) (di_sha256 inp) = Inl e"
  | (unsent) e s' where "dispatch_run env now mid inp w = (w\<lparr>pl_blobs := s'\<rparr>, Inl e)"
      "verify_input_blob_sha256 env (di_blob_uri inp) (di_sha256 inp) = Inr ()"
      "s' = (pl_blobs w)((de_container env, run_index_path (di_run_id inp)) \<mapsto> json_dumps (run_index_entry inp now))"
  | (sent) s' m tp where "dispatch_run env now mid inp w = (w\<lparr>pl_blobs := s', pl_sent := pl_sent w @ [sent_of env inp m tp]\<rparr>, Inr (di_run_id inp))"
      "verify_input_blob_sha256 env (di_blob_uri inp) (di_sha256 inp) = Inr ()"
      "s' = (pl_blobs w)((de_container env, run_index_path (di_run_id inp)) \<mapsto> json_dumps (run_index_entry inp now))"
      "msg_run_id m = di_run_id inp"
proof (cases "\<exists>cid tp. di_correlation_id inp = JStr cid \<and> di_traceparent inp = JStr tp")
  case False
  then have "dispatch_run env now mid inp w = (w, Inl ValidationError)"
    by (cases "di_correlation_id inp"; cases "di_traceparent inp") (simp_all add: dispatch_run_def)
  then show thesis by (rule invalid) simp
next
  case True
  then obtain cid tp where ct: "di_correlation_id inp = JStr cid" "di_traceparent inp = JStr tp" by blast
  show thesis
  proof (cases "verify_input_blob_sha256 env (di_blob_uri inp) (di_sha256 inp)")
    case (Inl e)
    then have "dispatch_run env now mid inp w = (w, Inl e)" by (simp add: dispatch_run_def ct)
    then show thesis by (rule invalid) (simp add: Inl)
  next
    case ok: (Inr u)
    let ?k = "(de_container env, run_index_path (di_run_id inp))" and ?entry = "json_dumps (run_index_entry inp now)"
    define s' where "s' = (pl_blobs w)(?k \<mapsto> ?entry)"
    define m where "m = build_run_message inp cid mid now"
    have d: "dispatch_run env now mid inp w =
        (case put_blob (de_net env) ?k ?entry True (pl_blobs w) of
           (s, Inl e) \<Rightarrow> (w\<lparr>pl_blobs := s\<rparr>, Inl e)
         | (s, Inr _) \<Rightarrow> (let (w', r) = send_run_message env (sent_of env inp m tp) (w\<lparr>pl_blobs := s\<rparr>)
             in (w', map_sum id (\<lambda>_. di_run_id inp) r)))"
      unfolding m_def Let_def by (simp add: dispatch_run_def ct ok Let_def)
    show thesis
    proof (cases rule: put_cases[of "de_net env" ?k ?entry "pl_blobs w"])
      case lost
      with d show thesis by (intro invalid[of TransportError]) simp_all
    next
      case unanswered
      with d show thesis by (intro unsent[of s' TransportError]) (simp_all add: ok s'_def)
    next
      case written
      show thesis
      proof (cases "de_send env (sent_of env inp m tp)")
        case (Inl e)
        with d written show thesis by (intro unsent[of s' e]) (simp_all add: send_run_message_def ok s'_def)
      next
        case (Inr u')
        with d written show thesis
          by (intro sent[of m tp s']) (simp_all add: send_run_message_def ok s'_def m_def build_run_message_def)
      qed
    qed
  qed
qed

lemma dispatch_run_sent:
  assumes "dispatch_run env now mid inp w = (w', Inr x)"
  obtains cid tp where "di_correlation_id inp = JStr cid" "di_traceparent inp = JStr tp"
    "w' = w\<lparr>pl_blobs := (pl_blobs w)((de_container env, run_index_path (di_run_id inp)) \<mapsto> json_dumps (run_index_entry inp now)),
           pl_sent := pl_sent w @ [sent_of env inp (build_run_message inp cid mid now) tp]\<rparr>"
proof -
  from assms obtain cid tp where ct: "di_correlation_id inp = JStr cid" "di_traceparent inp = JStr tp"
    by (cases "di_correlation_id inp"; cases "di_traceparent inp") (simp_all add: dispatch_run_def)
  moreover from assms have "w' = w\<lparr>pl_blobs := (pl_blobs w)((de_container env, run_index_path (di_run_id inp)) \<mapsto> json_dumps (run_index_entry inp now)),
           pl_sent := pl_sent w @ [sent_of env inp (build_run_message inp cid mid now) tp]\<rparr>"
    by (cases rule: put_cases[of "de_net env" "(de_container env, run_index_path (di_run_id inp))" "json_dumps (run_index_entry inp now)" "pl_blobs w"])
       (auto simp: dispatch_run_def ct Let_def send_run_message_def split: sum.splits)
  ultimately show thesis by (rule that)
qed

subsection \<open>What was sent can be looked up\<close>

text \<open>A dispatch of the activity: the network it meets, its input, the clock and the message id.\<close>

type_synonym dispatch_call = "network \<times> dispatch_input \<times> string \<times> string"

definition run_dispatches :: "dispatch_env \<Rightarrow> dispatch_call list \<Rightarrow> platform \<Rightarrow> platform" where
  "run_dispatches env calls w = fold (\<lambda>(net, inp, now, mid) w. fst (dispatch_run (env\<lparr>de_net := net\<rparr>) now mid inp w)) calls w"

definition sent_run_id :: "sent_message \<Rightarrow> string option" where
  "sent_run_id sm = map_of (sm_props sm) ''runId''"

definition indexed :: "dispatch_env \<Rightarrow> dispatch_call list \<Rightarrow> platform \<Rightarrow> bool" where
  "indexed env calls w \<longleftrightarrow>
     (\<forall>sm \<in> set (pl_sent w). \<exists>(net, inp, now, mid) \<in> set calls.
        sent_run_id sm = Some (di_run_id inp) \<and>
        verify_input_blob_sha256 env (di_blob_uri inp) (di_sha256 inp) = Inr () \<and>
        pl_blobs w (de_container env, run_index_path (di_run_id inp)) = Some (json_dumps (run_index_entry inp now)))"

lemma sent_run_id_of [simp]: "sent_run_id (sent_of env inp m tp) = Some (di_run_id inp)"
  by (simp add: sent_run_id_def sent_of_def)

lemma verify_net [simp]: "verify_input_blob_sha256 (env\<lparr>de_net := net\<rparr>) = verify_input_blob_sha256 env"
proof -
  have "de_chunks (env\<lparr>de_net := net\<rparr>) = de_chunks env" "de_sha256 (env\<lparr>de_net := net\<rparr>) = de_sha256 env" by simp_all
  then show ?thesis by (intro ext) (unfold verify_input_blob_sha256_def, simp only:)
qed

lemma indexed_step:
  assumes ix: "indexed env calls w" and call: "(net, inp, now, mid) \<in> set calls'" and sub: "set calls \<subseteq> set calls'"
  shows "indexed env calls' (fst (dispatch_run (env\<lparr>de_net := net\<rparr>) now mid inp w))"
proof -
  let ?key = "(de_container env, run_index_path (di_run_id inp))" and ?entry = "json_dumps (run_index_entry inp now)"
  have old: "\<exists>(net', inp', now', mid') \<in> set calls'. sent_run_id sm = Some (di_run_id inp') \<and>
        verify_input_blob_sha256 env (di_blob_uri inp') (di_sha256 inp') = Inr () \<and>
        ((pl_blobs w)(?key \<mapsto> ?entry)) (de_container env, run_index_path (di_run_id inp')) =
          Some (json_dumps (run_index_entry inp' now'))"
    if v: "verify_input_blob_sha256 env (di_blob_uri inp) (di_sha256 inp) = Inr ()" and sm: "sm \<in> set (pl_sent w)" for sm
  proof (cases "sent_run_id sm = Some (di_run_id inp)")
    case True
    with v call show ?thesis by (intro bexI[of _ "(net, inp, now, mid)"]) simp_all
  next
    case False
    from ix sm obtain e where e: "e \<in> set calls" "case e of (net', inp', now', mid') \<Rightarrow>
        sent_run_id sm = Some (di_run_id inp') \<and>
        verify_input_blob_sha256 env (di_blob_uri inp') (di_sha256 inp') = Inr () \<and>
        pl_blobs w (de_container env, run_index_path (di_run_id inp')) = Some (json_dumps (run_index_entry inp' now'))"
      unfolding indexed_def by blast
    with False sub show ?thesis by (intro bexI[of _ e]) (auto split: prod.splits)
  qed
  show ?thesis
  proof (cases rule: dispatch_run_cases[of "env\<lparr>de_net := net\<rparr>" now mid inp w])
    case (invalid e)
    with ix sub show ?thesis unfolding indexed_def by (simp add: subset_iff) blast
  next
    case (unsent e s')
    with old show ?thesis unfolding indexed_def by simp
  next
    case (sent s' m tp)
    have "\<exists>(net', inp', now', mid') \<in> set calls'. sent_run_id (sent_of (env\<lparr>de_net := net\<rparr>) inp m tp) = Some (di_run_id inp') \<and>
        verify_input_blob_sha256 env (di_blob_uri inp') (di_sha256 inp') = Inr () \<and>
        s' (de_container env, run_index_path (di_run_id inp')) = Some (json_dumps (run_index_entry inp' now'))"
      using call sent by (intro bexI[of _ "(net, inp, now, mid)"]) simp_all
    with old sent show ?thesis unfolding indexed_def by simp
  qed
qed

lemma run_dispatches_indexed:
  assumes "indexed env before w" and "set before \<subseteq> set all" and "set calls \<subseteq> set all"
  shows "indexed env all (run_dispatches env calls w)"
  using assms
proof (induction calls arbitrary: w before)
  case Nil
  then show ?case unfolding run_dispatches_def indexed_def by (simp add: subset_iff) blast
next
  case (Cons c calls)
  obtain net inp now mid where c: "c = (net, inp, now, mid)" by (cases c)
  have "indexed env all (fst (dispatch_run (env\<lparr>de_net := net\<rparr>) now mid inp w))"
    using indexed_step[OF Cons.prems(1), of net inp now mid all] Cons.prems(2,3) c by simp
  from Cons.IH[OF this subset_refl] Cons.prems(3) show ?case by (simp add: run_dispatches_def c)
qed

end
