(* ===== verification/DispatchProperties.thy ===== *)
theory DispatchProperties
  imports Dispatch
begin

text \<open>The properties of the dispatch activities.\<close>

definition demo_dispatch_env :: dispatch_env where
  "demo_dispatch_env = \<lparr>de_container = ''batch-results'', de_net = reliable, de_namespace = ''ns'', de_queue = ''engine-runs'',
     de_chunks = (\<lambda>u. Inr [''ab'', ''c'']), de_sha256 = (\<lambda>b. if b = ''abc'' then ''F00D'' else ''0''),
     de_send = (\<lambda>m. Inr ()), de_url = snd\<rparr>"

definition demo_dispatch_input :: "string \<Rightarrow> dispatch_input" where
  "demo_dispatch_input sha = \<lparr>di_batch_id = ''b1'', di_job_id = ''j'', di_run_id = ''r1'', di_application_id = ''a'',
     di_document_id = ''d'', di_file_name = ''f'', di_mime_type = ''m'', di_blob_uri = ''u'', di_sha256 = sha,
     di_run_index = 0, di_prompt_blob_uri = ''p'', di_correlation_id = JStr ''c'', di_traceparent = JStr []\<rparr>"

definition demo_platform :: platform where
  "demo_platform = \<lparr>pl_blobs = Map.empty, pl_sent = []\<rparr>"

text \<open>What the client declared of the document: its SHA-256 up to case, or nothing.\<close>

definition document_ok :: "dispatch_env \<Rightarrow> dispatch_input \<Rightarrow> bool" where
  "document_ok env inp \<longleftrightarrow>
     di_sha256 inp = [] \<or>
     (case de_chunks env (di_blob_uri inp) of
        Inl e \<Rightarrow> False
      | Inr chunks \<Rightarrow> lower (de_sha256 env (concat chunks)) = lower (di_sha256 inp))"

lemma verified_document: "verify_input_blob_sha256 env (di_blob_uri inp) (di_sha256 inp) = Inr () \<longleftrightarrow> document_ok env inp"
  by (auto simp: verify_input_blob_sha256_def document_ok_def split: sum.splits)

lemma dispatch_verified_run:
  assumes "document_ok env inp" and "di_correlation_id inp = JStr cid" and "di_traceparent inp = JStr tp"
    and "de_net env (de_container env, run_index_path (di_run_id inp)) = Answered"
  shows "dispatch_run env now mid inp w =
    (let w1 = w\<lparr>pl_blobs := (pl_blobs w)((de_container env, run_index_path (di_run_id inp)) \<mapsto> json_dumps (run_index_entry inp now))\<rparr>;
         sm = sent_of env inp (build_run_message inp cid mid now) tp
     in case de_send env sm of
          Inl e \<Rightarrow> (w1, Inl e) | Inr _ \<Rightarrow> (w1\<lparr>pl_sent := pl_sent w @ [sm]\<rparr>, Inr (di_run_id inp)))"
  using verified_document[of env inp] assms by (simp add: dispatch_run_def send_run_message_def Let_def split: sum.split)

text \<open>C24: a run is dispatched for the document the client named and for no other: when a
  checksum is given and the blob cannot be read or its SHA-256 is another one up to case, the
  activity raises and neither writes a blob nor sends a message. Otherwise (the checksum matches,
  or none was given and nothing is read), with trace strings and the index blob taken by the
  container, one message is given to the queue that names the run, the document and the prompt,
  after the index blob was written; the activity returns the run id when the queue takes it, and
  raises with the index in place when it does not.\<close>

theorem dispatch_only_verified:
  "(\<not> document_ok env inp \<longrightarrow> (\<exists>e. dispatch_run env now mid inp w = (w, Inl e))) \<and>
   (document_ok env inp \<and> di_correlation_id inp = JStr cid \<and> di_traceparent inp = JStr tp \<and>
    de_net env (de_container env, run_index_path (di_run_id inp)) = Answered \<longrightarrow>
      (\<exists>sm d ps. sm_queue sm = de_queue env \<and> sm_message_id sm = mid \<and> sent_run_id sm = Some (di_run_id inp) \<and>
         sm_body sm = JObj d \<and> dget d ''run_id'' = JStr (di_run_id inp) \<and> dget d ''parameters'' = JObj ps \<and>
         dget ps ''cv_blob_uris'' = JList [JStr (di_blob_uri inp)] \<and> dget ps ''prompt_blob_uri'' = JStr (di_prompt_blob_uri inp) \<and>
         dispatch_run env now mid inp w =
         (let w1 = w\<lparr>pl_blobs := (pl_blobs w)((de_container env, run_index_path (di_run_id inp)) \<mapsto> json_dumps (run_index_entry inp now))\<rparr>
          in (case de_send env sm of
               Inl e \<Rightarrow> (w1, Inl e) | Inr _ \<Rightarrow> (w1\<lparr>pl_sent := pl_sent w @ [sm]\<rparr>, Inr (di_run_id inp))))))"
proof (intro conjI impI)
  assume "\<not> document_ok env inp"
  then have "verify_input_blob_sha256 env (di_blob_uri inp) (di_sha256 inp) \<noteq> Inr ()" using verified_document by blast
  then show "\<exists>e. dispatch_run env now mid inp w = (w, Inl e)"
    by (cases rule: dispatch_run_cases[of env now mid inp w]) auto
next
  let ?sm = "sent_of env inp (build_run_message inp cid mid now) tp"
  assume "document_ok env inp \<and> di_correlation_id inp = JStr cid \<and> di_traceparent inp = JStr tp \<and>
    de_net env (de_container env, run_index_path (di_run_id inp)) = Answered"
  then have run: "dispatch_run env now mid inp w =
    (let w1 = w\<lparr>pl_blobs := (pl_blobs w)((de_container env, run_index_path (di_run_id inp)) \<mapsto> json_dumps (run_index_entry inp now))\<rparr>
     in case de_send env ?sm of
          Inl e \<Rightarrow> (w1, Inl e) | Inr _ \<Rightarrow> (w1\<lparr>pl_sent := pl_sent w @ [?sm]\<rparr>, Inr (di_run_id inp)))"
    by (simp add: dispatch_verified_run Let_def)
  obtain d ps where body: "sm_body ?sm = JObj d" "dget d ''run_id'' = JStr (di_run_id inp)" "dget d ''parameters'' = JObj ps"
    "dget ps ''cv_blob_uris'' = JList [JStr (di_blob_uri inp)]" "dget ps ''prompt_blob_uri'' = JStr (di_prompt_blob_uri inp)"
    by (simp add: sent_of_def dump_run_message_def build_run_message_def)
  have "sm_queue ?sm = de_queue env" "sm_message_id ?sm = mid"
    by (simp_all add: sent_of_def build_run_message_def)
  note msg = this sent_run_id_of[of env inp "build_run_message inp cid mid now" tp] body run
  show "\<exists>sm d ps. sm_queue sm = de_queue env \<and> sm_message_id sm = mid \<and> sent_run_id sm = Some (di_run_id inp) \<and>
         sm_body sm = JObj d \<and> dget d ''run_id'' = JStr (di_run_id inp) \<and> dget d ''parameters'' = JObj ps \<and>
         dget ps ''cv_blob_uris'' = JList [JStr (di_blob_uri inp)] \<and> dget ps ''prompt_blob_uri'' = JStr (di_prompt_blob_uri inp) \<and>
         dispatch_run env now mid inp w =
         (let w1 = w\<lparr>pl_blobs := (pl_blobs w)((de_container env, run_index_path (di_run_id inp)) \<mapsto> json_dumps (run_index_entry inp now))\<rparr>
          in (case de_send env sm of
               Inl e \<Rightarrow> (w1, Inl e) | Inr _ \<Rightarrow> (w1\<lparr>pl_sent := pl_sent w @ [sm]\<rparr>, Inr (di_run_id inp))))"
    by (rule exI[of _ ?sm], rule exI[of _ d], rule exI[of _ ps], intro conjI) (rule msg)+
qed

theorem dispatch_only_verified_witness:
  "(\<exists>w' sm. dispatch_run demo_dispatch_env ''t'' ''m1'' (demo_dispatch_input ''f00d'') demo_platform = (w', Inr ''r1'') \<and>
     pl_sent w' = [sm] \<and> sent_run_id sm = Some ''r1'') \<and>
   (\<exists>e. dispatch_run demo_dispatch_env ''t'' ''m1'' (demo_dispatch_input ''beef'') demo_platform = (demo_platform, Inl e))"
proof -
  have "lower ''F00D'' = lower ''f00d''" "lower ''F00D'' \<noteq> lower ''beef''" by code_simp+
  then have ok: "document_ok demo_dispatch_env (demo_dispatch_input ''f00d'')" "\<not> document_ok demo_dispatch_env (demo_dispatch_input ''beef'')"
    by (simp_all add: document_ok_def demo_dispatch_env_def demo_dispatch_input_def)
  have inp: "di_correlation_id (demo_dispatch_input x) = JStr ''c''" "di_traceparent (demo_dispatch_input x) = JStr []"
    "di_run_id (demo_dispatch_input x) = ''r1''" for x by (simp_all add: demo_dispatch_input_def)
  have env: "de_net demo_dispatch_env k = Answered" "de_send demo_dispatch_env m = Inr ()" for k m
    by (simp_all add: demo_dispatch_env_def)
  have none: "pl_sent demo_platform = []" by (simp add: demo_platform_def)
  from dispatch_only_verified[of demo_dispatch_env "demo_dispatch_input ''f00d''" "''t''" "''m1''" demo_platform "''c''" "[]"]
  obtain sm where "sent_run_id sm = Some ''r1''"
    "dispatch_run demo_dispatch_env ''t'' ''m1'' (demo_dispatch_input ''f00d'') demo_platform =
      (demo_platform\<lparr>pl_blobs := (pl_blobs demo_platform)((de_container demo_dispatch_env, run_index_path ''r1'') \<mapsto>
          json_dumps (run_index_entry (demo_dispatch_input ''f00d'') ''t'')), pl_sent := [sm]\<rparr>, Inr ''r1'')"
    by (auto simp: ok inp env none Let_def)
  then show ?thesis
    using dispatch_only_verified[of demo_dispatch_env "demo_dispatch_input ''beef''" "''t''" "''m1''" demo_platform "''c''" "[]"] ok(2)
    by simp
qed

text \<open>C25: every run whose message reached the queue can be routed back: after any sequence of
  dispatches, retries and failures included, each with a network that may lose its call or the
  answer, the result intake looks the run of each sent
  message up and finds the batch it was dispatched for. The index is written before the message
  is sent, and reads back as it was printed.\<close>

theorem sent_runs_are_routable:
  assumes "ie_account ienv \<noteq> []" and "ie_container ienv = de_container env"
    and net: "\<And>x. ie_net ienv (ie_container ienv, run_index_path x) = Answered"
    and "sm \<in> set (pl_sent (run_dispatches env calls \<lparr>pl_blobs = s, pl_sent = []\<rparr>))"
  shows "\<exists>(net, inp, now, mid) \<in> set calls. sent_run_id sm = Some (di_run_id inp) \<and>
    lookup_batch_id ienv (di_run_id inp) (pl_blobs (run_dispatches env calls \<lparr>pl_blobs = s, pl_sent = []\<rparr>)) =
      Inr (JStr (di_batch_id inp))"
proof -
  let ?w = "run_dispatches env calls \<lparr>pl_blobs = s, pl_sent = []\<rparr>"
  have "indexed env [] \<lparr>pl_blobs = s, pl_sent = []\<rparr>" by (simp add: indexed_def)
  then have "indexed env calls ?w" by (rule run_dispatches_indexed) simp_all
  with assms(4) obtain dnet inp now mid where call: "(dnet, inp, now, mid) \<in> set calls"
    and "sent_run_id sm = Some (di_run_id inp)"
    and "pl_blobs ?w (de_container env, run_index_path (di_run_id inp)) = Some (json_dumps (run_index_entry inp now))"
    unfolding indexed_def by fastforce
  then have "lookup_batch_id ienv (di_run_id inp) (pl_blobs ?w) = Inr (JStr (di_batch_id inp))"
    using assms(1,2) net lookup_run_index[of ienv] by metis
  with call \<open>sent_run_id sm = Some (di_run_id inp)\<close> show ?thesis by (intro bexI[of _ "(dnet, inp, now, mid)"]) simp_all
qed

theorem sent_runs_are_routable_witness:
  "lookup_batch_id \<lparr>ie_account = ''acct'', ie_container = ''batch-results'', ie_net = reliable, ie_decode = Some, ie_decode_ignore = (\<lambda>s. s),
      ie_float = (\<lambda>t. None), ie_raise = (\<lambda>ev. Inr ()), ie_explain = (\<lambda>d. [])\<rparr> ''r1''
    (pl_blobs (run_dispatches demo_dispatch_env [(reliable, demo_dispatch_input [], ''t'', ''m1''), ((\<lambda>k. ReplyLost), demo_dispatch_input [], ''t2'', ''m2'')] demo_platform)) = Inr (JStr ''b1'')"
proof -
  let ?ienv = "\<lparr>ie_account = ''acct'', ie_container = ''batch-results'', ie_net = reliable, ie_decode = Some, ie_decode_ignore = (\<lambda>s. s),
      ie_float = (\<lambda>t. None), ie_raise = (\<lambda>ev. Inr ()), ie_explain = (\<lambda>d. [])\<rparr>"
  let ?calls = "[(reliable, demo_dispatch_input [], ''t'', ''m1''), ((\<lambda>k. ReplyLost), demo_dispatch_input [], ''t2'', ''m2'')]"
  have verified: "verify_input_blob_sha256 demo_dispatch_env ''u'' [] = Inr ()" by (simp add: verify_input_blob_sha256_def)
  have "pl_sent (run_dispatches demo_dispatch_env ?calls demo_platform) \<noteq> []"
    by (simp add: run_dispatches_def dispatch_run_def demo_dispatch_input_def verified
        send_run_message_def Let_def)
      (simp add: demo_dispatch_env_def put_blob_def upload_blob_def)
  then obtain sm where "sm \<in> set (pl_sent (run_dispatches demo_dispatch_env ?calls \<lparr>pl_blobs = Map.empty, pl_sent = []\<rparr>))"
    unfolding demo_platform_def by (cases "pl_sent (run_dispatches demo_dispatch_env ?calls \<lparr>pl_blobs = Map.empty, pl_sent = []\<rparr>)") auto
  from sent_runs_are_routable[of ?ienv demo_dispatch_env _ ?calls, OF _ _ _ this] show ?thesis
    by (simp add: demo_dispatch_env_def demo_dispatch_input_def demo_platform_def)
qed

end
