(* ===== verification/EngineLoop.thy ===== *)
theory EngineLoop
  imports FakeEngine DispatchProperties IntakeLaws
begin

text \<open>
  The loop over the two queues: a dispatched run, the fake engine's answer to its message, and
  the result intake. The engine is the platform's own stand-in, so every step is code of the
  repository; what is assumed is that a model's JSON text reads back and that UTF-8 carries ASCII.
\<close>

definition wire_props :: "(string \<times> string) list \<Rightarrow> props" where
  "wire_props ps = map (\<lambda>(k, v). (StrKey k, Value (JStr v))) ps"

definition result_props :: "dict \<Rightarrow> props" where
  "result_props d = map (\<lambda>(k, v). (StrKey k, Value v)) d"

lemma result_body_accepted:
  assumes "arts = JNull \<or> (\<exists>url. arts = artifacts_of url)"
  shows "normalize_dict (result_body env (JStr r) (JStr c) fail arts) = result_body env (JStr r) (JStr c) fail arts"
    and "\<exists>m. validate_run_result (result_body env (JStr r) (JStr c) fail arts) = Inr m \<and>
      rm_run_id m = r \<and> rm_correlation_id m = c \<and> rm_status m = (if fail then ''Failed'' else ''Succeeded'')"
proof -
  show "normalize_dict (result_body env (JStr r) (JStr c) fail arts) = result_body env (JStr r) (JStr c) fail arts"
    unfolding normalize_dict_def by (rule fold_alias_id) (simp add: aliases_def result_body_def)
  show "\<exists>m. validate_run_result (result_body env (JStr r) (JStr c) fail arts) = Inr m \<and>
      rm_run_id m = r \<and> rm_correlation_id m = c \<and> rm_status m = (if fail then ''Failed'' else ''Succeeded'')"
    using assms
    by (auto simp: validate_run_result_def result_body_def req_str_def req_int_def opt_str_def opt_artifacts_def
        artifacts_of_def opt_int_def)
qed

lemma result_body_read:
  assumes "arts = JNull \<or> (\<exists>url. arts = artifacts_of url)"
  shows "json_loads pf (json_dumps (JObj (result_body env (JStr r) (JStr c) fail arts))) =
    Some (JObj (result_body env (JStr r) (JStr c) fail arts))"
  using assms by (intro json_roundtrip) (auto simp: result_body_def artifacts_of_def)

lemma fake_answers_run:
  assumes "fake_engine_run env text (wire_props ps) s = (s', Inr ())" and "fk_decode env text = Some text'"
    and "fk_loads env text' = Some (dump_run_message m)" and "msg_run_id m \<noteq> []"
  shows "\<exists>r fail arts tp. fs_sent s' = fs_sent s @ [r] \<and>
    fe_body r = JObj (result_body env (JStr (msg_run_id m)) (JStr (msg_correlation_id m)) fail arts) \<and>
    (arts = JNull \<or> (\<exists>url. arts = artifacts_of url)) \<and>
    fe_props r = trace_props (JStr (msg_run_id m)) (JStr (msg_correlation_id m)) tp"
proof -
  have "py_or (JStr (msg_correlation_id m)) (JStr []) = JStr (msg_correlation_id m)"
    by (simp add: py_or_def)
  with assms obtain tp where
    "answer_run env (JStr (msg_run_id m)) (JStr (msg_correlation_id m)) tp s = (s', Inr ())"
    by (auto simp: fake_engine_run_def dump_run_message_def Let_def split: if_splits)
  from answer_run_sent[OF this] show ?thesis by blast
qed

text \<open>C40: the answer to a dispatched run finds its batch: the engine's result to the message
  of a dispatched run, succeeded or failed, is accepted by the result intake as it is, is claimed
  for that run, and raises exactly one event, on the batch that dispatched it, under the name the
  orchestrator waits for, with the run's id, its correlation id and a final status.\<close>

theorem engine_answer_reaches_batch:
  assumes "dispatch_run denv now mid inp w = (w', Inr x)" and "di_run_id inp \<noteq> []"
    and "fk_decode fenv text = Some text'" and "fk_loads fenv text' = Some (sm_body (last (pl_sent w')))"
    and "fake_engine_run fenv text (wire_props (sm_props (last (pl_sent w')))) fs = (fs', Inr ())"
    and "rtext = json_dumps (fe_body (last (fs_sent fs')))" and "ie_decode ienv rtext = Some rtext"
    and "ie_account ienv \<noteq> []" and "ie_container ienv = de_container denv"
    and "\<forall>ev. ie_raise ienv ev = Inr ()"
    and "h_blobs host = pl_blobs w'" and "\<not> marker_there ienv (di_run_id inp) host"
    and "ie_net ienv = reliable"
  shows "\<exists>host' ev. sb_result_handler ienv \<lparr>sb_body = rtext, sb_props = result_props (fe_props (last (fs_sent fs')))\<rparr> host =
      (host', Inr ()) \<and>
    h_raised host' = h_raised host @ [ev] \<and> marker_there ienv (di_run_id inp) host' \<and>
    re_instance ev = JStr (di_batch_id inp) \<and> re_name ev = run_event_name (di_run_id inp) \<and>
    dget (re_payload ev) ''run_id'' = JStr (di_run_id inp) \<and>
    dget (re_payload ev) ''correlation_id'' = JStr (sm_correlation_id (last (pl_sent w'))) \<and>
    is_terminal_run_status (dget (re_payload ev) ''status'')"
proof -
  from assms(1) obtain cid tp where w': "w' = w\<lparr>pl_blobs := (pl_blobs w)((de_container denv, run_index_path (di_run_id inp)) \<mapsto>
        json_dumps (run_index_entry inp now)),
      pl_sent := pl_sent w @ [sent_of denv inp (build_run_message inp cid mid now) tp]\<rparr>"
    by (rule dispatch_run_sent)
  let ?m = "build_run_message inp cid mid now"
  have sm: "last (pl_sent w') = sent_of denv inp ?m tp" by (simp add: w')
  have mid: "msg_run_id ?m = di_run_id inp" by (simp add: build_run_message_def)
  obtain r fail arts tp' where r: "fs_sent fs' = fs_sent fs @ [r]"
    "fe_body r = JObj (result_body fenv (JStr (di_run_id inp)) (JStr (msg_correlation_id ?m)) fail arts)"
    "arts = JNull \<or> (\<exists>url. arts = artifacts_of url)"
    using fake_answers_run[OF assms(5,3), of ?m] assms(2,4) by (auto simp: sm sent_of_def mid)
  let ?b = "result_body fenv (JStr (di_run_id inp)) (JStr (msg_correlation_id ?m)) fail arts"
  let ?msg = "\<lparr>sb_body = rtext, sb_props = result_props (fe_props (last (fs_sent fs')))\<rparr>"
  from result_body_accepted(2)[OF r(3)] obtain rm where rm: "validate_run_result ?b = Inr rm" "rm_run_id rm = di_run_id inp"
    "rm_correlation_id rm = msg_correlation_id ?m" "rm_status rm = (if fail then ''Failed'' else ''Succeeded'')"
    by blast
  have acc: "sb_accept ienv ?msg = Inr rm"
    using assms(6,7) r(1,2) result_body_accepted(1)[OF r(3)] rm(1)
    by (simp add: sb_accept_def normalize_completion_payload_def ie_loads_def result_body_read[OF r(3)])
  have lk: "lookup_batch_id ienv (rm_run_id rm) (h_blobs host) = Inr (JStr (di_batch_id inp))"
    using assms(8,9,11,13) by (intro lookup_run_index) (simp_all add: rm(2) w')
  have st: "is_terminal_run_status (JStr ''Failed'')" "is_terminal_run_status (JStr ''Succeeded'')" by code_simp+
  define tp2 where "tp2 = snd (extract_trace_metadata (ie_decode_ignore ienv) [] (sb_props ?msg) (dump_run_result rm))"
  from sb_let_in[OF acc lk _ _ _ tp2_def] assms(12,13) rm(2)
  have h: "sb_result_handler ienv ?msg host =
      raise_event ienv \<lparr>re_instance = JStr (di_batch_id inp), re_name = run_event_name (di_run_id inp), re_payload = sb_payload rm tp2\<rparr>
      (host\<lparr>h_blobs := (h_blobs host)((ie_container ienv, result_marker_path (di_run_id inp)) \<mapsto>
          json_dumps (claim_marker (JStr (di_batch_id inp)) (di_run_id inp) (rm_correlation_id rm) tp2))\<rparr>)"
    by (simp add: claim_answered_def)
  have p: "dget (sb_payload rm tp2) ''run_id'' = JStr (di_run_id inp)"
    "dget (sb_payload rm tp2) ''correlation_id'' = JStr (sm_correlation_id (last (pl_sent w')))"
    "is_terminal_run_status (dget (sb_payload rm tp2) ''status'')"
    using rm st by (simp_all add: sb_payload_def dump_run_result_def sm sent_of_def)
  have "ie_raise ienv ev = Inr ()" for ev using assms(10) by blast
  then show ?thesis unfolding h by (simp add: raise_event_def marker_there_def p)
qed

definition loop_message :: run_message where
  "loop_message = build_run_message (demo_dispatch_input []) ''c'' ''m1'' ''t''"

definition loop_engine :: fake_env where
  "loop_engine = \<lparr>fk_decode = Some, fk_json_float = (\<lambda>t. None),
     fk_float = (\<lambda>n. Some (if n = ''FAKE_FAILURE_RATE'' then 1 else 0)), fk_text = Some, fk_random = (\<lambda>n. 0),
     fk_repr = (\<lambda>x. ''0.0''), fk_uuid = (\<lambda>n. ''u''), fk_now = ''t'', fk_elapsed = 5,
     fk_upload = (\<lambda>u. Inr ()), fk_send = (\<lambda>b. Inr ())\<rparr>"

definition loop_intake :: intake_env where
  "loop_intake = \<lparr>ie_account = ''acct'', ie_container = ''batch-results'', ie_net = reliable, ie_decode = Some, ie_decode_ignore = (\<lambda>s. s),
     ie_float = (\<lambda>t. None), ie_raise = (\<lambda>ev. Inr ()), ie_explain = (\<lambda>d. [])\<rparr>"

definition loop_answer :: string where
  "loop_answer = json_dumps (JObj (result_body loop_engine (JStr ''r1'') (JStr ''c'') True JNull))"

theorem engine_answer_reaches_batch_witness:
  "\<exists>w' fs' host' ev.
     dispatch_run demo_dispatch_env ''t'' ''m1'' (demo_dispatch_input []) demo_platform = (w', Inr ''r1'') \<and>
     fake_engine_run loop_engine (json_dumps (dump_run_message loop_message)) (wire_props (sm_props (last (pl_sent w'))))
       \<lparr>fs_blobs = Map.empty, fs_sent = []\<rparr> = (fs', Inr ()) \<and>
     sb_result_handler loop_intake \<lparr>sb_body = loop_answer, sb_props = result_props (fe_props (last (fs_sent fs')))\<rparr>
       \<lparr>h_blobs = pl_blobs w', h_raised = []\<rparr> = (host', Inr ()) \<and>
     h_raised host' = [ev] \<and> re_instance ev = JStr ''b1'' \<and> re_name ev = ''run-r1''"
proof -
  let ?inp = "demo_dispatch_input []" and ?sent = "sent_of demo_dispatch_env (demo_dispatch_input []) loop_message []"
  let ?w = "\<lparr>pl_blobs = [(''batch-results'', run_index_path ''r1'') \<mapsto> json_dumps (run_index_entry ?inp ''t'')], pl_sent = [?sent]\<rparr>"
  let ?text = "json_dumps (dump_run_message loop_message)"
  have d: "dispatch_run demo_dispatch_env ''t'' ''m1'' ?inp demo_platform = (?w, Inr ''r1'')"
    by (simp add: dispatch_run_def demo_dispatch_input_def verify_input_blob_sha256_def send_run_message_def
        demo_platform_def loop_message_def demo_dispatch_env_def Let_def)
  let ?fs = "\<lparr>fs_blobs = Map.empty, fs_sent = []\<rparr> :: fake_state"
  have ids: "msg_run_id loop_message = ''r1''" "msg_correlation_id loop_message = ''c''"
    by (simp_all add: loop_message_def build_run_message_def demo_dispatch_input_def str_or_def)
  have zero: "fl64 0 = 0" by code_simp
  have dec: "fk_decode loop_engine t = Some t" for t by (simp add: loop_engine_def)
  have fl: "fk_loads loop_engine ?text = Some (dump_run_message loop_message)" by (simp add: fk_loads_def)
  obtain fs' where f: "fake_engine_run loop_engine ?text (wire_props (sm_props (last (pl_sent ?w)))) ?fs = (fs', Inr ())"
    "fs_sent fs' = [\<lparr>fe_namespace = ''SB_NAMESPACE'', fe_queue = ''SB_RESULTS_QUEUE'',
       fe_body = JObj (result_body loop_engine (JStr ''r1'') (JStr ''c'') True JNull),
       fe_correlation_id = JStr ''c'', fe_message_id = ''u'', fe_props = trace_props (JStr ''r1'') (JStr ''c'') []\<rparr>]"
    by (simp only: fake_engine_run_def dec fl option.case)
      (simp add: loop_engine_def dump_run_message_def ids py_or_def sent_of_def wire_props_def
        prop_get_def env_float_def sleep_time_def uniform_def zero answer_run_def environ_def env_text_def send_result_def
        trace_props_def Let_def)
  have e: "fk_decode loop_engine ?text = Some ?text" "fk_loads loop_engine ?text = Some (sm_body (last (pl_sent ?w)))"
    "loop_answer = json_dumps (fe_body (last (fs_sent fs')))" "ie_decode loop_intake loop_answer = Some loop_answer"
    "ie_account loop_intake \<noteq> []" "ie_container loop_intake = de_container demo_dispatch_env"
    "\<forall>ev. ie_raise loop_intake ev = Inr ()" "di_run_id ?inp \<noteq> []"
    by (simp_all add: fl f(2) sent_of_def loop_answer_def)
      (simp_all add: loop_engine_def loop_intake_def demo_dispatch_env_def demo_dispatch_input_def)
  have m: "h_blobs \<lparr>h_blobs = pl_blobs ?w, h_raised = []\<rparr> = pl_blobs ?w"
    "\<not> marker_there loop_intake (di_run_id ?inp) \<lparr>h_blobs = pl_blobs ?w, h_raised = []\<rparr>"
    "ie_net loop_intake = reliable"
    by (simp_all add: marker_there_def) (simp add: loop_intake_def)
  have n: "di_batch_id ?inp = ''b1''" "run_event_name (di_run_id ?inp) = ''run-r1''"
    by (simp_all add: demo_dispatch_input_def run_event_name_def)
  from engine_answer_reaches_batch[OF d e(8,1,2) f(1) e(3-7) m] d f(1) show ?thesis unfolding n by fastforce
qed

end
