(* ===== verification/ExternalEvents.thy ===== *)
theory ExternalEvents
  imports BatchOutcome IntakeLaws
begin

text \<open>
  From the events the intake raises to the completions the orchestrator's loop receives. The
  runtime completes a task that waits for an external event with an event of that name raised
  on its instance, each task and each event once; which of several tasks waiting under one name
  it picks, and how it carries a payload (\<^verbatim>\<open>_coerce_run_result_payload\<close> allows for a
  dict or its JSON text), are parameters. What an instance needs of the raised events is the
  locale \<open>event_source\<close>.
\<close>

subsection \<open>Completing the waiting tasks\<close>

definition listening :: "string \<Rightarrow> raised_event \<Rightarrow> (nat \<times> string) list \<Rightarrow> nat list" where
  "listening b ev ws = map fst (filter (\<lambda>w. re_instance ev = JStr b \<and> re_name ev = run_event_name (snd w)) ws)"

fun completions ::
  "(nat list \<Rightarrow> nat) \<Rightarrow> (dict \<Rightarrow> json) \<Rightarrow> string \<Rightarrow> (nat \<Rightarrow> string) \<Rightarrow> (nat \<times> string) list \<Rightarrow> raised_event list \<Rightarrow> delivery list" where
  "completions pick carry b clock ws [] = []"
| "completions pick carry b clock ws (ev # evs) =
     (let ks = listening b ev ws
      in if ks = [] then completions pick carry b (\<lambda>n. clock (Suc n)) ws evs
         else (pick ks, carry (re_payload ev), clock 0) #
           completions pick carry b (\<lambda>n. clock (Suc n)) (filter (\<lambda>w. fst w \<noteq> pick ks) ws) evs)"

definition waiting :: "string list \<Rightarrow> (nat \<times> string) list" where
  "waiting tasks = zip [0..<length tasks] tasks"

definition picks_one :: "(nat list \<Rightarrow> nat) \<Rightarrow> bool" where
  "picks_one pick \<longleftrightarrow> (\<forall>ks. ks \<noteq> [] \<longrightarrow> pick ks \<in> set ks)"

definition carries :: "ctx \<Rightarrow> (dict \<Rightarrow> json) \<Rightarrow> bool" where
  "carries c carry \<longleftrightarrow> (\<forall>d. coerce_run_result_payload (c_loads c) (carry d) = Inr d)"

lemma in_waiting: "(k, x) \<in> set (waiting tasks) \<longleftrightarrow> k < length tasks \<and> tasks ! k = x"
  by (auto simp: waiting_def set_zip intro!: exI[of _ k])

lemma listening_iff:
  "k \<in> set (listening b ev ws) \<longleftrightarrow> re_instance ev = JStr b \<and> (\<exists>x. (k, x) \<in> set ws \<and> re_name ev = run_event_name x)"
  by (force simp: listening_def)

lemma picked:
  assumes "picks_one pick" and "listening b ev ws \<noteq> []"
  obtains x where "(pick (listening b ev ws), x) \<in> set ws" "re_name ev = run_event_name x" "re_instance ev = JStr b"
  using assms by (metis listening_iff picks_one_def)

text \<open>Every completion is an event of the instance for the task it completes.\<close>

lemma completion_has_event:
  assumes "picks_one pick" and "(k, v, t) \<in> set (completions pick carry b clock ws evs)"
  shows "\<exists>x ev. (k, x) \<in> set ws \<and> ev \<in> set evs \<and> re_name ev = run_event_name x \<and> re_instance ev = JStr b \<and> v = carry (re_payload ev)"
  using assms(2)
proof (induction evs arbitrary: ws clock)
  case Nil
  then show ?case by simp
next
  case (Cons ev evs)
  show ?case
  proof (cases "listening b ev ws = []")
    case True
    with Cons.prems have "(k, v, t) \<in> set (completions pick carry b (\<lambda>n. clock (Suc n)) ws evs)" by simp
    from Cons.IH[OF this] show ?thesis by auto
  next
    case False
    let ?k = "pick (listening b ev ws)"
    from Cons.prems False consider "k = ?k" "v = carry (re_payload ev)"
      | "(k, v, t) \<in> set (completions pick carry b (\<lambda>n. clock (Suc n)) (filter (\<lambda>w. fst w \<noteq> ?k) ws) evs)"
      by (auto simp: Let_def)
    then show ?thesis
    proof cases
      case 1
      from picked[OF assms(1) False] 1 show ?thesis by (metis list.set_intros(1))
    next
      case 2
      from Cons.IH[OF this] show ?thesis by auto
    qed
  qed
qed

text \<open>A task whose event was raised is completed, when no two tasks share a name.\<close>

lemma completions_reach:
  assumes "picks_one pick" and "inj_on snd (set ws)"
    and "(k, x) \<in> set ws" and "ev \<in> set evs" and "re_name ev = run_event_name x" and "re_instance ev = JStr b"
  shows "k \<in> fst ` set (completions pick carry b clock ws evs)"
  using assms(2-4)
proof (induction evs arbitrary: ws clock)
  case Nil
  then show ?case by simp
next
  case (Cons e evs)
  show ?case
  proof (cases "listening b e ws = []")
    case True
    then have "ev \<noteq> e" using Cons.prems(2) assms(5,6) listening_iff[of k b e ws] by auto
    with Cons True show ?thesis by simp
  next
    case False
    obtain y where y: "(pick (listening b e ws), y) \<in> set ws" "re_name e = run_event_name y"
      using picked[OF assms(1) False] by blast
    show ?thesis
    proof (cases "k = pick (listening b e ws)")
      case True
      with False show ?thesis by (simp add: Let_def)
    next
      case ne: False
      have "ev \<noteq> e"
      proof
        assume "ev = e"
        then have "y = x" using y(2) assms(5) by simp
        then have "(pick (listening b e ws), y) = (k, x)"
          using inj_onD[OF Cons.prems(1) _ y(1) Cons.prems(2)] by simp
        with ne show False by simp
      qed
      then have "ev \<in> set evs" using Cons.prems(3) by simp
      moreover have "inj_on snd (set (filter (\<lambda>w. fst w \<noteq> pick (listening b e ws)) ws))"
        using Cons.prems(1) by (rule inj_on_subset) auto
      moreover have "(k, x) \<in> set (filter (\<lambda>w. fst w \<noteq> pick (listening b e ws)) ws)"
        using Cons.prems(2) ne by simp
      ultimately have "k \<in> fst ` set (completions pick carry b (\<lambda>n. clock (Suc n))
          (filter (\<lambda>w. fst w \<noteq> pick (listening b e ws)) ws) evs)"
        by (intro Cons.IH)
      with False show ?thesis by (simp add: Let_def)
    qed
  qed
qed

text \<open>One event of a name completes at most one task of that name.\<close>

lemma completions_single:
  assumes "picks_one pick" and "distinct (map fst ws)"
    and "\<And>x. length (filter (\<lambda>e. re_name e = run_event_name x) evs) \<le> 1"
    and "(k, v, t) \<in> set (completions pick carry b clock ws evs)" and "(k', v', t') \<in> set (completions pick carry b clock ws evs)"
    and "(k, x) \<in> set ws" and "(k', x) \<in> set ws"
  shows "k = k'"
  using assms(2-)
proof (induction evs arbitrary: ws clock)
  case Nil
  then show ?case by simp
next
  case (Cons e evs)
  have le: "length (filter (\<lambda>e. re_name e = run_event_name y) evs) \<le> 1" for y
    using Cons.prems(2)[of y] by (simp split: if_splits)
  show ?case
  proof (cases "listening b e ws = []")
    case True
    with Cons.IH[OF Cons.prems(1) le] Cons.prems(3-) show ?thesis by simp
  next
    case False
    let ?p = "pick (listening b e ws)"
    let ?ws = "filter (\<lambda>w. fst w \<noteq> ?p) ws"
    let ?rest = "completions pick carry b (\<lambda>n. clock (Suc n)) ?ws evs"
    obtain y where y: "(?p, y) \<in> set ws" "re_name e = run_event_name y" using picked[OF assms(1) False] by blast
    have d: "distinct (map fst ?ws)" using Cons.prems(1) by (rule distinct_map_filter)
    have none: "\<not> (\<exists>j v t. (j, v, t) \<in> set ?rest \<and> (j, y) \<in> set ws)"
    proof
      assume "\<exists>j v t. (j, v, t) \<in> set ?rest \<and> (j, y) \<in> set ws"
      then obtain j v t where j: "(j, v, t) \<in> set ?rest" "(j, y) \<in> set ws" by blast
      from completion_has_event[OF assms(1) j(1)] obtain z ev where
        z: "(j, z) \<in> set ?ws" "ev \<in> set evs" "re_name ev = run_event_name z" by blast
      have "z = y" using z(1) j(2) Cons.prems(1) by (auto dest: eq_key_imp_eq_value)
      with z(2,3) have "filter (\<lambda>e. re_name e = run_event_name y) evs \<noteq> []" by (auto simp: filter_empty_conv)
      then have "1 \<le> length (filter (\<lambda>e. re_name e = run_event_name y) evs)"
        by (cases "filter (\<lambda>e. re_name e = run_event_name y) evs") simp_all
      with Cons.prems(2)[of y] y(2) show False by simp
    qed
    have py: "x = y" if "(?p, x) \<in> set ws" using that y(1) Cons.prems(1) by (auto dest: eq_key_imp_eq_value)
    have split: "j = ?p \<or> (j, w, s) \<in> set ?rest" if "(j, w, s) \<in> set (completions pick carry b clock ws (e # evs))" for j w s
      using that False by (auto simp: Let_def)
    show ?thesis
    proof (cases "k = ?p \<or> k' = ?p")
      case True
      with py Cons.prems(5,6) have x: "x = y" by blast
      from split[OF Cons.prems(3)] split[OF Cons.prems(4)] none Cons.prems(5,6) show ?thesis
        unfolding x by blast
    next
      case ne: False
      with split[OF Cons.prems(3)] split[OF Cons.prems(4)]
      have r: "(k, v, t) \<in> set ?rest" "(k', v', t') \<in> set ?rest" by auto
      show ?thesis by (rule Cons.IH[OF d le r]) (use ne Cons.prems(5,6) in auto)
    qed
  qed
qed

subsection \<open>A source of events\<close>

text \<open>
  The states a source can be in and the events raised by then: every event is of some run, with
  a payload the orchestrator can use for that run, and no run has two.
\<close>

locale event_source =
  fixes reach :: "'s \<Rightarrow> bool" and events :: "'s \<Rightarrow> raised_event list"
  assumes about_run: "reach s \<Longrightarrow> ev \<in> set (events s) \<Longrightarrow>
      \<exists>x. re_name ev = run_event_name x \<and> sound_payload x (re_payload ev)"
    and one_per_run: "reach s \<Longrightarrow> length (filter (\<lambda>e. re_name e = run_event_name x) (events s)) \<le> 1"
begin

lemma completions_sound:
  assumes "reach s" and "picks_one pick" and "carries c carry"
    and "d \<in> set (completions pick carry b clock (waiting tasks) (events s))"
  shows "sound c tasks d"
proof -
  obtain k v t where d: "d = (k, v, t)" by (cases d)
  from completion_has_event[OF assms(2)] assms(4) d obtain x ev where
    x: "(k, x) \<in> set (waiting tasks)" "ev \<in> set (events s)" "re_name ev = run_event_name x" "v = carry (re_payload ev)"
    by blast
  from about_run[OF assms(1) x(2)] x(3) have "sound_payload x (re_payload ev)" by auto
  then show ?thesis
    using x(1,4) assms(3) by (simp add: sound_def matched_def d carries_def in_waiting sound_payload_def)
qed

lemma completions_once:
  assumes "reach s" and "picks_one pick"
    and "d \<in> set (completions pick carry b clock (waiting tasks) (events s))"
    and "d' \<in> set (completions pick carry b clock (waiting tasks) (events s))"
    and "tasks ! fst d = tasks ! fst d'"
  shows "fst d = fst d'"
proof -
  obtain k v t k' v' t' where d: "d = (k, v, t)" "d' = (k', v', t')" by (cases d; cases d')
  note c = assms(3)[unfolded d(1)] and c' = assms(4)[unfolded d(2)]
  have "(k, tasks ! k) \<in> set (waiting tasks)" using completion_has_event[OF assms(2) c] in_waiting by blast
  moreover have "(k', tasks ! k) \<in> set (waiting tasks)"
    using completion_has_event[OF assms(2) c'] in_waiting assms(5) by (auto simp: d)
  moreover have "distinct (map fst (waiting tasks))" by (simp add: waiting_def)
  ultimately have "k = k'" by (intro completions_single[OF assms(2) _ one_per_run[OF assms(1)] c c'])
  then show ?thesis by (simp add: d)
qed

end

end
