(* ===== verification/Platform.thy ===== *)
theory Platform
  imports ExternalEvents Dispatch Finalize
begin

text \<open>
  The orchestrator's activities and the result intake over what they share: the results
  container, the messages sent to the engine and the events raised on the Durable client. An
  action is one call of an activity or of an intake handler, for whatever batch, in whatever
  order and however often (activities and messages are delivered at least once). Each call has a
  network of its own to the container, which may lose its requests or their answers, and a
  delivery the answers of the Durable client. \<open>reached\<close> is the state after a sequence of actions on an empty container. The invariant says where
  index blobs and raised events come from.
\<close>

subsection \<open>State and actions\<close>

record traffic =
  tf_blobs :: blobs
  tf_sent :: "sent_message list"
  tf_raised :: "raised_event list"

record platform_env =
  pe_dispatch :: dispatch_env
  pe_intake :: intake_env
  pe_finalize :: finalize_env

datatype action =
    StagePrompt network string string
  | DispatchRun network dispatch_input string string
  | DeliverResult attempt
  | StoreResult network finalize_input

definition platform_view :: "traffic \<Rightarrow> platform" where
  "platform_view s = \<lparr>pl_blobs = tf_blobs s, pl_sent = tf_sent s\<rparr>"

definition host_view :: "traffic \<Rightarrow> host" where
  "host_view s = \<lparr>h_blobs = tf_blobs s, h_raised = tf_raised s\<rparr>"

abbreviation dispatch_over :: "network \<Rightarrow> platform_env \<Rightarrow> dispatch_env" where
  "dispatch_over net env \<equiv> (pe_dispatch env)\<lparr>de_net := net\<rparr>"

fun perform :: "platform_env \<Rightarrow> action \<Rightarrow> traffic \<Rightarrow> traffic" where
  "perform env (StagePrompt net batch_id prompt) s =
     (let w = fst (prepare_prompt_blob (dispatch_over net env) batch_id prompt (platform_view s))
      in s\<lparr>tf_blobs := pl_blobs w, tf_sent := pl_sent w\<rparr>)"
| "perform env (DispatchRun net inp now mid) s =
     (let w = fst (dispatch_run (dispatch_over net env) now mid inp (platform_view s))
      in s\<lparr>tf_blobs := pl_blobs w, tf_sent := pl_sent w\<rparr>)"
| "perform env (DeliverResult a) s =
     (let w = attempt_result (pe_intake env) a (host_view s)
      in s\<lparr>tf_blobs := h_blobs w, tf_raised := h_raised w\<rparr>)"
| "perform env (StoreResult net inp) s =
     s\<lparr>tf_blobs := fst (finalize_batch ((pe_finalize env)\<lparr>fz_net := net\<rparr>) inp (tf_blobs s))\<rparr>"

definition idle :: traffic where
  "idle = \<lparr>tf_blobs = Map.empty, tf_sent = [], tf_raised = []\<rparr>"

inductive reached :: "platform_env \<Rightarrow> action list \<Rightarrow> traffic \<Rightarrow> bool" for env where
  start: "reached env [] idle"
| act: "reached env as s \<Longrightarrow> reached env (as @ [a]) (perform env a s)"

inductive_simps reached_nil: "reached env [] s"
inductive_simps reached_snoc: "reached env (as @ [a]) s"

lemma reached_fold: "reached env as s \<longleftrightarrow> s = fold (perform env) as idle"
  by (induction as arbitrary: s rule: rev_induct) (simp_all add: reached_nil reached_snoc)

text \<open>The parts are configured for one container.\<close>

definition wired :: "platform_env \<Rightarrow> bool" where
  "wired env \<longleftrightarrow> ie_account (pe_intake env) \<noteq> [] \<and> ie_container (pe_intake env) = de_container (pe_dispatch env)"

definition indexes :: "platform_env \<Rightarrow> string \<Rightarrow> blob_key" where
  "indexes env x = (de_container (pe_dispatch env), run_index_path x)"

subsection \<open>What each action writes\<close>

lemma views [simp]:
  "pl_blobs (platform_view s) = tf_blobs s" "pl_sent (platform_view s) = tf_sent s"
  "h_blobs (host_view s) = tf_blobs s" "h_raised (host_view s) = tf_raised s"
  by (simp_all add: platform_view_def host_view_def)

lemma stage_keeps:
  "tf_blobs (perform env (StagePrompt net b t) s) (c, run_index_path x) = tf_blobs s (c, run_index_path x)"
  "marker_there ienv x (host_view (perform env (StagePrompt net b t) s)) = marker_there ienv x (host_view s)"
  "tf_raised (perform env (StagePrompt net b t) s) = tf_raised s"
proof -
  let ?k = "(de_container (pe_dispatch env), batch_prompt_path b)"
  have "tf_blobs (perform env (StagePrompt net b t) s) = fst (put_blob net ?k t True (tf_blobs s))"
    by (simp add: prepare_prompt_blob_def Let_def split: prod.split)
  then have keeps: "tf_blobs (perform env (StagePrompt net b t) s) k = tf_blobs s k" if "k \<noteq> ?k" for k
    using that by (simp add: put_keeps)
  show "tf_blobs (perform env (StagePrompt net b t) s) (c, run_index_path x) = tf_blobs s (c, run_index_path x)"
    "marker_there ienv x (host_view (perform env (StagePrompt net b t) s)) = marker_there ienv x (host_view s)"
    by (simp_all add: marker_there_def keeps del: perform.simps)
  show "tf_raised (perform env (StagePrompt net b t) s) = tf_raised s" by (simp add: Let_def)
qed

lemma store_keeps:
  "tf_blobs (perform env (StoreResult net inp) s) (c, run_index_path x) = tf_blobs s (c, run_index_path x)"
  "marker_there ienv x (host_view (perform env (StoreResult net inp) s)) = marker_there ienv x (host_view s)"
  "tf_raised (perform env (StoreResult net inp) s) = tf_raised s"
proof -
  let ?k = "(fz_container (pe_finalize env), batch_result_path (fi_batch_id inp))"
  have keeps: "tf_blobs (perform env (StoreResult net inp) s) k = tf_blobs s k" if "k \<noteq> ?k" for k
    using put_keeps[OF that] by (simp add: finalize_batch_def split: sum.split prod.split) (metis fst_conv)
  show "tf_blobs (perform env (StoreResult net inp) s) (c, run_index_path x) = tf_blobs s (c, run_index_path x)"
    "marker_there ienv x (host_view (perform env (StoreResult net inp) s)) = marker_there ienv x (host_view s)"
    by (simp_all add: marker_there_def keeps del: perform.simps)
  show "tf_raised (perform env (StoreResult net inp) s) = tf_raised s" by simp
qed

lemma dispatch_keeps:
  "marker_there ienv x (host_view (perform env (DispatchRun net inp now mid) s)) = marker_there ienv x (host_view s)"
  "tf_raised (perform env (DispatchRun net inp now mid) s) = tf_raised s"
  by (cases rule: dispatch_run_cases[of "dispatch_over net env" now mid inp "platform_view s"];
      simp add: marker_there_def)+

lemma dispatch_index:
  "tf_blobs (perform env (DispatchRun net inp now mid) s) (indexes env x) = tf_blobs s (indexes env x) \<or>
   x = di_run_id inp \<and>
   tf_blobs (perform env (DispatchRun net inp now mid) s) (indexes env x) = Some (json_dumps (run_index_entry inp now))"
  by (cases rule: dispatch_run_cases[of "dispatch_over net env" now mid inp "platform_view s"])
     (simp_all add: indexes_def)

lemma deliver_keeps_index:
  assumes "delivery_effect ienv w w'"
  shows "h_blobs w' (c, run_index_path x) = h_blobs w (c, run_index_path x)"
  using assms by (cases rule: effect_cases) (auto simp: claimed_def)

lemma deliver_effect:
  "delivery_effect (under (pe_intake env) net r) (host_view s) (host_view (perform env (DeliverResult (net, r, q)) s))"
proof -
  have "host_view (perform env (DeliverResult (net, r, q)) s) = deliver_result (under (pe_intake env) net r) q (host_view s)"
    by (simp add: host_view_def Let_def)
  then show ?thesis using deliver_effect_of[of "under (pe_intake env) net r" "host_view s" q] by simp
qed

subsection \<open>The invariant\<close>

definition dispatched :: "action list \<Rightarrow> dispatch_input \<Rightarrow> string \<Rightarrow> bool" where
  "dispatched as inp now \<longleftrightarrow> (\<exists>net mid. DispatchRun net inp now mid \<in> set as)"

definition index_from :: "platform_env \<Rightarrow> action list \<Rightarrow> traffic \<Rightarrow> bool" where
  "index_from env as s \<longleftrightarrow>
     (\<forall>x data. tf_blobs s (indexes env x) = Some data \<longrightarrow>
        (\<exists>inp now. dispatched as inp now \<and> di_run_id inp = x \<and> data = json_dumps (run_index_entry inp now)))"

definition caused :: "action list \<Rightarrow> raised_event \<Rightarrow> bool" where
  "caused as ev \<longleftrightarrow>
     (\<exists>inp now. dispatched as inp now \<and> re_name ev = run_event_name (di_run_id inp) \<and>
        re_instance ev = JStr (di_batch_id inp) \<and> sound_payload (di_run_id inp) (re_payload ev))"

definition traffic_inv :: "platform_env \<Rightarrow> action list \<Rightarrow> traffic \<Rightarrow> bool" where
  "traffic_inv env as s \<longleftrightarrow>
     index_from env as s \<and> (\<forall>ev \<in> set (tf_raised s). caused as ev) \<and> once (pe_intake env) (host_view s)"

lemma dispatched_more: "dispatched as inp now \<Longrightarrow> dispatched (as @ bs) inp now"
  by (auto simp: dispatched_def)

lemma caused_more: "caused as ev \<Longrightarrow> caused (as @ bs) ev"
  unfolding caused_def using dispatched_more by blast

lemma index_from_keeps:
  assumes "index_from env as s" and "\<And>x. tf_blobs s' (indexes env x) = tf_blobs s (indexes env x)"
  shows "index_from env (as @ bs) s'"
  using assms dispatched_more unfolding index_from_def by metis

lemma once_keeps:
  assumes "once ienv w" and "\<And>x. marker_there ienv x w' = marker_there ienv x w" and "h_raised w' = h_raised w"
  shows "once ienv w'"
  using assms by (simp add: once_def raised_for_def)

lemma lookup_indexed:
  assumes "wired env" and "index_from env as s"
    and "lookup_batch_id ((pe_intake env)\<lparr>ie_net := net\<rparr>) x (tf_blobs s) = Inr b" and "b \<noteq> JNull"
  shows "\<exists>inp now. dispatched as inp now \<and> di_run_id inp = x \<and> b = JStr (di_batch_id inp)"
proof -
  from assms(1) have cfg: "ie_account (pe_intake env) \<noteq> []" "indexes env x = (ie_container (pe_intake env), run_index_path x)"
    by (simp_all add: wired_def indexes_def)
  from assms(3,4) cfg obtain data where data: "tf_blobs s (indexes env x) = Some data" "net (indexes env x) = Answered"
    by (auto simp: lookup_batch_id_def get_Inr split: sum.splits pyerr.splits)
  with assms(2) obtain inp now where e: "dispatched as inp now" "di_run_id inp = x"
    "data = json_dumps (run_index_entry inp now)" unfolding index_from_def by blast
  have "lookup_batch_id ((pe_intake env)\<lparr>ie_net := net\<rparr>) x (tf_blobs s) = Inr (JStr (di_batch_id inp))"
    using lookup_run_index[of "(pe_intake env)\<lparr>ie_net := net\<rparr>" "tf_blobs s" x inp now] data e(3) cfg by simp
  with assms(3) have "b = JStr (di_batch_id inp)" by simp
  with e show ?thesis by blast
qed

lemma traffic_inv_reached:
  assumes "wired env" and "reached env as s"
  shows "traffic_inv env as s"
  using assms(2)
proof (induction rule: reached.induct)
  case start
  show ?case
    by (simp add: traffic_inv_def index_from_def idle_def once_def raised_for_def host_view_def)
next
  case (act as s a)
  then have ix: "index_from env as s" and ca: "\<forall>ev \<in> set (tf_raised s). caused as ev"
    and on: "once (pe_intake env) (host_view s)" by (simp_all add: traffic_inv_def)
  show ?case
  proof (cases a)
    case (StagePrompt net b t)
    then show ?thesis
      unfolding traffic_inv_def using ca index_from_keeps[OF ix] once_keeps[OF on]
      by (auto simp: stage_keeps indexes_def caused_more simp del: perform.simps)
  next
    case (StoreResult net inp)
    then show ?thesis
      unfolding traffic_inv_def using ca index_from_keeps[OF ix] once_keeps[OF on]
      by (auto simp: store_keeps indexes_def caused_more simp del: perform.simps)
  next
    case (DispatchRun net inp now mid)
    have "dispatched (as @ [a]) inp now" by (auto simp: DispatchRun dispatched_def)
    then have "index_from env (as @ [a]) (perform env a s)"
      using ix dispatch_index[of env net inp now mid s] dispatched_more[of as _ _ "[a]"]
      unfolding index_from_def DispatchRun by (metis option.inject)
    then show ?thesis
      unfolding traffic_inv_def using ca once_keeps[OF on]
      by (auto simp: DispatchRun dispatch_keeps caused_more simp del: perform.simps)
  next
    case (DeliverResult att)
    obtain net r q where att: "att = (net, r, q)" by (cases att)
    let ?s' = "perform env (DeliverResult (net, r, q)) s"
    note eff = deliver_effect[of r net env s q]
    have "index_from env (as @ [a]) ?s'"
      using index_from_keeps[OF ix] deliver_keeps_index[OF eff] by (simp add: indexes_def del: perform.simps)
    moreover have "once (pe_intake env) (host_view ?s')" using effect_once[OF eff] on by simp
    moreover have "\<forall>ev \<in> set (tf_raised ?s'). caused (as @ [a]) ev"
      using eff
    proof (cases rule: effect_cases)
      case nothing
      then have "tf_raised ?s' = tf_raised s" by (simp add: host_view_def del: perform.simps)
      with ca caused_more show ?thesis by simp
    next
      case (refused x ev e)
      then show ?thesis using ca caused_more by (simp del: perform.simps)
    next
      case (raised x ev)
      obtain inp now where e: "dispatched as inp now" "di_run_id inp = x" "re_instance ev = JStr (di_batch_id inp)"
        using lookup_indexed[OF assms(1) ix _ raised(5), of net x] raised(4) by auto
      then have "caused as ev" unfolding caused_def using raised(3,6) by blast
      with ca raised(2) show ?thesis by (auto simp: caused_more simp del: perform.simps)
    qed
    ultimately show ?thesis by (simp add: traffic_inv_def DeliverResult att del: perform.simps)
  qed
qed

interpretation platform_events: event_source "\<lambda>s. \<exists>as. wired env \<and> reached env as s" tf_raised for env
proof
  fix s ev x
  assume "\<exists>as. wired env \<and> reached env as s"
  then obtain as where inv: "traffic_inv env as s" using traffic_inv_reached by blast
  show "ev \<in> set (tf_raised s) \<Longrightarrow> \<exists>x. re_name ev = run_event_name x \<and> sound_payload x (re_payload ev)"
    using inv unfolding traffic_inv_def caused_def by blast
  have "raised_for x (host_view s) \<le> 1"
    using inv unfolding traffic_inv_def once_def by (metis le_zero_eq le_SucI One_nat_def)
  then show "length (filter (\<lambda>e. re_name e = run_event_name x) (tf_raised s)) \<le> 1"
    by (simp add: raised_for_def)
qed

end
