(* ===== verification/PlatformLaws.thy ===== *)
theory PlatformLaws
  imports Platform
begin

text \<open>
  What becomes of a run that was dispatched and reported: its index blob stays, an acceptable
  result claims it, and a working client then has raised its event.
\<close>

subsection \<open>Results that are let in\<close>

fun accepted_for :: "intake_env \<Rightarrow> ingress \<Rightarrow> string \<Rightarrow> bool" where
  "accepted_for env (ViaServiceBus msg) x = (\<exists>m. sb_accept env msg = Inr m \<and> rm_run_id m = x)"
| "accepted_for env (ViaHttp rq) x =
     (x \<noteq> [] \<and> pq_run_id rq = x \<and>
      (\<exists>body d f. pq_body rq = Some body \<and>
         normalize_completion_payload (ie_decode env) (ie_loads env) (RawValue body) = Inr d \<and> validate_finish_run d = Inr f))"

lemma raise_event_blobs [simp]: "h_blobs (fst (raise_event env ev w)) = h_blobs w"
  by (simp add: raise_event_def split: sum.splits)

lemma accepted_claims:
  assumes "accepted_for env q x" and "lookup_batch_id env x (h_blobs w) = Inr b" and "b \<noteq> JNull"
    and "claim_answered env x"
  shows "marker_there env x (deliver_result env q w)"
proof (cases "marker_there env x w")
  case True
  then show ?thesis using effect_markers[OF deliver_effect_of] by blast
next
  case False
  show ?thesis
  proof (cases q)
    case (ViaServiceBus msg)
    with assms(1) obtain m where m: "sb_accept env msg = Inr m" "rm_run_id m = x" by auto
    show ?thesis
      using sb_let_in[OF m(1) _ assms(3) _ _ refl, of w] assms(2,4) False m(2)
      by (simp add: ViaServiceBus marker_there_def)
  next
    case (ViaHttp rq)
    with assms(1) obtain body d f where r: "x \<noteq> []" "pq_run_id rq = x" "pq_body rq = Some body"
      "normalize_completion_payload (ie_decode env) (ie_loads env) (RawValue body) = Inr d" "validate_finish_run d = Inr f"
      by auto
    obtain cid tp where t: "extract_trace_metadata (ie_decode_ignore env) (pq_headers rq) [] d = (cid, tp)"
      by (metis surj_pair)
    show ?thesis
      using http_let_in[OF _ r(3,4,5) _ assms(3) _ _ t, of w] assms(2,4) False r(1,2)
      by (simp add: ViaHttp marker_there_def)
  qed
qed

subsection \<open>The index blob of a dispatched run\<close>

definition no_platform :: platform where
  "no_platform = \<lparr>pl_blobs = Map.empty, pl_sent = []\<rparr>"

definition dispatch_result :: "dispatch_env \<Rightarrow> dispatch_input \<Rightarrow> string \<Rightarrow> string \<Rightarrow> string result" where
  "dispatch_result env inp now mid = snd (dispatch_run env now mid inp no_platform)"

lemma dispatch_result_any: "snd (dispatch_run env now mid inp w) = dispatch_result env inp now mid"
  by (simp add: dispatch_result_def dispatch_run_def put_blob_def upload_blob_def send_run_message_def Let_def
      split: json.splits sum.splits transport.splits)

lemma dispatch_writes_index:
  assumes "dispatch_result (dispatch_over net env) inp now mid = Inr x"
  shows "tf_blobs (perform env (DispatchRun net inp now mid) s) (indexes env (di_run_id inp)) \<noteq> None"
proof -
  have "snd (dispatch_run (dispatch_over net env) now mid inp (platform_view s)) = Inr x"
    using assms by (simp add: dispatch_result_any)
  then show ?thesis
    by (cases rule: dispatch_run_cases[of "dispatch_over net env" now mid inp "platform_view s"])
       (simp_all add: indexes_def)
qed

lemma perform_keeps_index:
  assumes "tf_blobs s (indexes env x) \<noteq> None"
  shows "tf_blobs (perform env a s) (indexes env x) \<noteq> None"
proof (cases a)
  case (DispatchRun net inp now mid)
  with dispatch_index[of env net inp now mid s x] assms show ?thesis by auto
next
  case (DeliverResult att)
  obtain net r q where "att = (net, r, q)" by (cases att)
  with DeliverResult deliver_keeps_index[OF deliver_effect[of r net env s q]] assms show ?thesis
    by (simp add: indexes_def del: perform.simps)
qed (use assms in \<open>simp_all add: stage_keeps store_keeps indexes_def del: perform.simps\<close>)

lemma perform_keeps_marker:
  assumes "marker_there (pe_intake env) x (host_view s)"
  shows "marker_there (pe_intake env) x (host_view (perform env a s))"
proof (cases a)
  case (DeliverResult att)
  obtain net r q where "att = (net, r, q)" by (cases att)
  with DeliverResult effect_markers[OF deliver_effect[of r net env s q]] assms show ?thesis by (simp del: perform.simps)
qed (use assms in \<open>simp_all add: stage_keeps store_keeps dispatch_keeps del: perform.simps\<close>)

lemma fold_keeps_index: "tf_blobs s (indexes env x) \<noteq> None \<Longrightarrow> tf_blobs (fold (perform env) as s) (indexes env x) \<noteq> None"
proof (induction as arbitrary: s)
  case (Cons a as)
  from Cons.IH[OF perform_keeps_index[OF Cons.prems]] show ?case by (simp del: perform.simps)
qed simp

lemma fold_keeps_marker:
  "marker_there (pe_intake env) x (host_view s) \<Longrightarrow> marker_there (pe_intake env) x (host_view (fold (perform env) as s))"
proof (induction as arbitrary: s)
  case (Cons a as)
  from Cons.IH[OF perform_keeps_marker[OF Cons.prems]] show ?case by (simp del: perform.simps)
qed simp

lemma indexed_after_dispatch:
  assumes "DispatchRun net inp now mid \<in> set as" and "dispatch_result (dispatch_over net env) inp now mid = Inr x" and "reached env as s"
  shows "tf_blobs s (indexes env (di_run_id inp)) \<noteq> None"
proof -
  from assms(1) obtain before after where as: "as = before @ DispatchRun net inp now mid # after" by (metis split_list)
  have "tf_blobs (fold (perform env) (before @ [DispatchRun net inp now mid]) idle) (indexes env (di_run_id inp)) \<noteq> None"
    using dispatch_writes_index[OF assms(2)] by (simp del: perform.simps)
  from fold_keeps_index[OF this, of after] show ?thesis using assms(3) by (simp add: reached_fold as)
qed

lemma lookup_after_dispatch:
  assumes w: "wired env" and r: "reached env as s" and d: "DispatchRun net inp now mid \<in> set as" "dispatch_result (dispatch_over net env) inp now mid = Inr y"
    and over: "over (indexes env (di_run_id inp)) = Answered"
  shows "\<exists>inp' now'. dispatched as inp' now' \<and> di_run_id inp' = di_run_id inp \<and>
    lookup_batch_id ((pe_intake env)\<lparr>ie_net := over\<rparr>) (di_run_id inp) (tf_blobs s) = Inr (JStr (di_batch_id inp'))"
proof -
  obtain data where data: "tf_blobs s (indexes env (di_run_id inp)) = Some data"
    using indexed_after_dispatch[OF d r] by blast
  from traffic_inv_reached[OF w r] data obtain inp' now' where e: "dispatched as inp' now'" "di_run_id inp' = di_run_id inp"
    "data = json_dumps (run_index_entry inp' now')"
    unfolding traffic_inv_def index_from_def by blast
  have "lookup_batch_id ((pe_intake env)\<lparr>ie_net := over\<rparr>) (di_run_id inp) (tf_blobs s) = Inr (JStr (di_batch_id inp'))"
    using lookup_run_index[of "(pe_intake env)\<lparr>ie_net := over\<rparr>" "tf_blobs s" "di_run_id inp" inp' now'] w data e(3) over by (simp add: wired_def indexes_def)
  with e(1,2) show ?thesis by blast
qed

subsection \<open>A run that was reported\<close>

text \<open>
  The run was dispatched, and later a result for it arrived that the intake accepts, in an
  attempt whose calls for the index and the marker were answered.
\<close>

definition reported :: "platform_env \<Rightarrow> action list \<Rightarrow> string \<Rightarrow> bool" where
  "reported env as x \<longleftrightarrow>
     (\<exists>before net r q after dnet inp now mid y. as = before @ DeliverResult (net, r, q) # after \<and>
        accepted_for (pe_intake env) q x \<and>
        net (indexes env x) = Answered \<and> net (ie_container (pe_intake env), result_marker_path x) = Answered \<and>
        DispatchRun dnet inp now mid \<in> set before \<and> di_run_id inp = x \<and>
        dispatch_result (dispatch_over dnet env) inp now mid = Inr y)"

lemma reported_claimed:
  assumes "wired env" and "reached env as s" and "reported env as x"
  shows "marker_there (pe_intake env) x (host_view s)"
proof -
  from assms(3) obtain before net r q after dnet inp now mid y where as: "as = before @ DeliverResult (net, r, q) # after"
    and q: "accepted_for (pe_intake env) q x"
    and n: "net (indexes env x) = Answered" "net (ie_container (pe_intake env), result_marker_path x) = Answered"
    and d: "DispatchRun dnet inp now mid \<in> set before" "di_run_id inp = x"
      "dispatch_result (dispatch_over dnet env) inp now mid = Inr y"
    unfolding reported_def by blast
  let ?s1 = "fold (perform env) before idle"
  let ?ienv = "under (pe_intake env) net r"
  from lookup_after_dispatch[OF assms(1) _ d(1,3), of ?s1 net] n d(2) obtain b where
    "lookup_batch_id ?ienv x (h_blobs (host_view ?s1)) = Inr (JStr b)" by (auto simp: reached_fold)
  moreover have "accepted_for ?ienv q x" using q by (cases q) simp_all
  moreover have "claim_answered ?ienv x" using n by (simp add: claim_answered_def)
  ultimately have "marker_there ?ienv x (deliver_result ?ienv q (host_view ?s1))" using accepted_claims by blast
  then have "marker_there (pe_intake env) x (host_view (perform env (DeliverResult (net, r, q)) ?s1))"
    by (simp add: marker_there_def Let_def)
  from fold_keeps_marker[OF this, of after] show ?thesis using assms(2) by (simp add: reached_fold as)
qed

text \<open>
  The event of a claimed run was raised unless the marker was written in a delivery that then
  did not come to raising it: the answer to the claim was lost, or the Durable client refused
  the event (\<open>failed_raise_loses_result\<close> shows that this loses the run). \<open>keeps_runs\<close> says that neither
  has happened to the runs \<open>xs\<close>. It says nothing of requests that do not reach the container,
  which are tried again, nor of calls for other blobs and of events of other runs.
\<close>

definition keeps_runs :: "platform_env \<Rightarrow> action list \<Rightarrow> string list \<Rightarrow> bool" where
  "keeps_runs env as xs \<longleftrightarrow>
     (\<forall>net r q. DeliverResult (net, r, q) \<in> set as \<longrightarrow>
        (\<forall>x \<in> set xs. net (ie_container (pe_intake env), result_marker_path x) \<noteq> ReplyLost \<and>
           (\<forall>ev. re_name ev = run_event_name x \<longrightarrow> r ev = Inr ())))"

text \<open>The stronger condition that no delivery at all loses an answer or an event.\<close>

definition loses_nothing :: "action list \<Rightarrow> bool" where
  "loses_nothing as \<longleftrightarrow>
     (\<forall>net r q. DeliverResult (net, r, q) \<in> set as \<longrightarrow> (\<forall>ev. r ev = Inr ()) \<and> (\<forall>k. net k \<noteq> ReplyLost))"

lemma lossless_keeps: "loses_nothing as \<Longrightarrow> keeps_runs env as xs"
  unfolding loses_nothing_def keeps_runs_def by blast

lemma keeps_runs_at:
  assumes "keeps_runs env as xs" and "DeliverResult (net, r, q) \<in> set as" and "x \<in> set xs"
  shows "net (ie_container (pe_intake env), result_marker_path x) \<noteq> ReplyLost"
    and "re_name ev = run_event_name x \<Longrightarrow> r ev = Inr ()"
  using assms unfolding keeps_runs_def by blast+

lemma claimed_raised:
  assumes "reached env as s" and "keeps_runs env as xs" and "x \<in> set xs"
    and "marker_there (pe_intake env) x (host_view s)"
  shows "\<exists>ev \<in> set (tf_raised s). re_name ev = run_event_name x"
  using assms
proof (induction rule: reached.induct)
  case start
  then show ?case by (simp add: marker_there_def idle_def)
next
  case (act as s a)
  from act.prems(1) have before: "keeps_runs env as xs" unfolding keeps_runs_def by auto
  show ?case
  proof (cases a)
    case (DeliverResult att)
    obtain net r q where att: "att = (net, r, q)" by (cases att)
    note a = DeliverResult[unfolded att] and eff = deliver_effect[of r net env s q]
    have "DeliverResult (net, r, q) \<in> set (as @ [a])" by (simp add: a)
    note kept = keeps_runs_at[OF act.prems(1) this act.prems(2)]
    show ?thesis
      using eff
    proof (cases rule: effect_cases)
      case nothing
      with act before show ?thesis by (metis a views(3,4) host.surjective old.unit.exhaust)
    next
      case (raised y ev)
      have "tf_raised (perform env a s) = tf_raised s @ [ev]" using raised(2) by (simp add: a del: perform.simps)
      moreover have "x = y \<or> marker_there (pe_intake env) x (host_view s)"
        using claimed_markers[OF raised(1), of x] act.prems(3) by (simp add: a del: perform.simps)
      ultimately show ?thesis using act.IH[OF before act.prems(2)] raised(3) by auto
    next
      case (refused y ev e)
      with kept have "x \<noteq> y" by auto
      then have "marker_there (pe_intake env) x (host_view s)"
        using claimed_markers[OF refused(1), of x] act.prems(3) by (simp add: a del: perform.simps)
      moreover have "tf_raised (perform env a s) = tf_raised s" using refused(2) by (simp add: a del: perform.simps)
      ultimately show ?thesis using act.IH[OF before act.prems(2)] by simp
    qed
  qed (use act before in \<open>simp_all add: stage_keeps store_keeps dispatch_keeps del: perform.simps\<close>)
qed

lemma reported_event:
  assumes w: "wired env" and r: "reached env as s" and ok: "keeps_runs env as xs" and x: "x \<in> set xs"
    and rep: "reported env as x" and own: "\<And>di now. dispatched as di now \<Longrightarrow> di_run_id di = x \<Longrightarrow> di_batch_id di = b"
  shows "\<exists>ev \<in> set (tf_raised s). re_name ev = run_event_name x \<and> re_instance ev = JStr b"
proof -
  obtain ev where ev: "ev \<in> set (tf_raised s)" "re_name ev = run_event_name x"
    using claimed_raised[OF r ok x reported_claimed[OF w r rep]] by blast
  then have "caused as ev" using traffic_inv_reached[OF w r] by (simp add: traffic_inv_def)
  with ev own show ?thesis unfolding caused_def by auto
qed

end
