(* ===== verification/PlatformProperties.thy ===== *)
theory PlatformProperties
  imports PlatformLaws LiveProperties EngineLoop EndToEnd Announcements
begin

text \<open>
  A batch over the whole back end: the orchestrator with its activities, its results coming
  through the result intake. Nothing is assumed of what arrives at the intake; what the intake
  lets through is what the loop of the orchestrator can use.
\<close>

subsection \<open>The orchestrator with its activities\<close>

definition stage_activity :: "platform_env \<Rightarrow> string \<Rightarrow> json \<Rightarrow> string result" where
  "stage_activity env batch_id v =
     (case py_or v (JStr []) of
        JStr t \<Rightarrow> snd (prepare_prompt_blob (pe_dispatch env) batch_id t no_platform)
      | _ \<Rightarrow> Inl AttributeError)"

definition dispatch_activity :: "platform_env \<Rightarrow> (dispatch_input \<Rightarrow> string) \<Rightarrow> (dispatch_input \<Rightarrow> string) \<Rightarrow> dispatch_input \<Rightarrow> string result" where
  "dispatch_activity env now mid di = dispatch_result (pe_dispatch env) di (now di) (mid di)"

definition finalize_activity :: "platform_env \<Rightarrow> finalize_input \<Rightarrow> cv_block list result" where
  "finalize_activity env fi = snd (finalize_batch (pe_finalize env) fi Map.empty)"

text \<open>\<open>now\<close> and \<open>mid\<close> are the clock and the message id of each dispatch, \<open>clock\<close> the orchestrator's.\<close>

definition run_batch ::
  "platform_env \<Rightarrow> (string \<Rightarrow> string) \<Rightarrow> ctx \<Rightarrow> (dispatch_input \<Rightarrow> string) \<Rightarrow> (dispatch_input \<Rightarrow> string) \<Rightarrow>
   (nat \<Rightarrow> string) \<Rightarrow> orch_input \<Rightarrow> delivery list \<Rightarrow> cv_block list outcome" where
  "run_batch env uuid5 c now mid clock inp ds =
     batch_orchestrator uuid5 c (stage_activity env (in_batch_id inp)) (dispatch_activity env now mid)
       (finalize_activity env) clock inp ds"

lemma finalize_activity_Inr: "finalize_activity env fi = Inr doc \<Longrightarrow> finalize_document (pe_finalize env) fi = Inr doc"
  unfolding finalize_activity_def by (metis finalize_batch_Inr(1) prod.collapse)

lemma finalize_activity_reliable:
  assumes "fz_net (pe_finalize env) = reliable"
  shows "finalize_activity env = finalize_document (pe_finalize env)"
proof
  fix fi
  show "finalize_activity env fi = finalize_document (pe_finalize env) fi"
    by (cases "finalize_document (pe_finalize env) fi") (simp_all add: finalize_activity_def finalize_batch_def assms)
qed

lemma dispatch_activity_own: "returns_own_id (dispatch_activity env now mid)"
proof -
  have "x = di_run_id di" if "dispatch_result (pe_dispatch env) di t m = Inr x" for di t m x
    using that unfolding dispatch_result_def
    by (cases rule: dispatch_run_cases[of "pe_dispatch env" t m di no_platform]) simp_all
  then show ?thesis by (simp add: returns_own_id_def dispatch_activity_def)
qed

lemma dispatch_succeeds:
  assumes "di_correlation_id di = JStr cid" and "di_traceparent di = JStr tp"
    and "verify_input_blob_sha256 denv (di_blob_uri di) (di_sha256 di) = Inr ()"
    and "\<And>m. de_send denv m = Inr ()" and "de_net denv = reliable"
  shows "dispatch_result denv di now mid = Inr (di_run_id di)"
  using assms by (simp add: dispatch_result_def dispatch_run_def send_run_message_def Let_def)

text \<open>The plan of a batch dispatches when its documents are what they were declared to be.\<close>

lemma plan_dispatches:
  assumes "input_correlation inp = JStr cid" and "input_traceparent inp = JStr tp"
    and "\<forall>cv \<in> set (in_cvs inp). verify_input_blob_sha256 (pe_dispatch env) (cv_blobUri cv) (cv_sha256 cv) = Inr ()"
    and "\<And>m. de_send (pe_dispatch env) m = Inr ()" and "de_net (pe_dispatch env) = reliable"
  shows "dispatches_plan (dispatch_activity env now mid) uuid5 inp"
proof -
  have "dispatch_activity env now mid (dispatch_input_of inp uri e) = Inr (di_run_id (dispatch_input_of inp uri e))"
    if e: "e \<in> set (run_plan uuid5 inp)" for uri e
  proof -
    obtain x cv i where xe: "e = (x, cv, i)" by (cases e)
    with e have "cv \<in> set (in_cvs inp)" by (auto simp: run_plan_def)
    with assms(3) have "verify_input_blob_sha256 (pe_dispatch env) (di_blob_uri (dispatch_input_of inp uri e))
        (di_sha256 (dispatch_input_of inp uri e)) = Inr ()" by (simp add: xe dispatch_input_of_def)
    then show ?thesis
      unfolding dispatch_activity_def
      by (rule dispatch_succeeds[rotated 2]) (simp_all add: assms(1,2,4,5) xe dispatch_input_of_def)
  qed
  then show ?thesis by (auto simp: dispatches_plan_def)
qed

lemma stage_activity_text:
  assumes "py_or v (JStr []) = JStr t" and "de_net (pe_dispatch env) = reliable"
  shows "stage_activity env b v = Inr (de_url (pe_dispatch env) (de_container (pe_dispatch env), batch_prompt_path b))"
  using assms by (simp add: stage_activity_def prepare_prompt_blob_def Let_def)

text \<open>
  No activity is called with a retry policy: when the index blob of one run cannot be written, or
  only the answer is lost, the whole batch has failed, whatever the other runs report.
\<close>

lemma lost_index_write_fails_batch:
  assumes e: "e \<in> set (run_plan uuid5 inp)"
    and lost: "de_net (pe_dispatch env) (indexes env (fst e)) \<noteq> Answered"
  shows "\<exists>err. run_batch env uuid5 c now mid clock inp ds = Failed err"
proof -
  have "dispatch_activity env now mid (dispatch_input_of inp uri e) \<noteq> Inr y" for uri y
  proof
    let ?di = "dispatch_input_of inp uri e"
    have x: "di_run_id ?di = fst e" by (cases e) (simp add: dispatch_input_of_def)
    assume "dispatch_activity env now mid ?di = Inr y"
    then have "de_net (pe_dispatch env) (de_container (pe_dispatch env), run_index_path (di_run_id ?di)) = Answered"
      by (auto simp: dispatch_activity_def dispatch_result_def dispatch_run_def split: json.splits sum.splits prod.splits
          dest: put_Inr)
    with lost show False by (simp add: indexes_def x)
  qed
  with e have "\<forall>o0. orch_start uuid5 c stage (dispatch_activity env now mid) t0 t1 inp \<noteq> Inr o0" for stage t0 t1
    by (auto simp: orch_start_def bind_res_Inr_iff Let_def dest: map_res_Inr_set)
  then show ?thesis
    by (cases "orch_start uuid5 c (stage_activity env (in_batch_id inp)) (dispatch_activity env now mid) (clock 0) (clock 1) inp")
       (simp_all add: run_batch_def batch_orchestrator_def)
qed

text \<open>The completions an instance receives in a state of the back end.\<close>

definition results_for ::
  "(nat list \<Rightarrow> nat) \<Rightarrow> (dict \<Rightarrow> json) \<Rightarrow> (nat \<Rightarrow> string) \<Rightarrow> (string \<Rightarrow> string) \<Rightarrow> orch_input \<Rightarrow> traffic \<Rightarrow> delivery list" where
  "results_for pick carry stamps uuid5 inp s =
     completions pick carry (in_batch_id inp) stamps (waiting (plan_tasks (run_plan uuid5 inp))) (tf_raised s)"

text \<open>The events that were raised for the runs of a batch.\<close>

definition own_events :: "(string \<Rightarrow> string) \<Rightarrow> orch_input \<Rightarrow> traffic \<Rightarrow> raised_event list" where
  "own_events uuid5 inp s =
     filter (\<lambda>ev. \<exists>x \<in> set (plan_tasks (run_plan uuid5 inp)). re_name ev = run_event_name x) (tf_raised s)"

lemma own_raised: "ev \<in> set (own_events uuid5 inp s) \<Longrightarrow> ev \<in> set (tf_raised s)"
  by (simp add: own_events_def)


lemma result_has_event:
  assumes "picks_one pick" and "(k, v, t) \<in> set (results_for pick carry stamps uuid5 inp s)"
  shows "\<exists>ev \<in> set (own_events uuid5 inp s). v = carry (re_payload ev)"
proof -
  from completion_has_event[OF assms(1) assms(2)[unfolded results_for_def]] obtain x ev where
    x: "(k, x) \<in> set (waiting (plan_tasks (run_plan uuid5 inp)))" "ev \<in> set (tf_raised s)"
      "re_name ev = run_event_name x" "v = carry (re_payload ev)" by blast
  then have "x \<in> set (plan_tasks (run_plan uuid5 inp))" by (auto simp: in_waiting)
  with x show ?thesis unfolding own_events_def by auto
qed

lemma results_sound:
  assumes "wired env" and "reached env as s" and "picks_one pick" and "carries c carry"
  shows "\<forall>d \<in> set (results_for pick carry stamps uuid5 inp s). sound c (plan_tasks (run_plan uuid5 inp)) d"
  unfolding results_for_def using platform_events.completions_sound[OF _ assms(3,4)] assms(1,2) by blast



subsection \<open>A batch of one run\<close>

definition solo_cv :: cv_ref where
  "solo_cv = \<lparr>cv_applicationId = ''x'', cv_documentId = ''d'', cv_fileName = ''cv.pdf'', cv_mimeType = ''application/pdf'',
     cv_blobUri = ''u'', cv_sha256 = replicate 64 CHR ''0''\<rparr>"

definition solo_input :: orch_input where
  "solo_input = \<lparr>in_batch_id = ''b1'', in_job_id = ''j'', in_run_count = 1,
     in_prompt = [(''kind'', JStr ''inline''), (''text'', JStr ''score'')], in_cvs = [solo_cv],
     in_correlationId = JStr ''c'', in_correlation_id = JNull, in_traceparent = JNull\<rparr>"

definition solo_dispatch :: dispatch_input where
  "solo_dispatch = dispatch_input_of solo_input ''p'' (''b1:x:0'', solo_cv, 0)"

definition solo_result :: run_result_message where
  "solo_result = \<lparr>rm_run_id = ''b1:x:0'', rm_status = ''Succeeded'', rm_duration_ms = 5, rm_tokens_prompt = 1,
     rm_tokens_completion = 2, rm_error_message = None, rm_correlation_id = ''c'', rm_traceparent = None,
     rm_artifacts = Some []\<rparr>"

definition solo_env :: platform_env where
  "solo_env = \<lparr>pe_dispatch = demo_dispatch_env\<lparr>de_sha256 := (\<lambda>b. replicate 64 CHR ''0'')\<rparr>, pe_intake = loop_intake, pe_finalize = pair_env\<rparr>"

definition solo_message :: sb_message where
  "solo_message = \<lparr>sb_body = json_dumps (JObj (dump_run_result solo_result)), sb_props = []\<rparr>"

definition solo_attempt :: attempt where
  "solo_attempt = (reliable, \<lambda>ev. Inr (), ViaServiceBus solo_message)"

definition solo_unheard :: attempt where
  "solo_unheard = ((\<lambda>k. RequestLost), \<lambda>ev. Inr (), ViaServiceBus solo_message)"

definition solo_actions :: "action list" where
  "solo_actions = [DispatchRun reliable solo_dispatch ''t'' ''m'', DeliverResult solo_unheard, DeliverResult solo_attempt,
     DeliverResult solo_attempt, DispatchRun (\<lambda>k. ReplyLost) solo_dispatch ''t2'' ''m2'']"

definition solo_after :: traffic where "solo_after = fold (perform solo_env) solo_actions idle"

lemma solo_reached: "reached solo_env solo_actions solo_after"
  by (simp add: reached_fold solo_after_def)

lemma solo_wired: "wired solo_env"
  by (simp add: wired_def solo_env_def loop_intake_def demo_dispatch_env_def)

lemma solo_plan: "run_plan (\<lambda>s. s) solo_input = [(''b1:x:0'', solo_cv, 0)]"
  by code_simp

lemma solo_tasks: "plan_tasks (run_plan (\<lambda>s. s) solo_input) = [''b1:x:0'']"
  by (simp add: solo_plan plan_tasks_def)

lemma solo_good: "good_batch (\<lambda>s. s) solo_input"
  unfolding good_batch_def solo_tasks by (simp add: solo_input_def)


lemma solo_verified: "verify_input_blob_sha256 (pe_dispatch solo_env) (cv_blobUri solo_cv) (cv_sha256 solo_cv) = Inr ()"
  by (simp add: verify_input_blob_sha256_def solo_env_def demo_dispatch_env_def solo_cv_def)

lemma solo_sends: "de_send (pe_dispatch solo_env) m = Inr ()"
  by (simp add: solo_env_def demo_dispatch_env_def)

lemma solo_strings: "input_correlation solo_input = JStr ''c''" "input_traceparent solo_input = JStr []"
  by (simp_all add: solo_input_def input_correlation_def input_traceparent_def py_or_def)

lemma solo_nets: "de_net (pe_dispatch solo_env) = reliable" "fz_net (pe_finalize solo_env) = reliable"
  by (simp_all add: solo_env_def demo_dispatch_env_def pair_env_def)


lemma solo_dispatched: "dispatch_result (pe_dispatch solo_env) (dispatch_input_of solo_input uri (''b1:x:0'', solo_cv, 0)) t m = Inr ''b1:x:0''"
  by (subst dispatch_succeeds) (simp_all add: dispatch_input_of_def solo_strings solo_verified solo_sends solo_nets)

lemma solo_staged: "stage_activity solo_env (in_batch_id solo_input) (dget_or (in_prompt solo_input) ''text'' (JStr [])) =
    Inr (batch_prompt_path ''b1'')"
proof -
  have "py_or (dget_or (in_prompt solo_input) ''text'' (JStr [])) (JStr []) = JStr ''score''"
    by (simp add: solo_input_def py_or_def)
  from stage_activity_text[OF this solo_nets(1)] show ?thesis
    by (simp add: solo_env_def demo_dispatch_env_def) (simp add: solo_input_def)
qed

lemma solo_dispatches: "dispatches_plan (dispatch_activity solo_env now mid) (\<lambda>s. s) solo_input"
  by (simp add: dispatches_plan_def dispatch_activity_def solo_plan solo_dispatched)



lemma solo_lossless: "loses_nothing solo_actions"
  by (auto simp: loses_nothing_def solo_actions_def solo_attempt_def solo_unheard_def reliable_def)




subsection \<open>What the traffic does to a batch\<close>

lemma delivered_events:
  assumes "picks_one pick" and "carries c carry" and "delivered c (results_for pick carry stamps uuid5 inp s) rr"
  shows "\<exists>ev \<in> set (own_events uuid5 inp s). rr = re_payload ev"
proof -
  from assms(3) obtain k v t where d: "(k, v, t) \<in> set (results_for pick carry stamps uuid5 inp s)"
    and rr: "coerce_run_result_payload (c_loads c) v = Inr rr" by (auto simp: delivered_def)
  from result_has_event[OF assms(1) d] obtain ev where
    "ev \<in> set (own_events uuid5 inp s)" "v = carry (re_payload ev)" by blast
  with rr assms(2) show ?thesis by (auto simp: carries_def)
qed

text \<open>The document of a completed batch is made of the payloads of raised events.\<close>

lemma completed_document:
  assumes "run_batch env uuid5 c now mid clock inp (results_for pick carry stamps uuid5 inp s) = Completed o2 doc"
    and "picks_one pick" and "carries c carry"
  shows "o_custom o2 = o_progress o2"
    and "\<exists>trs. finalize_document (pe_finalize env) \<lparr>fi_batch_id = in_batch_id inp, fi_cvs = in_cvs inp, fi_run_results = trs\<rparr> = Inr doc \<and>
      (\<forall>tr \<in> set trs. \<exists>ev \<in> set (tf_raised s). tr_result tr = re_payload ev)"
proof -
  let ?ds = "results_for pick carry stamps uuid5 inp s"
  from assms(1) obtain o0 o1 where st: "orch_start uuid5 c (stage_activity env (in_batch_id inp)) (dispatch_activity env now mid) (clock 0) (clock 1) inp = Inr o0"
    and run: "collect c ?ds o0 = Inr (Drained o1)"
    and fin: "orch_finish c (finalize_activity env) (clock 2) (clock 3) inp o1 = Inr (o2, doc)"
    unfolding run_batch_def by (rule completed_cases)
  from fin obtain trs where tag: "tag_results (c_map c) (o_results o1) = Inr trs"
    and doc: "finalize_document (pe_finalize env) \<lparr>fi_batch_id = in_batch_id inp, fi_cvs = in_cvs inp, fi_run_results = trs\<rparr> = Inr doc"
    and "o_custom o2 = o_progress o2"
    by (auto simp: orch_finish_def bind_res_Inr_iff emit_def Let_def dest: finalize_activity_Inr)
  then show "o_custom o2 = o_progress o2" by blast
  have "\<forall>rr \<in> set (o_results o1). delivered c ?ds rr"
    by (rule collect_results_from[OF run]) (auto simp: orch_start_base(3)[OF st] delivered_def)
  then have "\<forall>rr \<in> set (o_results o1). \<exists>ev \<in> set (tf_raised s). rr = re_payload ev"
    using delivered_events[OF assms(2,3)] own_raised by blast
  moreover have "trs = map (tag_of (c_map c)) (o_results o1)" using tag by (rule tag_results_map)
  ultimately have "\<forall>tr \<in> set trs. \<exists>ev \<in> set (tf_raised s). tr_result tr = re_payload ev" by (simp add: tag_of_def Let_def)
  with doc show "\<exists>trs. finalize_document (pe_finalize env) \<lparr>fi_batch_id = in_batch_id inp, fi_cvs = in_cvs inp, fi_run_results = trs\<rparr> = Inr doc \<and>
      (\<forall>tr \<in> set trs. \<exists>ev \<in> set (tf_raised s). tr_result tr = re_payload ev)" by blast
qed


lemma traffic_outcome:
  assumes good: "good_batch uuid5 inp" and w: "wired env" and r: "reached env as s"
    and stage: "stage_activity env (in_batch_id inp) (dget_or (in_prompt inp) ''text'' (JStr [])) = Inr uri"
    and plan: "dispatches_plan (dispatch_activity env now mid) uuid5 inp"
    and c: "c = make_ctx uuid5 pf (project_live_progress lenv lst lv) inp" and live: "contained lenv"
    and pick: "picks_one pick" and carry: "carries c carry"
  shows "case run_batch env uuid5 c now mid clock inp (results_for pick carry stamps uuid5 inp s) of
      Running o1 \<Rightarrow> o_pending o1 \<noteq> [] \<and> o_custom o1 = o_progress o1 \<and>
        p_runsDispatched (o_progress o1) = length (in_cvs inp) * in_run_count inp \<and>
        p_runsCompleted (o_progress o1) + length (o_pending o1) = length (in_cvs inp) * in_run_count inp \<and>
        p_cvsCompleted (o_progress o1) = length (o_emitted o1) \<and>
        next_event_sequence (o_custom o1) = Suc (length (o_events o1))
    | Failed e \<Rightarrow> \<exists>trs. length trs = length (in_cvs inp) * in_run_count inp \<and>
        finalize_activity env \<lparr>fi_batch_id = in_batch_id inp, fi_cvs = in_cvs inp, fi_run_results = trs\<rparr> = Inl e
    | Completed o1 doc \<Rightarrow> p_runsCompleted (o_progress o1) = length (in_cvs inp) * in_run_count inp \<and> length doc = length (in_cvs inp)"
proof -
  let ?tasks = "plan_tasks (run_plan uuid5 inp)" and ?n = "length (in_cvs inp) * in_run_count inp"
  let ?ds = "results_for pick carry stamps uuid5 inp s" and ?fin = "finalize_activity env"
  have cm: "c_map c = run_index_map (run_plan uuid5 inp)" by (simp add: c make_ctx_def)
  have pr: "projects c" using contained_projects[OF live] by (simp add: projects_def c make_ctx_def)
  obtain o0 where st: "orch_start uuid5 c (stage_activity env (in_batch_id inp)) (dispatch_activity env now mid) (clock 0) (clock 1) inp = Inr o0"
    using start_succeeds[where stage = "stage_activity env (in_batch_id inp)", OF pr stage dispatch_activity_own plan] by blast
  have inv0: "exact_inv uuid5 inp o0" by (rule exact_start[OF good dispatch_activity_own st])
  note ds = results_sound[OF w r pick carry, of stamps uuid5 inp]
  obtain q where q: "collect c ?ds o0 = Inr q" using collect_proceeds[OF good cm inv0 pr ds] by blast
  have m: "\<forall>d \<in> set ?ds. matched c ?tasks d" using ds sound_matched by blast
  obtain o1 where o1: "q = Waiting o1 \<or> q = Drained o1 \<and> o_pending o1 = []" and inv: "exact_inv uuid5 inp o1"
    using exact_collect[OF good cm inv0 m q] by blast
  have n: "length ?tasks = ?n" by (simp add: length_plan_tasks)
  note tot = exact_totals[OF inv] and ann = exact_announced[OF good inv]
  have cust: "o_custom o1 = o_progress o1" "length (o_events o1) = o_seq o1"
    using inv by (simp_all add: exact_inv_def base_inv_def events_numbered_length)
  show ?thesis
  proof (cases "q = Waiting o1")
    case True
    then have "run_batch env uuid5 c now mid clock inp ?ds = Running o1"
      using st q by (simp add: run_batch_def batch_orchestrator_def)
    moreover have "o_pending o1 \<noteq> []" using collect_waiting[OF q[unfolded True]] by blast
    ultimately show ?thesis using tot ann cust n by simp
  next
    case False
    with o1 have q': "q = Drained o1" "o_pending o1 = []" by auto
    obtain trs where tag: "tag_results (c_map c) (o_results o1) = Inr trs" "map tr_result trs = o_results o1"
      using tag_results_succeeds[OF good cm inv] by blast
    have done_all: "p_runsCompleted (o_progress o1) = ?n" using tot q'(2) n by simp
    have "length trs = ?n"
      using arg_cong[OF tag(2), of length] inv done_all by (simp add: exact_inv_def results_ok_def)
    moreover from finish_succeeds[OF pr tag(1), of ?fin "clock 2" "clock 3" inp] obtain ev stt where
      fi: "orch_finish c ?fin (clock 2) (clock 3) inp o1 =
        (case ?fin \<lparr>fi_batch_id = in_batch_id inp, fi_cvs = in_cvs inp, fi_run_results = trs\<rparr> of
           Inl e \<Rightarrow> Inl e | Inr doc \<Rightarrow> Inr (finished o1 stt (clock 2) ev, doc))" by blast
    ultimately show ?thesis
      using st q q'(1) done_all finalize_length[OF finalize_activity_Inr]
      by (cases "?fin \<lparr>fi_batch_id = in_batch_id inp, fi_cvs = in_cvs inp, fi_run_results = trs\<rparr>")
         (auto simp: run_batch_def batch_orchestrator_def finished_def)
  qed
qed


subsection \<open>The properties\<close>


text \<open>The actions of the batch of one run, and a redelivery of its result for which the answer
  to every call but the upload of its marker is lost and every other event refused.\<close>

definition solo_noisy :: attempt where
  "solo_noisy = ((\<lambda>k. if k = (ie_container loop_intake, result_marker_path ''b1:x:0'') then Answered else ReplyLost),
     (\<lambda>ev. if re_name ev = run_event_name ''b1:x:0'' then Inr () else Inl TransportError), ViaServiceBus solo_message)"



lemma lossless_attempt: "loses_nothing as \<Longrightarrow> DeliverResult a \<in> set as \<Longrightarrow> fst a k \<noteq> ReplyLost"
  unfolding loses_nothing_def by (metis prod.collapse)

lemma solo_loses: "\<not> loses_nothing (solo_actions @ [DeliverResult solo_noisy])"
proof
  assume "loses_nothing (solo_actions @ [DeliverResult solo_noisy])"
  from lossless_attempt[OF this, of solo_noisy "(ie_container loop_intake, run_index_path [])"] show False
    by (simp add: solo_noisy_def)
qed




text \<open>C4: nothing that arrives at the intake can break a batch: after any traffic at all, with no
  assumption on what was reported, an instance of a batch with distinct run ids whose dispatches
  succeeded is either still waiting, and then the published counters are exact and the number of
  the next event is the next unused one, or all its runs have a result and what comes next is up
  to \<^verbatim>\<open>finalize_batch\<close> alone.\<close>

theorem traffic_never_breaks_batch:
  assumes good: "good_batch uuid5 inp" and w: "wired env" and r: "reached env as s"
    and stage: "stage_activity env (in_batch_id inp) (dget_or (in_prompt inp) ''text'' (JStr [])) = Inr uri"
    and plan: "dispatches_plan (dispatch_activity env now mid) uuid5 inp"
    and c: "c = make_ctx uuid5 pf (project_live_progress lenv lst lv) inp" and live: "contained lenv"
    and pick: "picks_one pick" and carry: "carries c carry"
  shows "case run_batch env uuid5 c now mid clock inp (results_for pick carry stamps uuid5 inp s) of
      Running o1 \<Rightarrow> o_pending o1 \<noteq> [] \<and> o_custom o1 = o_progress o1 \<and>
        p_runsDispatched (o_progress o1) = length (in_cvs inp) * in_run_count inp \<and>
        p_runsCompleted (o_progress o1) + length (o_pending o1) = length (in_cvs inp) * in_run_count inp \<and>
        p_cvsCompleted (o_progress o1) = length (o_emitted o1) \<and>
        next_event_sequence (o_custom o1) = Suc (length (o_events o1))
    | Failed e \<Rightarrow> \<exists>trs. length trs = length (in_cvs inp) * in_run_count inp \<and>
        finalize_activity env \<lparr>fi_batch_id = in_batch_id inp, fi_cvs = in_cvs inp, fi_run_results = trs\<rparr> = Inl e
    | Completed o1 doc \<Rightarrow> p_runsCompleted (o_progress o1) = length (in_cvs inp) * in_run_count inp \<and> length doc = length (in_cvs inp)"
  by (rule traffic_outcome[OF assms])

theorem traffic_never_breaks_batch_witness:
  "case run_batch solo_env (\<lambda>s. s) (make_ctx (\<lambda>s. s) (\<lambda>t. None) (project_live_progress live_down live_on \<lparr>lv_posts = [], lv_counted = []\<rparr>) solo_input)
      (\<lambda>di. ''t'') (\<lambda>di. ''m'') (\<lambda>n. ''t'') solo_input (results_for hd JObj (\<lambda>n. ''t'') (\<lambda>s. s) solo_input solo_after) of
      Running o1 \<Rightarrow> p_runsCompleted (o_progress o1) + length (o_pending o1) = 1
    | Failed e \<Rightarrow> \<exists>trs. length trs = 1 \<and>
        finalize_document pair_env \<lparr>fi_batch_id = ''b1'', fi_cvs = [solo_cv], fi_run_results = trs\<rparr> = Inl e
    | Completed o1 doc \<Rightarrow> p_runsCompleted (o_progress o1) = 1 \<and> length doc = 1"
proof -
  let ?c = "make_ctx (\<lambda>s. s) (\<lambda>t. None) (project_live_progress live_down live_on \<lparr>lv_posts = [], lv_counted = []\<rparr>) solo_input"
  have live: "contained live_down" by (simp add: contained_def live_down_def)
  have pick: "picks_one hd" by (simp add: picks_one_def)
  have carry: "carries ?c JObj" by (simp add: carries_def coerce_run_result_payload_def)
  have n: "length (in_cvs solo_input) = 1" "in_run_count solo_input = 1" "in_batch_id solo_input = ''b1''" "in_cvs solo_input = [solo_cv]"
    "finalize_activity solo_env = finalize_document pair_env"
    by (simp_all add: solo_input_def finalize_activity_reliable[OF solo_nets(2)]) (simp add: solo_env_def)
  from traffic_never_breaks_batch[where now = "\<lambda>di. ''t''" and mid = "\<lambda>di. ''m''" and clock = "\<lambda>n. ''t''" and stamps = "\<lambda>n. ''t''",
      OF solo_good solo_wired solo_reached solo_staged solo_dispatches refl live pick carry]
  show ?thesis by (simp add: n split: outcome.splits)
qed

text \<open>C8: two CVs of a submission with the same application id share their run ids. The result
  intake raises one event per run id, so of the tasks that wait for it only one is ever answered,
  and such a batch never completes, whatever traffic there is.\<close>

theorem duplicate_ids_never_complete:
  assumes "wired env" and "reached env as s" and "picks_one pick"
    and "m < n" and "n < length (in_cvs inp)" and "0 < in_run_count inp"
    and "cv_applicationId (in_cvs inp ! m) = cv_applicationId (in_cvs inp ! n)"
  shows "run_batch env uuid5 c now mid clock inp (results_for pick carry stamps uuid5 inp s) \<noteq> Completed o2 doc"
  unfolding run_batch_def
proof (rule duplicate_tasks_stuck[OF assms(4-7)], intro ballI impI)
  fix d d'
  assume "d \<in> set (results_for pick carry stamps uuid5 inp s)" "d' \<in> set (results_for pick carry stamps uuid5 inp s)"
    "plan_tasks (run_plan uuid5 inp) ! fst d = plan_tasks (run_plan uuid5 inp) ! fst d'"
  then show "fst d = fst d'"
    unfolding results_for_def using platform_events.completions_once[OF _ assms(3)] assms(1,2) by blast
qed

theorem duplicate_ids_never_complete_witness:
  "\<forall>c now mid clock stamps o2 doc. run_batch solo_env (\<lambda>s. s) c now mid clock (solo_input\<lparr>in_cvs := [solo_cv, solo_cv]\<rparr>)
      (results_for hd JObj stamps (\<lambda>s. s) (solo_input\<lparr>in_cvs := [solo_cv, solo_cv]\<rparr>) solo_after) \<noteq> Completed o2 doc"
  by (intro allI, rule duplicate_ids_never_complete[OF solo_wired solo_reached, of hd 0 1]) (simp_all add: picks_one_def solo_input_def)

end
