(* ===== verification/RunMessages.thy ===== *)
theory RunMessages
  imports Contracts
begin

text \<open>
  The whole \<^verbatim>\<open>RunMessage\<close> contract of \<^verbatim>\<open>orchestrator/sb_contracts.py\<close>, with its
  nested models. A model with \<^verbatim>\<open>extra="allow"\<close> keeps the undeclared items of the
  payload, in order, and dumps them after its fields; \<^verbatim>\<open>extra="forbid"\<close> refuses them.
  The engine reads with these models what the platform's messages are dumped to.
\<close>

subsection \<open>The models\<close>

record run_profile =
  pr_join_mode :: "string option"
  pr_json_template_blob_uri :: "string option"
  pr_extra :: dict

record output_params =
  op_results_container :: "string option"
  op_results_prefix :: "string option"
  op_extra :: dict

record aoai_params =
  ao_deployment :: "string option"
  ao_api_version :: "string option"
  ao_max_output_tokens :: "int option"
  ao_extra :: dict

record run_parameters =
  pm_cv_blob_uris :: "string list"
  pm_spec_blob_uri :: "string option"
  pm_prompt_blob_uri :: "string option"
  pm_run_profile :: "run_profile option"
  pm_return_artifacts :: "bool option"
  pm_output :: "output_params option"
  pm_aoai :: "aoai_params option"
  pm_extra :: dict

record engine_message =
  em_message_id :: string
  em_run_id :: string
  em_engine :: string
  em_parameters :: run_parameters
  em_correlation_id :: string
  em_enqueued_at :: string

definition profile_fields :: "string list" where
  "profile_fields = [''join_mode'', ''json_template_blob_uri'']"

definition output_fields :: "string list" where
  "output_fields = [''results_container'', ''results_prefix'']"

definition aoai_fields :: "string list" where
  "aoai_fields = [''deployment'', ''api_version'', ''max_output_tokens'']"

definition parameter_fields :: "string list" where
  "parameter_fields = [''cv_blob_uris'', ''spec_blob_uri'', ''prompt_blob_uri'', ''run_profile'', ''return_artifacts'',
     ''output'', ''aoai'']"

definition message_fields :: "string list" where
  "message_fields = [''message_id'', ''run_id'', ''engine'', ''parameters'', ''correlation_id'', ''enqueued_at'']"

subsection \<open>Validation\<close>

definition extras :: "string list \<Rightarrow> dict \<Rightarrow> dict" where
  "extras fs d = filter (\<lambda>p. fst p \<notin> set fs) d"

definition opt_model :: "(json \<Rightarrow> 'm result) \<Rightarrow> dict \<Rightarrow> string \<Rightarrow> 'm option result" where
  "opt_model validate d k =
     (case map_of d k of None \<Rightarrow> Inr None | Some JNull \<Rightarrow> Inr None | Some v \<Rightarrow> bind_res (validate v) (\<lambda>m. Inr (Some m)))"

fun strict_str :: "json \<Rightarrow> string result" where
  "strict_str (JStr s) = Inr s"
| "strict_str v = Inl ValidationError"

fun validate_profile :: "json \<Rightarrow> run_profile result" where
  "validate_profile (JObj d) =
     bind_res (opt_str d ''join_mode'') (\<lambda>j.
     bind_res (opt_str d ''json_template_blob_uri'') (\<lambda>t.
       Inr \<lparr>pr_join_mode = j, pr_json_template_blob_uri = t, pr_extra = extras profile_fields d\<rparr>))"
| "validate_profile v = Inl ValidationError"

fun validate_output :: "json \<Rightarrow> output_params result" where
  "validate_output (JObj d) =
     bind_res (opt_str d ''results_container'') (\<lambda>c.
     bind_res (opt_str d ''results_prefix'') (\<lambda>p.
       Inr \<lparr>op_results_container = c, op_results_prefix = p, op_extra = extras output_fields d\<rparr>))"
| "validate_output v = Inl ValidationError"

fun validate_aoai :: "json \<Rightarrow> aoai_params result" where
  "validate_aoai (JObj d) =
     bind_res (opt_str d ''deployment'') (\<lambda>n.
     bind_res (opt_str d ''api_version'') (\<lambda>v.
     bind_res (opt_int d ''max_output_tokens'') (\<lambda>t.
       Inr \<lparr>ao_deployment = n, ao_api_version = v, ao_max_output_tokens = t, ao_extra = extras aoai_fields d\<rparr>)))"
| "validate_aoai v = Inl ValidationError"

definition list_field :: "dict \<Rightarrow> string \<Rightarrow> string list result" where
  "list_field d k =
     (case map_of d k of None \<Rightarrow> Inr [] | Some (JList xs) \<Rightarrow> map_res strict_str xs | _ \<Rightarrow> Inl ValidationError)"

definition bool_field :: "dict \<Rightarrow> string \<Rightarrow> bool option \<Rightarrow> bool option result" where
  "bool_field d k v0 =
     (case map_of d k of None \<Rightarrow> Inr v0 | Some JNull \<Rightarrow> Inr None | Some (JBool b) \<Rightarrow> Inr (Some b) | _ \<Rightarrow> Inl ValidationError)"

fun validate_parameters :: "json \<Rightarrow> run_parameters result" where
  "validate_parameters (JObj d) =
     bind_res (list_field d ''cv_blob_uris'') (\<lambda>u.
     bind_res (opt_str d ''spec_blob_uri'') (\<lambda>s.
     bind_res (opt_str d ''prompt_blob_uri'') (\<lambda>p.
     bind_res (opt_model validate_profile d ''run_profile'') (\<lambda>r.
     bind_res (bool_field d ''return_artifacts'' (Some True)) (\<lambda>a.
     bind_res (opt_model validate_output d ''output'') (\<lambda>q.
     bind_res (opt_model validate_aoai d ''aoai'') (\<lambda>m.
       Inr \<lparr>pm_cv_blob_uris = u, pm_spec_blob_uri = s, pm_prompt_blob_uri = p, pm_run_profile = r,
            pm_return_artifacts = a, pm_output = q, pm_aoai = m, pm_extra = extras parameter_fields d\<rparr>)))))))"
| "validate_parameters v = Inl ValidationError"

fun validate_engine_message :: "json \<Rightarrow> engine_message result" where
  "validate_engine_message (JObj d) =
     (if extras message_fields d \<noteq> [] then Inl ValidationError
      else
        bind_res (req_str d ''message_id'') (\<lambda>i.
        bind_res (req_str d ''run_id'') (\<lambda>r.
        bind_res (req_str d ''engine'') (\<lambda>e.
        bind_res (case map_of d ''parameters'' of None \<Rightarrow> validate_parameters (JObj []) | Some v \<Rightarrow> validate_parameters v) (\<lambda>p.
        bind_res (req_str d ''correlation_id'') (\<lambda>c.
        bind_res (req_str d ''enqueued_at'') (\<lambda>t.
          Inr \<lparr>em_message_id = i, em_run_id = r, em_engine = e, em_parameters = p, em_correlation_id = c,
               em_enqueued_at = t\<rparr>)))))))"
| "validate_engine_message v = Inl ValidationError"

subsection \<open>Dumping\<close>

definition dump_profile :: "run_profile \<Rightarrow> json" where
  "dump_profile m =
     JObj ([(''join_mode'', dump_opt_str (pr_join_mode m)),
            (''json_template_blob_uri'', dump_opt_str (pr_json_template_blob_uri m))] @ pr_extra m)"

definition dump_output :: "output_params \<Rightarrow> json" where
  "dump_output m =
     JObj ([(''results_container'', dump_opt_str (op_results_container m)),
            (''results_prefix'', dump_opt_str (op_results_prefix m))] @ op_extra m)"

definition dump_aoai :: "aoai_params \<Rightarrow> json" where
  "dump_aoai m =
     JObj ([(''deployment'', dump_opt_str (ao_deployment m)), (''api_version'', dump_opt_str (ao_api_version m)),
            (''max_output_tokens'', dump_opt_int (ao_max_output_tokens m))] @ ao_extra m)"

fun dump_opt :: "('m \<Rightarrow> json) \<Rightarrow> 'm option \<Rightarrow> json" where
  "dump_opt dump None = JNull"
| "dump_opt dump (Some m) = dump m"

definition dump_parameters :: "run_parameters \<Rightarrow> json" where
  "dump_parameters m =
     JObj ([(''cv_blob_uris'', JList (map JStr (pm_cv_blob_uris m))), (''spec_blob_uri'', dump_opt_str (pm_spec_blob_uri m)),
            (''prompt_blob_uri'', dump_opt_str (pm_prompt_blob_uri m)), (''run_profile'', dump_opt dump_profile (pm_run_profile m)),
            (''return_artifacts'', dump_opt JBool (pm_return_artifacts m)), (''output'', dump_opt dump_output (pm_output m)),
            (''aoai'', dump_opt dump_aoai (pm_aoai m))] @ pm_extra m)"

definition dump_engine_message :: "engine_message \<Rightarrow> json" where
  "dump_engine_message m =
     JObj [(''message_id'', JStr (em_message_id m)), (''run_id'', JStr (em_run_id m)), (''engine'', JStr (em_engine m)),
           (''parameters'', dump_parameters (em_parameters m)), (''correlation_id'', JStr (em_correlation_id m)),
           (''enqueued_at'', JStr (em_enqueued_at m))]"

text \<open>The message \<^verbatim>\<open>dispatch_run\<close> builds: the parameters it does not set keep their defaults.\<close>

definition as_engine_message :: "run_message \<Rightarrow> engine_message" where
  "as_engine_message m =
     \<lparr>em_message_id = msg_message_id m, em_run_id = msg_run_id m, em_engine = msg_engine m,
      em_parameters = \<lparr>pm_cv_blob_uris = msg_cv_blob_uris m, pm_spec_blob_uri = None,
        pm_prompt_blob_uri = msg_prompt_blob_uri m, pm_run_profile = None, pm_return_artifacts = Some True,
        pm_output = None, pm_aoai = None, pm_extra = []\<rparr>,
      em_correlation_id = msg_correlation_id m, em_enqueued_at = msg_enqueued_at m\<rparr>"

subsection \<open>Laws\<close>

text \<open>An extra item is not a declared field.\<close>

definition undeclared :: "string list \<Rightarrow> dict \<Rightarrow> bool" where
  "undeclared fs e \<longleftrightarrow> (\<forall>p \<in> set e. fst p \<notin> set fs)"

fun message_ok :: "engine_message \<Rightarrow> bool" where
  "message_ok m \<longleftrightarrow>
     undeclared parameter_fields (pm_extra (em_parameters m)) \<and>
     (case pm_run_profile (em_parameters m) of None \<Rightarrow> True | Some r \<Rightarrow> undeclared profile_fields (pr_extra r)) \<and>
     (case pm_output (em_parameters m) of None \<Rightarrow> True | Some r \<Rightarrow> undeclared output_fields (op_extra r)) \<and>
     (case pm_aoai (em_parameters m) of None \<Rightarrow> True | Some r \<Rightarrow> undeclared aoai_fields (ao_extra r))"

lemma extras_dumped: "undeclared fs e \<Longrightarrow> set (map fst d) \<subseteq> set fs \<Longrightarrow> extras fs (d @ e) = e"
  by (auto simp: extras_def undeclared_def filter_empty_conv intro!: filter_True)

lemma opt_str_dumped: "map_of d k = Some (dump_opt_str x) \<Longrightarrow> opt_str d k = Inr x"
  by (cases x) (simp_all add: opt_str_def)

lemma opt_int_dumped: "map_of d k = Some (dump_opt_int x) \<Longrightarrow> opt_int d k = Inr x"
  by (cases x) (simp_all add: opt_int_def)

lemma validate_dump_profile: "undeclared profile_fields (pr_extra m) \<Longrightarrow> validate_profile (dump_profile m) = Inr m"
  by (simp add: dump_profile_def opt_str_dumped extras_dumped profile_fields_def del: append.simps(2))

lemma validate_dump_output: "undeclared output_fields (op_extra m) \<Longrightarrow> validate_output (dump_output m) = Inr m"
  by (simp add: dump_output_def opt_str_dumped extras_dumped output_fields_def del: append.simps(2))

lemma validate_dump_aoai: "undeclared aoai_fields (ao_extra m) \<Longrightarrow> validate_aoai (dump_aoai m) = Inr m"
  by (simp add: dump_aoai_def opt_str_dumped extras_dumped aoai_fields_def del: append.simps(2)) (simp add: opt_str_dumped opt_int_dumped)

lemma opt_model_dumped:
  assumes "map_of d k = Some (dump_opt dump x)" and "\<And>m. x = Some m \<Longrightarrow> validate (dump m) = Inr m \<and> is_dict (dump m)"
  shows "opt_model validate d k = Inr x"
proof (cases x)
  case (Some m)
  with assms(2) have "validate (dump m) = Inr m" "is_dict (dump m)" by simp_all
  with assms(1) Some show ?thesis by (cases "dump m") (simp_all add: opt_model_def)
qed (use assms(1) in \<open>simp add: opt_model_def\<close>)

lemma strict_strs: "map_res strict_str (map JStr xs) = Inr xs"
  by (induction xs) simp_all

lemma validate_dump_parameters:
  assumes "message_ok m"
  shows "validate_parameters (dump_parameters (em_parameters m)) = Inr (em_parameters m)"
proof -
  let ?p = "em_parameters m"
  define d where "d = [(''cv_blob_uris'', JList (map JStr (pm_cv_blob_uris ?p))), (''spec_blob_uri'', dump_opt_str (pm_spec_blob_uri ?p)),
      (''prompt_blob_uri'', dump_opt_str (pm_prompt_blob_uri ?p)), (''run_profile'', dump_opt dump_profile (pm_run_profile ?p)),
      (''return_artifacts'', dump_opt JBool (pm_return_artifacts ?p)), (''output'', dump_opt dump_output (pm_output ?p)),
      (''aoai'', dump_opt dump_aoai (pm_aoai ?p))] @ pm_extra ?p"
  have ex: "extras parameter_fields d = pm_extra ?p"
    unfolding d_def by (rule extras_dumped) (use assms in \<open>simp_all add: parameter_fields_def\<close>)
  have "list_field d ''cv_blob_uris'' = Inr (pm_cv_blob_uris ?p)"
    by (simp add: d_def list_field_def strict_strs)
  moreover have "opt_str d ''spec_blob_uri'' = Inr (pm_spec_blob_uri ?p)" "opt_str d ''prompt_blob_uri'' = Inr (pm_prompt_blob_uri ?p)"
    by (simp_all add: d_def opt_str_dumped)
  moreover have "opt_model validate_profile d ''run_profile'' = Inr (pm_run_profile ?p)"
    by (rule opt_model_dumped[of _ _ dump_profile])
       (use assms in \<open>auto simp: d_def validate_dump_profile\<close>, simp add: dump_profile_def)
  moreover have "bool_field d ''return_artifacts'' v = Inr (pm_return_artifacts ?p)" for v
    by (cases "pm_return_artifacts ?p") (simp_all add: d_def bool_field_def)
  moreover have "opt_model validate_output d ''output'' = Inr (pm_output ?p)"
    by (rule opt_model_dumped[of _ _ dump_output])
       (use assms in \<open>auto simp: d_def validate_dump_output\<close>, simp add: dump_output_def)
  moreover have "opt_model validate_aoai d ''aoai'' = Inr (pm_aoai ?p)"
    by (rule opt_model_dumped[of _ _ dump_aoai])
       (use assms in \<open>auto simp: d_def validate_dump_aoai\<close>, simp add: dump_aoai_def)
  ultimately have "validate_parameters (JObj d) = Inr ?p" by (simp add: ex)
  then show ?thesis by (simp add: d_def dump_parameters_def)
qed

lemma platform_message_dump: "dump_engine_message (as_engine_message m) = dump_run_message m"
  by (simp add: dump_engine_message_def dump_parameters_def as_engine_message_def dump_run_message_def)

text \<open>C17: the queue contract round-trips: the engine's reader gives back every message that was
  dumped, with every nested model and every extra item of a parameter model, so also the message
  the platform builds, which it reads as that message with the defaults for all the rest; and an
  item the contract does not declare at the top makes the message unreadable.\<close>

theorem run_message_roundtrip:
  assumes "message_ok m"
  shows "validate_engine_message (dump_engine_message m) = Inr m \<and>
    validate_engine_message (dump_run_message pm) = Inr (as_engine_message pm) \<and>
    (\<forall>d k v. (k, v) \<in> set d \<and> k \<notin> set message_fields \<longrightarrow> validate_engine_message (JObj d) = Inl ValidationError)"
proof (intro conjI allI impI)
  have rt: "validate_engine_message (dump_engine_message m) = Inr m" if "message_ok m" for m
  proof -
    have "extras message_fields [(''message_id'', a), (''run_id'', b), (''engine'', c), (''parameters'', d),
        (''correlation_id'', e), (''enqueued_at'', f)] = []" for a b c d e f
      by (simp add: extras_def message_fields_def)
    with validate_dump_parameters[OF that] show ?thesis by (simp add: dump_engine_message_def req_str_def)
  qed
  from rt[OF assms] show "validate_engine_message (dump_engine_message m) = Inr m" .
  have "message_ok (as_engine_message pm)" by (simp add: as_engine_message_def undeclared_def)
  from rt[OF this] show "validate_engine_message (dump_run_message pm) = Inr (as_engine_message pm)"
    by (simp add: platform_message_dump)
  show "validate_engine_message (JObj d) = Inl ValidationError" if "(k, v) \<in> set d \<and> k \<notin> set message_fields" for d k v
  proof -
    from that have "extras message_fields d \<noteq> []" by (force simp: extras_def filter_empty_conv)
    then show ?thesis by simp
  qed
qed

theorem run_message_roundtrip_witness:
  "validate_engine_message (dump_engine_message \<lparr>em_message_id = ''m'', em_run_id = ''r'', em_engine = ''awreason'',
      em_parameters = \<lparr>pm_cv_blob_uris = [''u''], pm_spec_blob_uri = None, pm_prompt_blob_uri = Some ''p'',
        pm_run_profile = Some \<lparr>pr_join_mode = Some ''j'', pr_json_template_blob_uri = None, pr_extra = [(''x'', JInt 1)]\<rparr>,
        pm_return_artifacts = None, pm_output = None,
        pm_aoai = Some \<lparr>ao_deployment = None, ao_api_version = Some ''v'', ao_max_output_tokens = Some 5, ao_extra = []\<rparr>,
        pm_extra = [(''y'', JNull)]\<rparr>,
      em_correlation_id = ''c'', em_enqueued_at = ''t''\<rparr>) = Inr \<lparr>em_message_id = ''m'', em_run_id = ''r'', em_engine = ''awreason'',
      em_parameters = \<lparr>pm_cv_blob_uris = [''u''], pm_spec_blob_uri = None, pm_prompt_blob_uri = Some ''p'',
        pm_run_profile = Some \<lparr>pr_join_mode = Some ''j'', pr_json_template_blob_uri = None, pr_extra = [(''x'', JInt 1)]\<rparr>,
        pm_return_artifacts = None, pm_output = None,
        pm_aoai = Some \<lparr>ao_deployment = None, ao_api_version = Some ''v'', ao_max_output_tokens = Some 5, ao_extra = []\<rparr>,
        pm_extra = [(''y'', JNull)]\<rparr>,
      em_correlation_id = ''c'', em_enqueued_at = ''t''\<rparr>"
  by (rule run_message_roundtrip[THEN conjunct1])
     (simp add: undeclared_def parameter_fields_def profile_fields_def aoai_fields_def)

end
