(* ===== verification/Telemetry.thy ===== *)
theory Telemetry
  imports Problems JsonLaws
begin

text \<open>
  The log lines and the start-up of \<^verbatim>\<open>runtime/telemetry.py\<close>, with the lifespan hook and
  \<^verbatim>\<open>/health\<close> of \<^verbatim>\<open>api/main.py\<close>. A log record is what the logging module hands
  to a formatter; the handlers of the root logger are the state.
\<close>

subsection \<open>Lifecycle events\<close>

record lifecycle_event =
  lc_stage :: string
  lc_status :: string
  lc_batch_id :: string
  lc_run_id :: string
  lc_application_id :: string
  lc_correlation_id :: string
  lc_traceparent :: string

definition lifecycle_message :: "lifecycle_event \<Rightarrow> string" where
  "lifecycle_message e =
     ''lifecycle stage='' @ lc_stage e @ '' status='' @ lc_status e @ '' batch_id='' @ lc_batch_id e @
     '' run_id='' @ lc_run_id e @ '' application_id='' @ lc_application_id e @
     '' correlation_id='' @ lc_correlation_id e @ '' traceparent='' @ lc_traceparent e"

subsection \<open>The formatter\<close>

text \<open>\<open>lg_message\<close> is \<^verbatim>\<open>record.getMessage()\<close>, \<open>lg_exception\<close> the formatted exception
  when the record has one, \<open>lg_no\<close> the numeric level.\<close>

record log_record =
  lg_time :: string
  lg_no :: nat
  lg_level :: string
  lg_logger :: string
  lg_message :: string
  lg_exception :: "string option"

definition log_object :: "string \<Rightarrow> log_record \<Rightarrow> json" where
  "log_object cid r =
     JObj ([(''timestamp'', JStr (lg_time r)), (''level'', JStr (lg_level r)), (''logger'', JStr (lg_logger r)),
            (''message'', JStr (lg_message r)), (''correlationId'', JStr cid)] @
       (case lg_exception r of None \<Rightarrow> [] | Some t \<Rightarrow> [(''exception'', JStr t)]))"

definition format_record :: "string \<Rightarrow> request_vars \<Rightarrow> log_record \<Rightarrow> string" where
  "format_record fresh v r = json_dumps (log_object (get_correlation_id fresh v) r)"

subsection \<open>The root logger and the exporters\<close>

datatype log_handler = JsonHandler | OtherHandler string

record logging_state =
  root_handlers :: "log_handler list"
  root_level :: nat

definition configure_json_logging :: "logging_state \<Rightarrow> logging_state" where
  "configure_json_logging s = s\<lparr>root_handlers := [JsonHandler], root_level := 20\<rparr>"

text \<open>The lines standard output gets for a record: the JSON handler's, each ended by a newline.\<close>

definition emit_record :: "string \<Rightarrow> request_vars \<Rightarrow> log_record \<Rightarrow> logging_state \<Rightarrow> string" where
  "emit_record fresh v r s =
     (if lg_no r < root_level s then []
      else concat (map (\<lambda>h. case h of JsonHandler \<Rightarrow> format_record fresh v r @ [CHR 0x0A] | OtherHandler _ \<Rightarrow> []) (root_handlers s)))"

datatype span_exporter = OtlpExporter string | AzureMonitorExporter string

record telemetry_env =
  te_otlp_installed :: bool
  te_azure_installed :: bool
  te_fastapi_installed :: bool
  te_connection_string :: string

record telemetry_state =
  ts_service :: string
  ts_exporters :: "span_exporter list"
  ts_instrumented :: bool
  ts_logging :: logging_state

definition setup_telemetry :: "telemetry_env \<Rightarrow> string \<Rightarrow> string \<Rightarrow> telemetry_state \<Rightarrow> telemetry_state" where
  "setup_telemetry env service endpoint s =
     (let otlp = (if endpoint \<noteq> [] \<and> te_otlp_installed env then [OtlpExporter endpoint] else []);
          azure = (if te_connection_string env \<noteq> [] \<and> te_azure_installed env
            then [AzureMonitorExporter (te_connection_string env)] else [])
      in \<lparr>ts_service = service, ts_exporters = otlp @ azure,
          ts_instrumented = (ts_instrumented s \<or> te_fastapi_installed env),
          ts_logging = configure_json_logging (ts_logging s)\<rparr>)"

definition lifespan_start :: "telemetry_env \<Rightarrow> string \<Rightarrow> telemetry_state \<Rightarrow> telemetry_state" where
  "lifespan_start env otlp_endpoint s = setup_telemetry env ''awr-platform-api'' otlp_endpoint s"

definition health :: "http_answer" where
  "health = \<lparr>an_status = 200, an_body = [(''status'', JStr ''ok'')], an_media = ''application/json'', an_headers = []\<rparr>"

subsection \<open>Laws\<close>

definition printable :: "string \<Rightarrow> bool" where
  "printable s \<longleftrightarrow> (\<forall>c \<in> set s. 32 \<le> codept c \<and> codept c \<le> 126)"

lemma printable_simps [simp]:
  "printable []" "printable (c # s) \<longleftrightarrow> 32 \<le> codept c \<and> codept c \<le> 126 \<and> printable s"
  "printable (s @ t) \<longleftrightarrow> printable s \<and> printable t"
  by (auto simp: printable_def)

lemma codept_CHR: "codept (char_of (n::nat)) = n mod 256"
  by (simp add: codept_def)

lemma printable_concat: "printable (concat ss) \<longleftrightarrow> (\<forall>s \<in> set ss. printable s)"
  by (auto simp: printable_def)

lemma printable_join: "printable sep \<Longrightarrow> printable (join sep ss) \<longleftrightarrow> (\<forall>s \<in> set ss. printable s)"
  by (induction sep ss rule: join.induct) auto

lemma printable_digit: "d < 16 \<Longrightarrow> 32 \<le> codept (digit_char d) \<and> codept (digit_char d) \<le> 126"
  using codept_digit[of d] by (cases "d < 10") simp_all

lemma printable_escape: "printable (json_escape c)"
proof -
  have "codept c div 16 < 16" "codept c mod 16 < 16" using codept_bound[of c] by simp_all
  note d = this[THEN printable_digit]
  have k: "codept CHR 0x5C = 92" "codept CHR 0x22 = 34" "codept CHR ''u'' = 117" "codept CHR ''0'' = 48" "codept CHR ''n'' = 110"
    "codept CHR ''r'' = 114" "codept CHR ''t'' = 116" "codept CHR ''f'' = 102" "codept CHR ''b'' = 98"
    by (simp_all add: codept_def)
  show ?thesis using d by (simp add: json_escape_def k)
qed

lemma printable_json_str: "printable (json_str s)"
proof -
  have "codept CHR 0x22 = 34" by (simp add: codept_def)
  then show ?thesis by (simp add: json_str_def printable_concat printable_escape)
qed

lemma log_object_plain: "plain (log_object cid r)"
  by (cases "lg_exception r") (simp_all add: log_object_def)

lemma printable_log_object: "printable (json_dumps (log_object cid r))"
proof -
  have c: "codept CHR ''{'' = 123" "codept CHR ''}'' = 125" "codept CHR '','' = 44" "codept CHR '' '' = 32" "codept CHR '':'' = 58"
    by (simp_all add: codept_def)
  then have sep: "printable '', ''" "printable '': ''" by simp_all
  show ?thesis
    by (cases "lg_exception r")
       (simp_all add: log_object_def json_text.simps c sep printable_join printable_json_str)
qed

lemma log_object_fields:
  "log_object cid r = JObj d \<Longrightarrow>
    dget d ''timestamp'' = JStr (lg_time r) \<and> dget d ''level'' = JStr (lg_level r) \<and> dget d ''logger'' = JStr (lg_logger r) \<and>
    dget d ''message'' = JStr (lg_message r) \<and> dget d ''correlationId'' = JStr cid \<and>
    dget d ''exception'' = (case lg_exception r of None \<Rightarrow> JNull | Some t \<Rightarrow> JStr t)"
  by (cases "lg_exception r") (auto simp: log_object_def dget_def)

text \<open>C39: nothing that is logged can forge or break a log record: whatever the message, the
  exception text or the client's correlation id, one record is one line of printable ASCII, and
  reading the line back gives the record's own time, level, logger, message and exception text,
  and under \<^verbatim>\<open>correlationId\<close> the correlation id of the request, or a fresh one when
  there is none. Records below the level \<^verbatim>\<open>INFO\<close> give no line.\<close>

theorem log_line_faithful:
  "\<exists>line d. emit_record fresh v r (configure_json_logging s) = (if lg_no r < 20 then [] else line @ [CHR 0x0A]) \<and>
    (\<forall>c \<in> set line. 32 \<le> codept c \<and> codept c \<le> 126) \<and>
    json_loads pf line = Some (JObj d) \<and>
    dget d ''timestamp'' = JStr (lg_time r) \<and> dget d ''level'' = JStr (lg_level r) \<and> dget d ''logger'' = JStr (lg_logger r) \<and>
    dget d ''message'' = JStr (lg_message r) \<and>
    dget d ''correlationId'' = JStr (if rv_correlation_id v \<noteq> [] then rv_correlation_id v else fresh) \<and>
    dget d ''exception'' = (case lg_exception r of None \<Rightarrow> JNull | Some t \<Rightarrow> JStr t)"
proof -
  let ?cid = "get_correlation_id fresh v" and ?line = "format_record fresh v r"
  obtain d where d: "log_object ?cid r = JObj d" by (simp add: log_object_def)
  have "emit_record fresh v r (configure_json_logging s) = (if lg_no r < 20 then [] else ?line @ [CHR 0x0A])"
    by (simp add: emit_record_def configure_json_logging_def)
  moreover have "\<forall>c \<in> set ?line. 32 \<le> codept c \<and> codept c \<le> 126"
    using printable_log_object by (simp add: format_record_def printable_def)
  moreover have "json_loads pf ?line = Some (JObj d)"
    unfolding format_record_def d[symmetric] by (rule json_roundtrip[OF log_object_plain])
  moreover have "?cid = (if rv_correlation_id v \<noteq> [] then rv_correlation_id v else fresh)"
    by (simp add: get_correlation_id_def str_or_def)
  ultimately show ?thesis using log_object_fields[OF d] by (intro exI[of _ ?line] exI[of _ d]) simp
qed

definition demo_record :: log_record where
  "demo_record = \<lparr>lg_time = ''t'', lg_no = 40, lg_level = ''ERROR'', lg_logger = ''api'',
     lg_message = ''a'' @ [CHR 0x0A] @ ''{forged}'', lg_exception = None\<rparr>"

theorem log_line_faithful_witness:
  "\<exists>line d. emit_record ''f'' \<lparr>rv_correlation_id = ''c'', rv_traceparent = []\<rparr> demo_record
        (configure_json_logging \<lparr>root_handlers = [OtherHandler ''h''], root_level = 30\<rparr>) = line @ [CHR 0x0A] \<and>
     (\<forall>c \<in> set line. 32 \<le> codept c \<and> codept c \<le> 126) \<and>
     json_loads (\<lambda>s. None) line = Some (JObj d) \<and> dget d ''correlationId'' = JStr ''c'' \<and>
     dget d ''message'' = JStr (''a'' @ [CHR 0x0A] @ ''{forged}'')"
proof -
  let ?v = "\<lparr>rv_correlation_id = ''c'', rv_traceparent = []\<rparr>" and ?s = "\<lparr>root_handlers = [OtherHandler ''h''], root_level = 30\<rparr>"
  from log_line_faithful[of "''f''" ?v demo_record ?s "\<lambda>s. None"] obtain line d where
    "emit_record ''f'' ?v demo_record (configure_json_logging ?s) = (if lg_no demo_record < 20 then [] else line @ [CHR 0x0A])"
    "\<forall>c \<in> set line. 32 \<le> codept c \<and> codept c \<le> 126" "json_loads (\<lambda>s. None) line = Some (JObj d)"
    "dget d ''message'' = JStr (lg_message demo_record)"
    "dget d ''correlationId'' = JStr (if rv_correlation_id ?v \<noteq> [] then rv_correlation_id ?v else ''f'')"
    by (elim exE conjE)
  then show ?thesis by (intro exI[of _ line] exI[of _ d]) (simp add: demo_record_def)
qed

end
