(* ===== verification/Config.thy ===== *)
theory Config
  imports Platform LiveProjection Auth Api DlqReplay
begin

text \<open>
  The settings of \<^verbatim>\<open>runtime/config.py\<close>: one record, read from environment variables whose
  names are compared without regard to case, and the parts the components read of it. How pydantic
  reads a bool and a float from a string are parameters.
\<close>

subsection \<open>Settings\<close>

record settings =
  cf_auth_required :: bool
  cf_aad_issuer :: string
  cf_aad_audience :: string
  cf_functions_host_url :: string
  cf_functions_host_key :: string
  cf_functions_http_timeout_s :: rat
  cf_sb_namespace :: string
  cf_sb_runs_queue :: string
  cf_sb_results_queue :: string
  cf_sb_runs_dlq :: string
  cf_sb_results_dlq :: string
  cf_engine_report_mode :: string
  cf_blob_account :: string
  cf_blob_container :: string
  cf_blob_results_container :: string
  cf_otel_exporter_otlp_endpoint :: string
  cf_applicationinsights_connection_string :: string
  cf_live_progress_enabled :: bool
  cf_live_progress_target :: string
  cf_live_progress_group_prefix :: string
  cf_live_progress_timeout_s :: rat
  cf_signalr_connection_string :: string
  cf_signalr_service_endpoint :: string
  cf_signalr_token_scope :: string
  cf_signalr_hub_name :: string

definition default_settings :: settings where
  "default_settings =
     \<lparr>cf_auth_required = False, cf_aad_issuer = [], cf_aad_audience = [],
      cf_functions_host_url = ''http://localhost:7071'', cf_functions_host_key = [], cf_functions_http_timeout_s = 10,
      cf_sb_namespace = [], cf_sb_runs_queue = ''engine-runs'', cf_sb_results_queue = ''engine-results'',
      cf_sb_runs_dlq = ''engine-runs/$DeadLetterQueue'', cf_sb_results_dlq = ''engine-results/$DeadLetterQueue'',
      cf_engine_report_mode = ''servicebus'',
      cf_blob_account = [], cf_blob_container = ''cv-uploads'', cf_blob_results_container = ''batch-results'',
      cf_otel_exporter_otlp_endpoint = ''http://localhost:4317'', cf_applicationinsights_connection_string = [],
      cf_live_progress_enabled = False, cf_live_progress_target = ''batchProgress'',
      cf_live_progress_group_prefix = ''submission'', cf_live_progress_timeout_s = 5,
      cf_signalr_connection_string = [], cf_signalr_service_endpoint = [],
      cf_signalr_token_scope = ''https://signalr.azure.com/.default'', cf_signalr_hub_name = ''batch-progress''\<rparr>"

subsection \<open>Reading the environment\<close>

type_synonym environment = "(string \<times> string) list"

definition env_value :: "environment \<Rightarrow> string \<Rightarrow> string option" where
  \<comment> \<open>of two variables that differ in case only the later one counts\<close>
  "env_value vars name = map_of (rev (map (apfst lower) vars)) name"

definition text_setting :: "environment \<Rightarrow> string \<Rightarrow> string \<Rightarrow> string" where
  "text_setting vars name d = (case env_value vars name of None \<Rightarrow> d | Some s \<Rightarrow> s)"

definition read_setting :: "(string \<Rightarrow> 'a option) \<Rightarrow> environment \<Rightarrow> string \<Rightarrow> 'a \<Rightarrow> 'a result" where
  "read_setting reads vars name d =
     (case env_value vars name of
        None \<Rightarrow> Inr d
      | Some s \<Rightarrow> (case reads s of None \<Rightarrow> Inl ValidationError | Some v \<Rightarrow> Inr v))"

definition report_mode :: "string \<Rightarrow> string option" where
  "report_mode s = (if s = ''servicebus'' \<or> s = ''http'' then Some s else None)"

definition load_settings :: "(string \<Rightarrow> bool option) \<Rightarrow> (string \<Rightarrow> rat option) \<Rightarrow> environment \<Rightarrow> settings result" where
  "load_settings as_bool as_float vars =
     bind_res (read_setting as_bool vars ''auth_required'' (cf_auth_required default_settings)) (\<lambda>auth.
     bind_res (read_setting as_float vars ''functions_http_timeout_s'' (cf_functions_http_timeout_s default_settings)) (\<lambda>timeout.
     bind_res (read_setting report_mode vars ''engine_report_mode'' (cf_engine_report_mode default_settings)) (\<lambda>mode.
     bind_res (read_setting as_bool vars ''live_progress_enabled'' (cf_live_progress_enabled default_settings)) (\<lambda>live.
     bind_res (read_setting as_float vars ''live_progress_timeout_s'' (cf_live_progress_timeout_s default_settings)) (\<lambda>live_timeout.
       let str = (\<lambda>name field. text_setting vars name (field default_settings))
       in Inr
         \<lparr>cf_auth_required = auth, cf_aad_issuer = str ''aad_issuer'' cf_aad_issuer,
          cf_aad_audience = str ''aad_audience'' cf_aad_audience,
          cf_functions_host_url = str ''functions_host_url'' cf_functions_host_url,
          cf_functions_host_key = str ''functions_host_key'' cf_functions_host_key,
          cf_functions_http_timeout_s = timeout,
          cf_sb_namespace = str ''sb_namespace'' cf_sb_namespace,
          cf_sb_runs_queue = str ''sb_runs_queue'' cf_sb_runs_queue,
          cf_sb_results_queue = str ''sb_results_queue'' cf_sb_results_queue,
          cf_sb_runs_dlq = str ''sb_runs_dlq'' cf_sb_runs_dlq,
          cf_sb_results_dlq = str ''sb_results_dlq'' cf_sb_results_dlq,
          cf_engine_report_mode = mode,
          cf_blob_account = str ''blob_account'' cf_blob_account,
          cf_blob_container = str ''blob_container'' cf_blob_container,
          cf_blob_results_container = str ''blob_results_container'' cf_blob_results_container,
          cf_otel_exporter_otlp_endpoint = str ''otel_exporter_otlp_endpoint'' cf_otel_exporter_otlp_endpoint,
          cf_applicationinsights_connection_string =
            str ''applicationinsights_connection_string'' cf_applicationinsights_connection_string,
          cf_live_progress_enabled = live,
          cf_live_progress_target = str ''live_progress_target'' cf_live_progress_target,
          cf_live_progress_group_prefix = str ''live_progress_group_prefix'' cf_live_progress_group_prefix,
          cf_live_progress_timeout_s = live_timeout,
          cf_signalr_connection_string = str ''signalr_connection_string'' cf_signalr_connection_string,
          cf_signalr_service_endpoint = str ''signalr_service_endpoint'' cf_signalr_service_endpoint,
          cf_signalr_token_scope = str ''signalr_token_scope'' cf_signalr_token_scope,
          cf_signalr_hub_name = str ''signalr_hub_name'' cf_signalr_hub_name\<rparr>)))))"

text \<open>\<^verbatim>\<open>get_settings\<close> keeps the first value; an exception is not kept.\<close>

definition get_settings :: "settings result \<Rightarrow> settings option \<Rightarrow> settings option \<times> settings result" where
  "get_settings loaded cached =
     (case cached of
        Some s \<Rightarrow> (cached, Inr s)
      | None \<Rightarrow> (case loaded of Inl e \<Rightarrow> (None, Inl e) | Inr s \<Rightarrow> (Some s, Inr s)))"

subsection \<open>What the components read\<close>

definition auth_settings_of :: "settings \<Rightarrow> auth_settings" where
  "auth_settings_of s = \<lparr>st_auth_required = cf_auth_required s, st_issuer = cf_aad_issuer s, st_audience = cf_aad_audience s\<rparr>"

definition live_settings_of :: "settings \<Rightarrow> live_settings" where
  "live_settings_of s =
     \<lparr>ls_enabled = cf_live_progress_enabled s, ls_target = cf_live_progress_target s,
      ls_group_prefix = cf_live_progress_group_prefix s, ls_connection_string = cf_signalr_connection_string s,
      ls_service_endpoint = cf_signalr_service_endpoint s, ls_token_scope = cf_signalr_token_scope s,
      ls_hub_name = cf_signalr_hub_name s, ls_timeout_s = cf_live_progress_timeout_s s\<rparr>"

definition configure_platform :: "settings \<Rightarrow> platform_env \<Rightarrow> platform_env" where
  "configure_platform s env =
     \<lparr>pe_dispatch = (pe_dispatch env)\<lparr>de_container := cf_blob_results_container s, de_namespace := cf_sb_namespace s,
        de_queue := cf_sb_runs_queue s\<rparr>,
      pe_intake = (pe_intake env)\<lparr>ie_account := cf_blob_account s, ie_container := cf_blob_results_container s\<rparr>,
      pe_finalize = (pe_finalize env)\<lparr>fz_container := cf_blob_results_container s\<rparr>\<rparr>"

text \<open>The HTTP client of the Functions host, and the routes' view of the results container.\<close>

record http_client =
  hc_base_url :: string
  hc_timeout :: rat
  hc_headers :: "(string \<times> string) list"

definition host_client :: "settings \<Rightarrow> http_client" where
  "host_client s =
     \<lparr>hc_base_url = cf_functions_host_url s, hc_timeout = cf_functions_http_timeout_s s,
      hc_headers = (if cf_functions_host_key s \<noteq> [] then [(''x-functions-key'', cf_functions_host_key s)] else [])\<rparr>"

definition configure_api :: "settings \<Rightarrow> 'd api_env \<Rightarrow> 'd api_env" where
  "configure_api s env = env\<lparr>ap_account := cf_blob_account s, ap_container := cf_blob_results_container s\<rparr>"

definition dlq_client :: "settings \<Rightarrow> string" where
  "dlq_client s = service_bus_host (cf_sb_namespace s)"

definition configure_dlq :: "settings \<Rightarrow> dlq_env \<Rightarrow> dlq_env" where
  "configure_dlq s env = env\<lparr>dq_runs_queue := cf_sb_runs_queue s, dq_results_queue := cf_sb_results_queue s\<rparr>"

subsection \<open>Laws\<close>

text \<open>The activities and the intake share the results container of the settings.\<close>

lemma configured_wired: "wired (configure_platform s env) \<longleftrightarrow> cf_blob_account s \<noteq> []"
  by (simp add: wired_def configure_platform_def)

text \<open>
  The replay of the \<^verbatim>\<open>runs\<close> letters sends to the namespace and queue the
  dispatch sends to, and the status route reads the results container the finalize activity
  writes.
\<close>

lemma configured_queue:
  "resolve_queue (configure_dlq s denv) ''runs'' = Inr (sm_queue (sent_of (pe_dispatch (configure_platform s env)) inp m tp))"
  "dlq_client s = sm_namespace (sent_of (pe_dispatch (configure_platform s env)) inp m tp)"
  by (simp_all add: resolve_queue_def configure_dlq_def configure_platform_def sent_of_def dlq_client_def)

lemma configured_container: "ap_container (configure_api s aenv) = fz_container (pe_finalize (configure_platform s env))"
  by (simp add: configure_api_def configure_platform_def)

lemma load_settings_default: "load_settings as_bool as_float [] = Inr default_settings"
  by (simp add: load_settings_def read_setting_def text_setting_def env_value_def default_settings_def Let_def)

text \<open>A variable overrides its field and no other, whatever the case of its name.\<close>

lemma text_setting_override:
  "lower k = lower name \<Longrightarrow> lower name = name \<Longrightarrow> text_setting (vars @ [(k, v)]) name d = v"
  "lower k \<noteq> name \<Longrightarrow> text_setting (vars @ [(k, v)]) name d = text_setting vars name d"
  by (simp_all add: text_setting_def env_value_def)

text \<open>Settings that load have a report mode the engine knows; once loaded they do not change.\<close>

lemma read_report_mode: "read_setting report_mode vars n ''servicebus'' = Inr m \<Longrightarrow> m \<in> {''servicebus'', ''http''}"
  by (auto simp: read_setting_def report_mode_def split: option.splits if_splits)

lemma loaded_report_mode: "load_settings as_bool as_float vars = Inr s \<Longrightarrow> cf_engine_report_mode s \<in> {''servicebus'', ''http''}"
proof -
  have d: "cf_engine_report_mode default_settings = ''servicebus''" by (simp add: default_settings_def)
  assume "load_settings as_bool as_float vars = Inr s"
  then have "read_setting report_mode vars ''engine_report_mode'' ''servicebus'' = Inr (cf_engine_report_mode s)"
    unfolding load_settings_def Let_def d by (simp only: bind_res_Inr_iff sum.inject) (elim exE conjE, hypsubst, simp)
  then show ?thesis by (rule read_report_mode)
qed

lemma get_settings_stable: "get_settings l cached = (c, Inr s) \<Longrightarrow> get_settings l' c = (c, Inr s)"
  by (auto simp: get_settings_def split: option.splits sum.splits)

end
