(* ===== verification/Repository.thy ===== *)
theory Repository
  imports JsonLaws "HOL-Library.Multiset"
begin

text \<open>
  The run repository (\<^verbatim>\<open>db/repository.py\<close>) over its two tables, and the pagination
  parameters of \<^verbatim>\<open>api/deps.py\<close>. Nothing of the platform calls it, and the modules it
  imports (the connection, the schema, the retry decorator, the run models) are not in the
  repository: what it needs of them is a parameter. A table is the list of its rows; a statement
  acts on the rows its \<^verbatim>\<open>WHERE\<close> selects; what is not committed is lost. Columns are
  compared character by character, ids are canonical UUID texts, and an operation is one attempt
  of the retry decorator.
\<close>

subsection \<open>Tables\<close>

record run_row =
  rw_id :: string
  rw_idempotency_key :: string
  rw_engine :: string
  rw_status :: string
  rw_parameters :: json
  rw_duration_ms :: "int option"
  rw_tokens_prompt :: "int option"
  rw_tokens_completion :: "int option"
  rw_error_message :: "string option"
  rw_created_at :: int
  rw_updated_at :: "int option"

record artifact_row =
  aw_id :: string
  aw_run_id :: string
  aw_name :: string
  aw_uri :: string
  aw_content_type :: "string option"
  aw_size_bytes :: "int option"
  aw_metadata :: string
  aw_created_at :: int

record database =
  db_runs :: "run_row list"
  db_artifacts :: "artifact_row list"

text \<open>The arguments of \<^verbatim>\<open>RunResponse\<close>.\<close>

record run_response =
  rs_id :: string
  rs_idempotency_key :: string
  rs_engine :: string
  rs_status :: string
  rs_parameters :: json
  rs_duration_ms :: "int option"
  rs_tokens_prompt :: "int option"
  rs_tokens_completion :: "int option"
  rs_error_message :: "string option"
  rs_created_at :: int
  rs_updated_at :: "int option"

text \<open>
  \<open>dx_pending\<close> and \<open>dx_status_ok\<close> are \<^verbatim>\<open>RunStatus\<close>, \<open>dx_uuid_ok\<close> is what
  \<^verbatim>\<open>uuid.UUID\<close> reads, \<open>dx_accepts\<close> the constraints of the schema, \<open>dx_rows\<close> the order
  in which selected rows come back, \<open>dx_newest\<close> that order under
  \<^verbatim>\<open>ORDER BY created_at DESC\<close>.
\<close>

record repo_env =
  dx_pending :: string
  dx_status_ok :: "string \<Rightarrow> bool"
  dx_uuid_ok :: "string \<Rightarrow> bool"
  dx_float :: "string \<Rightarrow> json option"
  dx_accepts :: "database \<Rightarrow> run_row \<Rightarrow> bool"
  dx_accepts_artifact :: "database \<Rightarrow> artifact_row \<Rightarrow> bool"
  dx_rows :: "run_row list \<Rightarrow> run_row list"
  dx_newest :: "run_row list \<Rightarrow> run_row list"

definition order_law :: "repo_env \<Rightarrow> bool" where
  "order_law env \<longleftrightarrow>
     (\<forall>rows. mset (dx_rows env rows) = mset rows \<and> mset (dx_newest env rows) = mset rows \<and>
        sorted (rev (map rw_created_at (dx_newest env rows))))"

subsection \<open>Operations\<close>

definition row_to_run :: "repo_env \<Rightarrow> run_row \<Rightarrow> run_response result" where
  "row_to_run env row =
     (if \<not> dx_uuid_ok env (rw_id row) then Inl (ValueError [])
      else if \<not> dx_status_ok env (rw_status row) then Inl (ValueError [])
      else bind_res (case rw_parameters row of
          JStr s \<Rightarrow> (case json_loads (dx_float env) s of None \<Rightarrow> Inl (ValueError []) | Some v \<Rightarrow> Inr v)
        | v \<Rightarrow> Inr v)
      (\<lambda>params. Inr
        \<lparr>rs_id = rw_id row, rs_idempotency_key = rw_idempotency_key row, rs_engine = rw_engine row,
         rs_status = rw_status row, rs_parameters = params, rs_duration_ms = rw_duration_ms row,
         rs_tokens_prompt = rw_tokens_prompt row, rs_tokens_completion = rw_tokens_completion row,
         rs_error_message = rw_error_message row, rs_created_at = rw_created_at row, rs_updated_at = rw_updated_at row\<rparr>))"

definition fetch_one :: "repo_env \<Rightarrow> (run_row \<Rightarrow> bool) \<Rightarrow> database \<Rightarrow> run_row option" where
  "fetch_one env p db = (case dx_rows env (filter p (db_runs db)) of [] \<Rightarrow> None | row # _ \<Rightarrow> Some row)"

definition read_one :: "repo_env \<Rightarrow> (run_row \<Rightarrow> bool) \<Rightarrow> database \<Rightarrow> run_response option result" where
  "read_one env p db =
     (case fetch_one env p db of None \<Rightarrow> Inr None | Some row \<Rightarrow> bind_res (row_to_run env row) (\<lambda>r. Inr (Some r)))"

definition get_by_idempotency_key :: "repo_env \<Rightarrow> string \<Rightarrow> database \<Rightarrow> run_response option result" where
  "get_by_idempotency_key env key db = read_one env (\<lambda>row. rw_idempotency_key row = key) db"

definition get_run :: "repo_env \<Rightarrow> string \<Rightarrow> database \<Rightarrow> run_response option result" where
  "get_run env run_id db = read_one env (\<lambda>row. rw_id row = run_id) db"

text \<open>\<open>run_id\<close> and \<open>now\<close> are \<^verbatim>\<open>uuid4\<close> and the clock.\<close>

definition insert_run_started ::
  "repo_env \<Rightarrow> string \<Rightarrow> int \<Rightarrow> string \<Rightarrow> string \<Rightarrow> json \<Rightarrow> database \<Rightarrow> database \<times> run_response result" where
  "insert_run_started env run_id now key engine params db =
     (let row = \<lparr>rw_id = run_id, rw_idempotency_key = key, rw_engine = engine, rw_status = dx_pending env,
            rw_parameters = JStr (json_dumps params), rw_duration_ms = None, rw_tokens_prompt = None,
            rw_tokens_completion = None, rw_error_message = None, rw_created_at = now, rw_updated_at = None\<rparr>
      in if \<not> dx_accepts env db row then (db, Inl (RuntimeError []))
         else (db\<lparr>db_runs := db_runs db @ [row]\<rparr>, Inr
           \<lparr>rs_id = run_id, rs_idempotency_key = key, rs_engine = engine, rs_status = dx_pending env,
            rs_parameters = params, rs_duration_ms = None, rs_tokens_prompt = None, rs_tokens_completion = None,
            rs_error_message = None, rs_created_at = now, rs_updated_at = None\<rparr>))"

record finish =
  fn_status :: string
  fn_duration_ms :: "int option"
  fn_tokens_prompt :: "int option"
  fn_tokens_completion :: "int option"
  fn_error_message :: "string option"

definition finish_row :: "finish \<Rightarrow> int \<Rightarrow> run_row \<Rightarrow> run_row" where
  "finish_row f now row =
     row\<lparr>rw_status := fn_status f, rw_duration_ms := fn_duration_ms f, rw_tokens_prompt := fn_tokens_prompt f,
         rw_tokens_completion := fn_tokens_completion f, rw_error_message := fn_error_message f,
         rw_updated_at := Some now\<rparr>"

definition update_run_finished ::
  "repo_env \<Rightarrow> int \<Rightarrow> string \<Rightarrow> finish \<Rightarrow> database \<Rightarrow> database \<times> run_response result" where
  "update_run_finished env now run_id f db =
     (let db' = db\<lparr>db_runs := map (\<lambda>row. if rw_id row = run_id then finish_row f now row else row) (db_runs db)\<rparr>
      in (db', case fetch_one env (\<lambda>row. rw_id row = run_id) db' of
            None \<Rightarrow> Inl (ValueError (''Run '' @ run_id @ '' not found after update''))
          | Some row \<Rightarrow> row_to_run env row))"

record new_artifact =
  na_name :: string
  na_uri :: string
  na_content_type :: "string option"
  na_size_bytes :: "int option"
  na_metadata :: json

definition artifact_row_of :: "string \<Rightarrow> string \<Rightarrow> int \<Rightarrow> new_artifact \<Rightarrow> artifact_row" where
  "artifact_row_of artifact_id run_id now item =
     \<lparr>aw_id = artifact_id, aw_run_id = run_id, aw_name = na_name item, aw_uri = na_uri item,
      aw_content_type = na_content_type item, aw_size_bytes = na_size_bytes item,
      aw_metadata = json_dumps (na_metadata item), aw_created_at = now\<rparr>"

text \<open>The inserts of the loop, \<open>ids\<close> drawn one by one, before the commit.\<close>

fun artifact_inserts :: "repo_env \<Rightarrow> (nat \<Rightarrow> string) \<Rightarrow> string \<Rightarrow> int \<Rightarrow> new_artifact list \<Rightarrow> database \<Rightarrow> database result" where
  "artifact_inserts env ids run_id now [] db = Inr db"
| "artifact_inserts env ids run_id now (item # items) db =
     (let row = artifact_row_of (ids 0) run_id now item
      in if \<not> dx_accepts_artifact env db row then Inl (RuntimeError [])
         else artifact_inserts env (\<lambda>n. ids (Suc n)) run_id now items (db\<lparr>db_artifacts := db_artifacts db @ [row]\<rparr>))"

definition insert_artifacts ::
  "repo_env \<Rightarrow> (nat \<Rightarrow> string) \<Rightarrow> string \<Rightarrow> int \<Rightarrow> new_artifact list \<Rightarrow> database \<Rightarrow> database \<times> (string \<times> new_artifact) list result" where
  "insert_artifacts env ids run_id now items db =
     (case artifact_inserts env ids run_id now items db of
        Inl e \<Rightarrow> (db, Inl e)
      | Inr db' \<Rightarrow> (db', Inr (zip (map ids [0..<length items]) items)))"

definition run_matches :: "string option \<Rightarrow> string option \<Rightarrow> run_row \<Rightarrow> bool" where
  "run_matches engine status row \<longleftrightarrow>
     (case engine of None \<Rightarrow> True | Some e \<Rightarrow> rw_engine row = e) \<and> (case status of None \<Rightarrow> True | Some s \<Rightarrow> rw_status row = s)"

definition get_runs ::
  "repo_env \<Rightarrow> nat \<Rightarrow> nat \<Rightarrow> string option \<Rightarrow> string option \<Rightarrow> database \<Rightarrow> (run_response list \<times> nat) result" where
  "get_runs env offset limit engine status db =
     (let rows = filter (run_matches engine status) (db_runs db)
      in if limit = 0 then Inl (RuntimeError [])
         else bind_res (map_res (row_to_run env) (take limit (drop offset (dx_newest env rows)))) (\<lambda>rs. Inr (rs, length rows)))"

subsection \<open>Pagination\<close>

record pagination =
  pg_page :: int
  pg_page_size :: int

definition pagination_params :: "int \<Rightarrow> int \<Rightarrow> pagination result" where
  "pagination_params page page_size =
     (if 1 \<le> page \<and> 1 \<le> page_size \<and> page_size \<le> 100 then Inr \<lparr>pg_page = page, pg_page_size = page_size\<rparr>
      else Inl ValidationError)"

definition pagination_offset :: "pagination \<Rightarrow> int" where
  "pagination_offset p = (pg_page p - 1) * pg_page_size p"

definition get_page :: "repo_env \<Rightarrow> pagination \<Rightarrow> string option \<Rightarrow> string option \<Rightarrow> database \<Rightarrow> (run_response list \<times> nat) result" where
  "get_page env p engine status db =
     get_runs env (nat (pagination_offset p)) (nat (pg_page_size p)) engine status db"

subsection \<open>Laws\<close>

lemma rows_singleton: "order_law env \<Longrightarrow> dx_rows env [row] = [row]"
  by (metis mset_single_iff_right mset.simps order_law_def)

lemma fetch_one_in: "order_law env \<Longrightarrow> fetch_one env p db = Some row \<Longrightarrow> row \<in> set (db_runs db) \<and> p row"
proof -
  assume "order_law env" "fetch_one env p db = Some row"
  then have "row \<in> set (dx_rows env (filter p (db_runs db)))" "mset (dx_rows env (filter p (db_runs db))) = mset (filter p (db_runs db))"
    by (auto simp: fetch_one_def order_law_def split: list.splits)
  then have "row \<in> set (filter p (db_runs db))" using mset_eq_setD by blast
  then show ?thesis by simp
qed

lemma fetch_none: "order_law env \<Longrightarrow> fetch_one env p db = None \<longleftrightarrow> filter p (db_runs db) = []"
proof -
  assume "order_law env"
  then have "mset (dx_rows env (filter p (db_runs db))) = mset (filter p (db_runs db))" by (simp add: order_law_def)
  from mset_eq_length[OF this] show ?thesis by (auto simp: fetch_one_def split: list.splits)
qed

lemma filter_row_unique:
  assumes "distinct (map rw_id rows)" and "row \<in> set rows"
  shows "filter (\<lambda>r. rw_id r = rw_id row) rows = [row]"
  using assms
proof (induction rows)
  case (Cons r rows)
  then show ?case by (cases "r = row") (auto simp: filter_empty_conv rev_image_eqI)
qed simp

lemma take_pages: "concat (map (\<lambda>k. take m (drop (k * m) xs)) [0..<n]) = take (n * m) xs"
  by (induction n) (simp_all add: take_add[symmetric] add.commute)

subsection \<open>A small repository\<close>

definition tie_row :: "string \<Rightarrow> run_row" where
  "tie_row x = \<lparr>rw_id = x, rw_idempotency_key = x, rw_engine = ''e'', rw_status = ''s'', rw_parameters = JNull,
     rw_duration_ms = None, rw_tokens_prompt = None, rw_tokens_completion = None, rw_error_message = None,
     rw_created_at = 0, rw_updated_at = None\<rparr>"

definition tie_db :: database where
  "tie_db = \<lparr>db_runs = [tie_row ''a'', tie_row ''b''], db_artifacts = []\<rparr>"

definition newest_first :: "run_row list \<Rightarrow> run_row list" where
  "newest_first rows = sort_key (\<lambda>r. - rw_created_at r) rows"

definition demo_repo :: repo_env where
  "demo_repo = \<lparr>dx_pending = ''s'', dx_status_ok = \<lambda>s. True, dx_uuid_ok = \<lambda>s. True, dx_float = \<lambda>t. None,
     dx_accepts = \<lambda>d r. True, dx_accepts_artifact = \<lambda>d r. True, dx_rows = \<lambda>rows. rows, dx_newest = newest_first\<rparr>"

lemma newest_first_sorted: "sorted (rev (map rw_created_at (newest_first rows)))"
proof -
  have "sorted (map (\<lambda>r. - rw_created_at r) (newest_first rows))" by (simp add: newest_first_def)
  then show ?thesis unfolding sorted_rev_iff_nth_mono by (simp add: sorted_iff_nth_mono)
qed

lemma demo_order: "order_law demo_repo" "order_law (demo_repo\<lparr>dx_newest := \<lambda>rows. newest_first (rev rows)\<rparr>)"
  using newest_first_sorted by (simp_all add: order_law_def demo_repo_def) (simp_all add: newest_first_def)

subsection \<open>What the operations guarantee\<close>

text \<open>A run that was started is found: after \<^verbatim>\<open>insert_run_started\<close> both reads give the
  response the insert returned, parameters included, which went through the text of the column;
  every other run reads as before. An insert the schema refuses changes nothing.\<close>

lemma started_run_is_found:
  assumes "order_law env" and "plain params" and "dx_uuid_ok env run_id" and "dx_status_ok env (dx_pending env)"
    and "\<forall>row \<in> set (db_runs db). rw_id row \<noteq> run_id \<and> rw_idempotency_key row \<noteq> key"
    and "insert_run_started env run_id now key engine params db = (db', Inr r)"
  shows "get_run env run_id db' = Inr (Some r) \<and> get_by_idempotency_key env key db' = Inr (Some r) \<and>
    rs_parameters r = params \<and> rs_status r = dx_pending env \<and>
    (\<forall>x. x \<noteq> run_id \<longrightarrow> get_run env x db' = get_run env x db) \<and>
    (\<forall>e. insert_run_started env' run_id now key engine params db = (db'', Inl e) \<longrightarrow> db'' = db)"
proof -
  define row where "row = \<lparr>rw_id = run_id, rw_idempotency_key = key, rw_engine = engine, rw_status = dx_pending env,
      rw_parameters = JStr (json_dumps params), rw_duration_ms = None, rw_tokens_prompt = None,
      rw_tokens_completion = None, rw_error_message = None, rw_created_at = now, rw_updated_at = None\<rparr>"
  from assms(6) have db': "db' = db\<lparr>db_runs := db_runs db @ [row]\<rparr>" and
    r: "r = \<lparr>rs_id = run_id, rs_idempotency_key = key, rs_engine = engine, rs_status = dx_pending env,
        rs_parameters = params, rs_duration_ms = None, rs_tokens_prompt = None, rs_tokens_completion = None,
        rs_error_message = None, rs_created_at = now, rs_updated_at = None\<rparr>"
    by (simp_all add: insert_run_started_def row_def Let_def split: if_splits)
  have read: "row_to_run env row = Inr r"
    using json_roundtrip[OF assms(2)] assms(3,4) by (simp add: row_to_run_def row_def r)
  have none: "filter (\<lambda>x. rw_id x = run_id) (db_runs db) = []" "filter (\<lambda>x. rw_idempotency_key x = key) (db_runs db) = []"
    using assms(5) by (simp_all add: filter_empty_conv)
  have row: "rw_id row = run_id" "rw_idempotency_key row = key" by (simp_all add: row_def)
  have "get_run env run_id db' = Inr (Some r)" "get_by_idempotency_key env key db' = Inr (Some r)"
    by (simp_all add: get_run_def get_by_idempotency_key_def read_one_def fetch_one_def db' none row rows_singleton[OF assms(1)] read)
  moreover have "get_run env x db' = get_run env x db" if "x \<noteq> run_id" for x
    using that by (simp add: get_run_def read_one_def fetch_one_def db' row)
  moreover have "insert_run_started env' run_id now key engine params db = (db'', Inl e) \<longrightarrow> db'' = db" for e
    by (simp add: insert_run_started_def Let_def)
  ultimately show ?thesis by (simp add: r)
qed

text \<open>Finishing a run sets its outcome and nothing else: the response carries the given
  fields with the run's own id, key, engine and creation time, every other run reads as before,
  the number of runs stays, and an unknown id raises and changes nothing.\<close>

lemma finish_changes_one_run:
  assumes "order_law env" and "distinct (map rw_id (db_runs db))"
  shows "(\<forall>row \<in> set (db_runs db). rw_id row = run_id \<longrightarrow>
      snd (update_run_finished env now run_id f db) = row_to_run env (finish_row f now row) \<and>
      (\<forall>r. row_to_run env (finish_row f now row) = Inr r \<longrightarrow>
         rs_id r = run_id \<and> rs_idempotency_key r = rw_idempotency_key row \<and> rs_engine r = rw_engine row \<and>
         rs_created_at r = rw_created_at row \<and> rs_status r = fn_status f \<and> rs_updated_at r = Some now \<and>
         get_run env run_id (fst (update_run_finished env now run_id f db)) = Inr (Some r))) \<and>
    (\<forall>x. x \<noteq> run_id \<longrightarrow> get_run env x (fst (update_run_finished env now run_id f db)) = get_run env x db) \<and>
    map rw_id (db_runs (fst (update_run_finished env now run_id f db))) = map rw_id (db_runs db) \<and>
    (run_id \<notin> rw_id ` set (db_runs db) \<longrightarrow>
       update_run_finished env now run_id f db = (db, Inl (ValueError (''Run '' @ run_id @ '' not found after update''))))"
proof -
  let ?upd = "\<lambda>row. if rw_id row = run_id then finish_row f now row else row"
  let ?db = "fst (update_run_finished env now run_id f db)"
  have db: "?db = db\<lparr>db_runs := map ?upd (db_runs db)\<rparr>" by (simp add: update_run_finished_def Let_def)
  have ids: "map rw_id (map ?upd rows) = map rw_id rows" for rows by (simp add: finish_row_def)
  have one: "fetch_one env (\<lambda>r. rw_id r = run_id) ?db = Some (finish_row f now row)" if "row \<in> set (db_runs db)" "rw_id row = run_id" for row
  proof -
    have "finish_row f now row \<in> set (map ?upd (db_runs db))" using that by force
    moreover have "distinct (map rw_id (map ?upd (db_runs db)))" unfolding ids by (rule assms(2))
    moreover have "rw_id (finish_row f now row) = run_id" using that(2) by (simp add: finish_row_def)
    ultimately have "filter (\<lambda>r. rw_id r = run_id) (map ?upd (db_runs db)) = [finish_row f now row]"
      using filter_row_unique[of "map ?upd (db_runs db)" "finish_row f now row"] by simp
    then show ?thesis unfolding fetch_one_def db by (simp add: rows_singleton[OF assms(1)] del: filter_map)
  qed
  have other: "filter (\<lambda>r. rw_id r = x) (map ?upd rows) = filter (\<lambda>r. rw_id r = x) rows" if "x \<noteq> run_id" for x rows
    using that by (induction rows) (auto simp: finish_row_def)
  have fields: "rs_id r = rw_id row \<and> rs_idempotency_key r = rw_idempotency_key row \<and> rs_engine r = rw_engine row \<and>
      rs_created_at r = rw_created_at row \<and> rs_status r = fn_status f \<and> rs_updated_at r = Some now"
    if "row_to_run env (finish_row f now row) = Inr r" for row r
    using that by (auto simp: row_to_run_def finish_row_def split: if_splits)
  have "snd (update_run_finished env now run_id f db) = row_to_run env (finish_row f now row)"
    if "row \<in> set (db_runs db)" "rw_id row = run_id" for row
    using one[OF that] by (simp add: update_run_finished_def Let_def)
  moreover have "get_run env run_id ?db = Inr (Some r)"
    if "row \<in> set (db_runs db)" "rw_id row = run_id" "row_to_run env (finish_row f now row) = Inr r" for row r
    using one[OF that(1,2)] that(3) by (simp add: get_run_def read_one_def)
  moreover have "get_run env x ?db = get_run env x db" if "x \<noteq> run_id" for x
    unfolding get_run_def read_one_def fetch_one_def db using other[OF that] by simp
  moreover have "update_run_finished env now run_id f db = (db, Inl (ValueError (''Run '' @ run_id @ '' not found after update'')))"
    if "run_id \<notin> rw_id ` set (db_runs db)"
  proof -
    have same: "map ?upd (db_runs db) = db_runs db" using that by (intro map_idI) auto
    have "fetch_one env (\<lambda>r. rw_id r = run_id) db = None"
      using that by (auto simp: fetch_none[OF assms(1)] filter_empty_conv)
    then show ?thesis by (simp add: update_run_finished_def same)
  qed
  ultimately show ?thesis using fields ids by (auto simp: db)
qed

text \<open>Paging is complete as long as rows created at one instant come back in one order: the
  pages up to the last one hold every matching run exactly once, newest first, no page is longer
  than its size, and each reports the number of all matching runs.\<close>

lemma pages_partition_runs:
  assumes "order_law env" and "\<forall>row \<in> set (db_runs db). row_to_run env row = Inr (g row)"
    and "1 \<le> m" and "m \<le> 100" and "length (filter (run_matches engine status) (db_runs db)) \<le> n * m"
  shows "\<exists>pages. map_res (\<lambda>k. bind_res (pagination_params (int (Suc k)) (int m)) (\<lambda>p. get_page env p engine status db)) [0..<n] = Inr pages \<and>
    mset (concat (map fst pages)) = image_mset g (mset (filter (run_matches engine status) (db_runs db))) \<and>
    concat (map fst pages) = map g (dx_newest env (filter (run_matches engine status) (db_runs db))) \<and>
    (\<forall>p \<in> set pages. length (fst p) \<le> m \<and> snd p = length (filter (run_matches engine status) (db_runs db)))"
proof -
  let ?rows = "filter (run_matches engine status) (db_runs db)"
  let ?new = "dx_newest env ?rows"
  have new: "mset ?new = mset ?rows" using assms(1) by (simp add: order_law_def)
  have len: "length ?new = length ?rows" using mset_eq_length[OF new] .
  have g: "row_to_run env row = Inr (g row)" if "row \<in> set ?new" for row
    using that assms(2) mset_eq_setD[OF new] by auto
  have page: "bind_res (pagination_params (int (Suc k)) (int m)) (\<lambda>p. get_page env p engine status db) =
      Inr (map g (take m (drop (k * m) ?new)), length ?rows)" for k
  proof -
    have "map_res (row_to_run env) (take m (drop (k * m) ?new)) = Inr (map g (take m (drop (k * m) ?new)))"
      by (intro map_res_all g) (meson in_set_dropD in_set_takeD)
    moreover have "nat (int k * int m) = k * m" by (simp add: nat_mult_distrib)
    ultimately show ?thesis using assms(3,4)
      by (simp add: pagination_params_def get_page_def pagination_offset_def get_runs_def Let_def)
  qed
  let ?pages = "map (\<lambda>k. (map g (take m (drop (k * m) ?new)), length ?rows)) [0..<n]"
  have "concat (map fst ?pages) = map g (concat (map (\<lambda>k. take m (drop (k * m) ?new)) [0..<n]))"
    by (simp add: map_concat comp_def)
  also have "\<dots> = map g ?new" using assms(5) by (simp add: take_pages len)
  finally have cat: "concat (map fst ?pages) = map g ?new" .
  have "map_res (\<lambda>k. bind_res (pagination_params (int (Suc k)) (int m)) (\<lambda>p. get_page env p engine status db)) [0..<n] = Inr ?pages"
    by (rule map_res_all) (rule page)
  moreover have "mset (map g ?new) = image_mset g (mset ?rows)" by (simp add: new)
  ultimately show ?thesis using cat by (intro exI[of _ ?pages]) auto
qed

text \<open>
  The order of the statement does not say how rows created at one instant come back, and it may
  differ from one query to the next: then a run can be on no page.
\<close>

lemma unstable_pages_miss_a_run:
  "\<exists>env newest db. order_law env \<and> order_law (env\<lparr>dx_newest := newest\<rparr>) \<and> tie_row ''b'' \<in> set (db_runs db) \<and>
     (\<forall>r \<in> {get_runs env 0 1 None None db, get_runs (env\<lparr>dx_newest := newest\<rparr>) 1 1 None None db}.
        \<exists>rs. r = Inr (rs, 2) \<and> (\<forall>x \<in> set rs. rs_id x \<noteq> ''b''))"
  by (rule exI[of _ demo_repo], rule exI[of _ "\<lambda>rows. newest_first (rev rows)"], rule exI[of _ tie_db])
     (use demo_order in \<open>simp add: get_runs_def row_to_run_def run_matches_def Let_def tie_db_def\<close>,
      simp add: demo_repo_def newest_first_def tie_row_def row_to_run_def)

end
