(* ===== verification/Server.thy ===== *)
theory Server
  imports ApiLaws Auth Telemetry
begin

text \<open>
  The public API as one function of a request: the correlation middleware and the exception
  handlers of \<^verbatim>\<open>api/main.py\<close> around the routes of
  \<^verbatim>\<open>api/routes_assess.py\<close> with their dependency \<^verbatim>\<open>require_auth\<close>,
  and the JSON the response models of \<^verbatim>\<open>api/models.py\<close> are answered as. What FastAPI does
  around a route is as documented: a body that is not JSON is refused first, then the dependencies
  run, then path, headers and body are validated, then the route; it answers an exception it has
  a handler for inside the middleware and every other one outside.
\<close>

subsection \<open>Response models as JSON\<close>

definition opt_item :: "string \<Rightarrow> json option \<Rightarrow> dict" where
  \<comment> \<open>a key that is only there once it was set\<close>
  "opt_item k v = (case v of None \<Rightarrow> [] | Some x \<Rightarrow> [(k, x)])"

definition run_state_json :: "run_state \<Rightarrow> json" where
  "run_state_json r = JObj
     ([(''runId'', JStr (r_runId r)), (''runIndex'', nat_json (r_runIndex r)), (''status'', r_status r),
       (''dispatchedAt'', or_null JStr (r_dispatchedAt r)), (''completedAt'', or_null JStr (r_completedAt r)),
       (''artifactCount'', nat_json (r_artifactCount r)), (''artifactNames'', JList (r_artifactNames r)),
       (''errorMessage'', r_errorMessage r)] @
      opt_item ''durationMs'' (r_durationMs r) @ opt_item ''tokensPrompt'' (r_tokensPrompt r) @
      opt_item ''tokensCompletion'' (r_tokensCompletion r) @ opt_item ''correlationId'' (r_correlationId r) @
      opt_item ''traceparent'' (r_traceparent r) @ opt_item ''artifacts'' (r_artifacts r))"

definition application_json :: "application \<Rightarrow> json" where
  "application_json a = JObj
     [(''applicationId'', JStr (a_applicationId a)), (''documentId'', JStr (a_documentId a)),
      (''status'', JStr (a_status a)), (''runsCompleted'', nat_json (a_runsCompleted a)),
      (''runsTotal'', nat_json (a_runsTotal a)), (''lastUpdatedAt'', JStr (a_lastUpdatedAt a)),
      (''runs'', JList (map run_state_json (a_runs a)))]"

text \<open>\<^verbatim>\<open>BatchProgress\<close>: the declared fields by alias, then the rest of the document.\<close>

definition batch_progress_json :: "progress \<Rightarrow> json" where
  "batch_progress_json p = JObj
     [(''cvsCompleted'', nat_json (p_cvsCompleted p)), (''cvsTotal'', nat_json (p_cvsTotal p)),
      (''runsCompleted'', nat_json (p_runsCompleted p)), (''runsTotal'', nat_json (p_runsTotal p)),
      (''runsDispatched'', nat_json (p_runsDispatched p)), (''lastUpdatedAt'', JStr (p_lastUpdatedAt p)),
      (''applications'', JList (map application_json (p_applications p))),
      (''submissionId'', JStr (p_submissionId p)), (''batchId'', JStr (p_batchId p)),
      (''jobId'', or_null JStr (p_jobId p)), (''status'', JStr (p_status p))]"

definition run_evidence_json :: "run_payload \<Rightarrow> json" where
  "run_evidence_json r = JObj
     [(''runId'', rp_runId r), (''runIndex'', nat_json (rp_runIndex r)), (''status'', rp_status r),
      (''documentId'', JStr (rp_documentId r)), (''correlationId'', rp_correlationId r),
      (''traceparent'', rp_traceparent r), (''artifacts'', rp_artifacts r), (''durationMs'', rp_durationMs r),
      (''tokensPrompt'', rp_tokensPrompt r), (''tokensCompletion'', rp_tokensCompletion r),
      (''errorMessage'', rp_errorMessage r)]"

text \<open>\<open>txt\<close> is the decimal text of a float.\<close>

definition outcome_json :: "(rat \<Rightarrow> string) \<Rightarrow> cv_aggregate \<Rightarrow> json" where
  "outcome_json txt a = JObj
     [(''finalScore'', or_null (\<lambda>x. JFloat x (txt x)) (ca_finalScore a)),
      (''finalDecision'', or_null JStr (ca_finalDecision a)), (''mustHaveResult'', JBool (ca_mustHaveResult a)),
      (''variance'', JFloat (ca_variance a) (txt (ca_variance a))), (''sourceArtifacts'', JList (ca_sourceArtifacts a)),
      (''runsCount'', nat_json (ca_runsCount a))]"

definition cv_result_json :: "(rat \<Rightarrow> string) \<Rightarrow> cv_block \<Rightarrow> json" where
  "cv_result_json txt cv = JObj
     [(''applicationId'', JStr (cb_applicationId cv)), (''runs'', JList (map run_evidence_json (cb_runs cv))),
      (''aggregated'', or_null (outcome_json txt) (cb_aggregated cv)),
      (''error'', or_null (\<lambda>m. JObj [(''code'', JStr ''RUN_FAILED''), (''message'', m)]) (cb_error cv)),
      (''documentId'', JStr (cb_documentId cv))]"

definition batch_result_json :: "(rat \<Rightarrow> string) \<Rightarrow> cv_block list \<Rightarrow> json" where
  "batch_result_json txt cvs = JObj [(''cvs'', JList (map (cv_result_json txt) cvs))]"

definition batch_error_json :: "string \<times> string \<Rightarrow> json" where
  "batch_error_json e = JObj [(''code'', JStr (fst e)), (''message'', JStr (snd e))]"

definition status_body :: "(rat \<Rightarrow> string) \<Rightarrow> status_response \<Rightarrow> dict" where
  "status_body txt r =
     [(''submissionId'', JStr (sp_submission_id r)), (''status'', JStr (sp_status r)),
      (''progress'', or_null batch_progress_json (sp_progress r)), (''estimatedCompletionSeconds'', JNull),
      (''retryAfterSeconds'', or_null nat_json (sp_retry_after r)),
      (''result'', or_null (batch_result_json txt) (sp_result r)), (''error'', or_null batch_error_json (sp_error r))]"

definition submit_body :: "submit_response \<Rightarrow> dict" where
  "submit_body r =
     [(''submissionId'', JStr (su_submission_id r)), (''status'', JStr (su_status r)), (''pollUrl'', JStr (su_poll_url r)),
      (''estimatedCompletionSeconds'', nat_json (su_estimated r))]"

definition cancel_body :: "string \<Rightarrow> dict" where
  "cancel_body w = [(''status'', JStr w)]"

definition json_answer :: "nat \<Rightarrow> dict \<Rightarrow> http_answer" where
  "json_answer st d = \<lparr>an_status = st, an_body = d, an_media = ''application/json'', an_headers = []\<rparr>"

subsection \<open>Requests\<close>

text \<open>
  The route a request is for; the body of a submission is nothing when it is not JSON.
  \<open>rq_fresh\<close> is the \<^verbatim>\<open>uuid4\<close> of the middleware, \<open>rq_reach\<close> whether the Functions
  host can be reached.
\<close>

datatype route_target = SubmitBatch "json option" | PollBatch string | CancelBatch string | Health

record http_request =
  rq_target :: route_target
  rq_headers :: "(string \<times> string) list"
  rq_fresh :: string
  rq_reach :: bool

text \<open>
  \<open>se_bearer\<close> is what FastAPI's bearer scheme takes from the headers, which
  \<^verbatim>\<open>_get_token\<close> hands on, and \<open>se_invalid\<close> the error list of a refused request.
\<close>

record server_env =
  se_host :: "cv_block list host_env"
  se_api :: "cv_block list api_env"
  se_auth :: auth_env
  se_settings :: auth_settings
  se_readers :: readers
  se_bearer :: "(string \<times> string) list \<Rightarrow> string option"
  se_invalid :: "http_request \<Rightarrow> json"
  se_float :: "rat \<Rightarrow> string"

record server_state =
  sv_hub :: "cv_block list hub"
  sv_auth :: auth_state
  sv_blobs :: blobs

definition invalid_request :: "server_env \<Rightarrow> http_request \<Rightarrow> http_answer" where
  "invalid_request env rq = json_answer 422 [(''detail'', se_invalid env rq)]"

definition with_token ::
  "server_env \<Rightarrow> http_request \<Rightarrow> (server_state \<Rightarrow> server_state \<times> http_answer route) \<Rightarrow> server_state \<Rightarrow>
   server_state \<times> http_answer route" where
  \<comment> \<open>\<^verbatim>\<open>Depends(require_auth)\<close>\<close>
  "with_token env rq k s =
     (case require_auth (se_auth env) (se_settings env) (se_bearer env (rq_headers rq)) (sv_auth s) of
        (a, Inl e) \<Rightarrow> (s\<lparr>sv_auth := a\<rparr>, Inl e)
      | (a, Inr claims) \<Rightarrow> k (s\<lparr>sv_auth := a\<rparr>))"

definition bounded :: "nat \<Rightarrow> nat \<Rightarrow> string \<Rightarrow> bool" where
  "bounded lo hi x \<longleftrightarrow> lo \<le> length x \<and> length x \<le> hi"

definition idempotency_key :: "http_request \<Rightarrow> string option" where
  "idempotency_key rq =
     (case header_get (rq_headers rq) ''Idempotency-Key'' of
        None \<Rightarrow> None | Some k \<Rightarrow> (if bounded 1 128 k then Some k else None))"

definition serve_submit :: "server_env \<Rightarrow> http_request \<Rightarrow> json \<Rightarrow> server_state \<Rightarrow> server_state \<times> http_answer route" where
  "serve_submit env rq body s =
     (case (validate_submit (se_readers env) body, idempotency_key rq) of
        (Inr q, Some key) \<Rightarrow>
          (let (h, r) = submit_batch (se_host env) (se_api env) (rq_reach rq) key (rq_headers rq) q (sv_hub s)
           in (s\<lparr>sv_hub := h\<rparr>, map_sum id (\<lambda>su. json_answer 202 (submit_body su)) r))
      | _ \<Rightarrow> (s, Inr (invalid_request env rq)))"

definition serve_cancel :: "server_env \<Rightarrow> http_request \<Rightarrow> string \<Rightarrow> server_state \<Rightarrow> server_state \<times> http_answer route" where
  "serve_cancel env rq x s =
     (if bounded 1 128 x
      then (let (h, r) = cancel_batch (se_host env) (se_api env) (rq_reach rq) x (sv_hub s)
            in (s\<lparr>sv_hub := h\<rparr>, map_sum id (\<lambda>(st, w). json_answer st (cancel_body w)) r))
      else (s, Inr (invalid_request env rq)))"

definition serve_poll :: "server_env \<Rightarrow> http_request \<Rightarrow> string \<Rightarrow> server_state \<Rightarrow> http_answer route" where
  "serve_poll env rq x s =
     (if bounded 1 128 x
      then map_sum id (\<lambda>r. json_answer 200 (status_body (se_float env) r))
             (get_batch_status (se_host env) (se_api env) (rq_reach rq) x (sv_hub s) (sv_blobs s))
      else Inr (invalid_request env rq))"

definition run_target :: "server_env \<Rightarrow> http_request \<Rightarrow> server_state \<Rightarrow> server_state \<times> http_answer route" where
  "run_target env rq s =
     (case rq_target rq of
        SubmitBatch None \<Rightarrow> (s, Inr (invalid_request env rq))
      | SubmitBatch (Some body) \<Rightarrow> with_token env rq (serve_submit env rq body) s
      | PollBatch x \<Rightarrow> (s, serve_poll env rq x s)
      | CancelBatch x \<Rightarrow> with_token env rq (serve_cancel env rq x) s
      | Health \<Rightarrow> (s, Inr health))"

definition exception_layer :: "bool \<Rightarrow> http_answer route \<Rightarrow> string + http_answer" where
  "exception_layer auth r =
     (case r of
        Inr a \<Rightarrow> Inr a
      | Inl (OtherRaised t) \<Rightarrow> Inl t
      | Inl e \<Rightarrow> Inr (handle_exn auth e))"

definition serve :: "server_env \<Rightarrow> http_request \<Rightarrow> server_state \<Rightarrow> server_state \<times> http_answer" where
  "serve env rq s =
     (let (s', r) = run_target env rq s;
          auth = st_auth_required (se_settings env)
      in (s', case correlation_id_middleware (rq_fresh rq) (rq_headers rq) (\<lambda>v. exception_layer auth r) of
            Inl t \<Rightarrow> unhandled_exception_handler auth t
          | Inr a \<Rightarrow> a))"

definition serve_all :: "server_env \<Rightarrow> http_request list \<Rightarrow> server_state \<Rightarrow> server_state" where
  "serve_all env rqs s = fold (\<lambda>rq s. fst (serve env rq s)) rqs s"

subsection \<open>Laws\<close>

text \<open>What the token check lets through when authentication is on.\<close>

definition let_in :: "server_env \<Rightarrow> http_request \<Rightarrow> bool" where
  "let_in env rq \<longleftrightarrow> (\<exists>t key claims. se_bearer env (rq_headers rq) = Some t \<and>
     au_verify (se_auth env) t key (st_audience (se_settings env)) (st_issuer (se_settings env)) = Inr claims)"

lemma require_auth_verified:
  assumes "st_auth_required st" and "require_auth env st token s = (s', Inr claims)"
  shows "\<exists>t key. token = Some t \<and> au_verify env t key (st_audience st) (st_issuer st) = Inr claims"
  using assms by (auto simp: require_auth_def decode_jwt_def split: option.splits sum.splits prod.splits)

lemma require_auth_401:
  assumes "require_auth env st token s = (s', Inl e)"
  shows "\<exists>d. e = HttpRaised 401 d"
  using assms by (auto simp: require_auth_def decode_jwt_def split: option.splits sum.splits prod.splits if_splits)

lemma with_token_shut:
  assumes "st_auth_required (se_settings env)" and "\<not> let_in env rq"
  shows "\<exists>a d. with_token env rq k s = (s\<lparr>sv_auth := a\<rparr>, Inl (HttpRaised 401 d))"
proof -
  obtain a r where r: "require_auth (se_auth env) (se_settings env) (se_bearer env (rq_headers rq)) (sv_auth s) = (a, r)"
    by (metis surj_pair)
  have "\<exists>e. r = Inl e"
  proof (cases r)
    case (Inr claims)
    from require_auth_verified[OF assms(1) r[unfolded Inr]] assms(2) show ?thesis by (auto simp: let_in_def)
  qed simp
  then obtain e where e: "r = Inl e" ..
  from require_auth_401[OF r[unfolded e]] obtain d where "e = HttpRaised 401 d" ..
  with r e show ?thesis by (auto simp: with_token_def)
qed

lemma with_token_off: "\<not> st_auth_required (se_settings env) \<Longrightarrow> with_token env rq k s = k s"
  by (simp add: with_token_def require_auth_def)

text \<open>The answer of the whole stack, by what the route gave.\<close>

lemma serve_answer:
  assumes "run_target env rq s = (s', r)"
  shows "fst (serve env rq s) = s'"
    and "r = Inr a \<Longrightarrow> snd (serve env rq s) = a\<lparr>an_headers := (''X-Correlation-Id'', rv_correlation_id (ensure_correlation_id (rq_fresh rq) (rq_headers rq))) # an_headers a\<rparr>"
    and "r = Inl (HttpRaised st d) \<Longrightarrow> an_status (snd (serve env rq s)) = st"
    and "r = Inl (OtherRaised t) \<Longrightarrow> snd (serve env rq s) = unhandled_exception_handler (st_auth_required (se_settings env)) t"
  using assms by (simp_all add: serve_def exception_layer_def correlation_id_middleware_def handle_exn_def Let_def)

lemma serve_correlated:
  assumes "run_target env rq s = (s', r)" and "\<And>t. r \<noteq> Inl (OtherRaised t)"
  shows "(''X-Correlation-Id'', rv_correlation_id (ensure_correlation_id (rq_fresh rq) (rq_headers rq))) \<in> set (an_headers (snd (serve env rq s)))"
proof -
  have "\<exists>a. exception_layer (st_auth_required (se_settings env)) r = Inr a"
    using assms(2) by (auto simp: exception_layer_def split: sum.splits route_exn.splits)
  then show ?thesis using assms(1) by (auto simp: serve_def correlation_id_middleware_def Let_def)
qed

lemma run_target_shut:
  assumes "st_auth_required (se_settings env)" and "\<not> let_in env rq" and "run_target env rq s = (s', r)"
  shows "sv_hub s' = sv_hub s" and "sv_blobs s' = sv_blobs s"
    and "\<forall>x. rq_target rq \<noteq> PollBatch x \<Longrightarrow> rq_target rq \<noteq> Health \<Longrightarrow> rq_target rq \<noteq> SubmitBatch None \<Longrightarrow> \<exists>d. r = Inl (HttpRaised 401 d)"
proof -
  obtain k where k: "rq_target rq = PollBatch x \<Longrightarrow> run_target env rq s = (s, serve_poll env rq x s)"
    "rq_target rq = Health \<Longrightarrow> run_target env rq s = (s, Inr health)"
    "rq_target rq = SubmitBatch None \<Longrightarrow> run_target env rq s = (s, Inr (invalid_request env rq))"
    "\<forall>x. rq_target rq \<noteq> PollBatch x \<Longrightarrow> rq_target rq \<noteq> Health \<Longrightarrow> rq_target rq \<noteq> SubmitBatch None \<Longrightarrow>
       run_target env rq s = with_token env rq k s" for x
    by (rule that[of "case rq_target rq of SubmitBatch (Some b) \<Rightarrow> serve_submit env rq b | CancelBatch x \<Rightarrow> serve_cancel env rq x"])
       (auto simp: run_target_def split: route_target.splits option.splits)
  from with_token_shut[OF assms(1,2)] obtain a d where shut: "with_token env rq k s = (s\<lparr>sv_auth := a\<rparr>, Inl (HttpRaised 401 d))" by blast
  have other: "s' = s\<lparr>sv_auth := a\<rparr> \<and> r = Inl (HttpRaised 401 d)"
    if "\<forall>x. rq_target rq \<noteq> PollBatch x" "rq_target rq \<noteq> Health" "rq_target rq \<noteq> SubmitBatch None"
    using k(4)[OF that] shut assms(3) by simp
  have "s' = s \<or> s' = s\<lparr>sv_auth := a\<rparr>"
    using other k(1-3) assms(3) by (cases "rq_target rq") auto
  then show "sv_hub s' = sv_hub s" "sv_blobs s' = sv_blobs s" by auto
  show "\<forall>x. rq_target rq \<noteq> PollBatch x \<Longrightarrow> rq_target rq \<noteq> Health \<Longrightarrow> rq_target rq \<noteq> SubmitBatch None \<Longrightarrow> \<exists>d. r = Inl (HttpRaised 401 d)"
    using other by blast
qed

lemma reads_change_nothing: "rq_target rq \<in> {PollBatch x, Health, SubmitBatch None} \<Longrightarrow> fst (serve env rq s) = s"
  by (cases "run_target env rq s") (auto simp: serve_answer(1) run_target_def)

lemma blobs_kept: "sv_blobs (fst (serve env rq s)) = sv_blobs s"
  by (cases "run_target env rq s")
     (auto simp: serve_answer(1) run_target_def with_token_def serve_submit_def serve_cancel_def Let_def
        split: route_target.splits option.splits sum.splits prod.splits if_splits)

end
