(* ===== verification/ServerProperties.thy ===== *)
theory ServerProperties
  imports Server ApiProperties AuthProperties
begin

text \<open>The properties of the public API as a whole, with a server that requires a token.\<close>

definition changing :: "server_env \<Rightarrow> http_request \<Rightarrow> bool" where
  \<comment> \<open>the requests a route may act on\<close>
  "changing env rq =
     (case rq_target rq of
        SubmitBatch (Some b) \<Rightarrow>
          (case validate_submit (se_readers env) b of Inl e \<Rightarrow> False | Inr q \<Rightarrow> idempotency_key rq = Some (sq_batch_id q))
      | CancelBatch x \<Rightarrow> bounded 1 128 x
      | _ \<Rightarrow> False)"

lemma with_token_hub:
  assumes "with_token env rq k s = (s', r)" and "\<And>t. sv_hub (fst (k (s\<lparr>sv_auth := t\<rparr>))) = sv_hub s"
  shows "sv_hub s' = sv_hub s"
  using assms by (auto simp: with_token_def split: prod.splits sum.splits) (metis fst_conv)

lemma serve_submit_hub:
  assumes "\<not> (case validate_submit (se_readers env) b of Inl e \<Rightarrow> False | Inr q \<Rightarrow> idempotency_key rq = Some (sq_batch_id q))"
  shows "sv_hub (fst (serve_submit env rq b (s\<lparr>sv_auth := a\<rparr>))) = sv_hub s"
  using assms
  by (auto simp: serve_submit_def submit_batch_def split: sum.splits option.splits)

lemma run_target_hub:
  assumes "\<not> changing env rq" and "run_target env rq s = (s', r)"
  shows "sv_hub s' = sv_hub s"
proof (cases "rq_target rq")
  case (SubmitBatch body)
  show ?thesis
  proof (cases body)
    case (Some b)
    with SubmitBatch assms have t: "with_token env rq (serve_submit env rq b) s = (s', r)" by (simp add: run_target_def)
    from with_token_hub[OF t serve_submit_hub] assms(1) SubmitBatch Some show ?thesis by (simp add: changing_def)
  qed (use SubmitBatch assms in \<open>simp add: run_target_def\<close>)
next
  case (CancelBatch x)
  with assms have t: "with_token env rq (serve_cancel env rq x) s = (s', r)" by (simp add: run_target_def)
  have "sv_hub (fst (serve_cancel env rq x (s\<lparr>sv_auth := a\<rparr>))) = sv_hub s" for a
    using assms(1) CancelBatch by (simp add: changing_def serve_cancel_def)
  from with_token_hub[OF t this] show ?thesis .
qed (use assms in \<open>simp_all add: run_target_def\<close>)

lemma serve_hub:
  assumes "st_auth_required (se_settings env)" and "\<not> (let_in env rq \<and> changing env rq)"
  shows "sv_hub (fst (serve env rq s)) = sv_hub s"
proof -
  obtain s' r where t: "run_target env rq s = (s', r)" by (metis surj_pair)
  then show ?thesis
    using serve_answer(1)[OF t] run_target_shut(1)[OF assms(1) _ t] run_target_hub[OF _ t] assms(2) by auto
qed

lemma serve_all_hub:
  assumes "st_auth_required (se_settings env)" and "\<forall>rq \<in> set rqs. \<not> (let_in env rq \<and> changing env rq)"
  shows "sv_hub (serve_all env rqs s) = sv_hub s"
  using assms(2)
proof (induction rqs arbitrary: s)
  case (Cons rq rqs)
  then have "sv_hub (serve_all env rqs (fst (serve env rq s))) = sv_hub (fst (serve env rq s))" by simp
  with serve_hub[OF assms(1), of rq s] Cons.prems show ?case by (simp add: serve_all_def)
qed (simp add: serve_all_def)

text \<open>C26: with authentication on, nothing is started or cancelled without a verified token: when
  any sequence of requests changed the task hub, one of them carried a token that verified for
  the configured audience and issuer and was a valid submission under its own key or a
  cancellation. A submission or cancellation without such a token is answered 401, whatever it
  asks for, with the correlation id of the request. A poll needs no token: it is answered with
  the whole result in any case.\<close>

theorem nothing_changes_without_token:
  assumes "st_auth_required (se_settings env)"
  shows "(sv_hub (serve_all env rqs s) \<noteq> sv_hub s \<longrightarrow> (\<exists>rq \<in> set rqs. changing env rq \<and>
      (\<exists>t key claims. se_bearer env (rq_headers rq) = Some t \<and>
         au_verify (se_auth env) t key (st_audience (se_settings env)) (st_issuer (se_settings env)) = Inr claims))) \<and>
    (\<forall>(rq :: http_request) b x. \<not> let_in env rq \<and> rq_target rq \<in> {SubmitBatch (Some b), CancelBatch x} \<longrightarrow>
      an_status (snd (serve env rq s)) = 401 \<and>
      (''X-Correlation-Id'', rv_correlation_id (ensure_correlation_id (rq_fresh rq) (rq_headers rq))) \<in>
        set (an_headers (snd (serve env rq s)))) \<and>
    (\<forall>(rq :: http_request) x resp. rq_target rq = PollBatch x \<and> bounded 1 128 x \<and>
      get_batch_status (se_host env) (se_api env) (rq_reach rq) x (sv_hub s) (sv_blobs s) = Inr resp \<longrightarrow>
      an_status (snd (serve env rq s)) = 200 \<and> an_body (snd (serve env rq s)) = status_body (se_float env) resp)"
proof (intro conjI allI impI)
  assume "sv_hub (serve_all env rqs s) \<noteq> sv_hub s"
  with serve_all_hub[OF assms] have "\<exists>rq \<in> set rqs. let_in env rq \<and> changing env rq" by blast
  then show "\<exists>rq \<in> set rqs. changing env rq \<and> (\<exists>t key claims. se_bearer env (rq_headers rq) = Some t \<and>
      au_verify (se_auth env) t key (st_audience (se_settings env)) (st_issuer (se_settings env)) = Inr claims)"
    by (auto simp: let_in_def)
next
  fix rq :: http_request and b x
  assume a: "\<not> let_in env rq \<and> rq_target rq \<in> {SubmitBatch (Some b), CancelBatch x}"
  obtain s' r where t: "run_target env rq s = (s', r)" by (metis surj_pair)
  from a have "\<exists>d. r = Inl (HttpRaised 401 d)" by (intro run_target_shut(3)[OF assms _ t]) auto
  then obtain d where r: "r = Inl (HttpRaised 401 d)" ..
  from serve_answer(3)[OF t r] show "an_status (snd (serve env rq s)) = 401" .
  show "(''X-Correlation-Id'', rv_correlation_id (ensure_correlation_id (rq_fresh rq) (rq_headers rq))) \<in> set (an_headers (snd (serve env rq s)))"
    by (rule serve_correlated[OF t]) (simp add: r)
next
  fix rq :: http_request and x resp
  assume a: "rq_target rq = PollBatch x \<and> bounded 1 128 x \<and>
    get_batch_status (se_host env) (se_api env) (rq_reach rq) x (sv_hub s) (sv_blobs s) = Inr resp"
  then have t: "run_target env rq s = (s, Inr (json_answer 200 (status_body (se_float env) resp)))"
    by (simp add: run_target_def serve_poll_def)
  from serve_answer(2)[OF t refl]
  show "an_status (snd (serve env rq s)) = 200" "an_body (snd (serve env rq s)) = status_body (se_float env) resp"
    by (simp_all add: json_answer_def)
qed

definition gate_env :: server_env where
  "gate_env = \<lparr>se_host = api_unknown, se_api = api_client, se_auth = au_env, se_settings = au_settings,
     se_readers = api_readers, se_bearer = (\<lambda>hs. header_get hs ''Authorization''), se_invalid = (\<lambda>rq. JNull), se_float = (\<lambda>x. [])\<rparr>"

definition gate_state :: server_state where
  "gate_state = \<lparr>sv_hub = hub_with ''b1'' (api_status RsRunning NoOutput), sv_auth = initial_auth, sv_blobs = Map.empty\<rparr>"

definition gate_request :: "(string \<times> string) list \<Rightarrow> http_request" where
  "gate_request hs = \<lparr>rq_target = CancelBatch ''b1'', rq_headers = hs, rq_fresh = ''f'', rq_reach = True\<rparr>"

theorem nothing_changes_without_token_witness:
  "an_status (snd (serve gate_env (gate_request []) gate_state)) = 401 \<and>
   an_status (snd (serve gate_env (gate_request [(''Authorization'', ''alice'')]) gate_state)) = 202"
proof
  have on: "st_auth_required (se_settings gate_env)" by (simp add: gate_env_def au_settings_def)
  have "\<not> let_in gate_env (gate_request [])" by (simp add: let_in_def gate_env_def gate_request_def header_get_def)
  with nothing_changes_without_token[OF on, of "[]" gate_state]
  show "an_status (snd (serve gate_env (gate_request []) gate_state)) = 401" by (simp add: gate_request_def)
  show "an_status (snd (serve gate_env (gate_request [(''Authorization'', ''alice'')]) gate_state)) = 202" by code_simp
qed

end
