(* ===== verification/EngineScores.thy ===== *)
theory EngineScores
  imports EngineLoop FinalizeProperties
begin

text \<open>
  The whole way of a score: the fake engine draws it, writes it into its output artifact as JSON
  text and names the artifact in its result; the intake reads and validates the result, the
  orchestrator hands it to the finalize activity, which reads the artifact back and aggregates.
  What is assumed is that the storage gives back what was uploaded and that \<^verbatim>\<open>float\<close>
  reads what \<^verbatim>\<open>repr\<close> wrote.
\<close>

subsection \<open>One call of the engine\<close>

record engine_call =
  ec_env :: fake_env
  ec_body :: string
  ec_text :: string
  ec_message :: run_message
  ec_props :: "(string \<times> string) list"
  ec_before :: fake_state
  ec_after :: fake_state
  ec_accepted :: run_result_message
  ec_trace :: string

definition floats_read :: "(string \<Rightarrow> json option) \<Rightarrow> fake_env \<Rightarrow> bool" where
  "floats_read pf env \<longleftrightarrow>
     (\<forall>i \<in> {3..<7}. float_text (fk_repr env (score_at env i)) \<and>
        pf (fk_repr env (score_at env i)) = Some (JFloat (score_at env i) (fk_repr env (score_at env i)))) \<and>
     pf ''0.0'' = Some (JFloat 0 ''0.0'')"

text \<open>
  The engine answered the message without failing on purpose, the intake accepted the answer as it
  was sent, and the tagged result is the payload it raised.
\<close>

definition engine_answered :: "intake_env \<Rightarrow> finalize_env \<Rightarrow> engine_call \<Rightarrow> tagged_result \<Rightarrow> bool" where
  "engine_answered ienv fenv c tr \<longleftrightarrow>
     (let env = ec_env c; rtext = json_dumps (fe_body (last (fs_sent (ec_after c))))
      in fk_decode env (ec_body c) = Some (ec_text c) \<and> fk_loads env (ec_text c) = Some (dump_run_message (ec_message c)) \<and>
         msg_run_id (ec_message c) \<noteq> [] \<and>
         fake_engine_run env (ec_body c) (wire_props (ec_props c)) (ec_before c) = (ec_after c, Inr ()) \<and>
         env_float env ''FAKE_FAILURE_RATE'' 0 \<le> fk_random env 2 \<and>
         ie_decode ienv rtext = Some rtext \<and>
         sb_accept ienv \<lparr>sb_body = rtext, sb_props = result_props (fe_props (last (fs_sent (ec_after c))))\<rparr> = Inr (ec_accepted c) \<and>
         tr_result tr = sb_payload (ec_accepted c) (ec_trace c) \<and>
         (\<forall>u t. fs_blobs (ec_after c) u = Some t \<longrightarrow> fz_fetch fenv (JStr u) = Inr t) \<and>
         floats_read (fz_float fenv) env)"

lemma answer_run_success:
  assumes "answer_run env run_id cid tp s = (s', Inr ())" and "env_float env ''FAKE_FAILURE_RATE'' 0 \<le> fk_random env 2"
  obtains url r where "fs_sent s' = fs_sent s @ [r]" "fe_body r = JObj (result_body env run_id cid False (artifacts_of url))"
    "fs_blobs s' url = Some (json_dumps (JObj (build_output env run_id)))" "url \<noteq> []"
proof -
  from assms obtain ns account where e: "environ env ''SB_NAMESPACE'' = Inr ns" "environ env ''BLOB_ACCOUNT'' = Inr account"
    by (auto simp: answer_run_def Let_def split: sum.splits)
  let ?c = "env_text env ''FAKE_ARTIFACT_CONTAINER'' ''batch-results''"
  obtain s1 w where w: "write_output_artifact env account ?c run_id (build_output env run_id) s = (s1, w)" by (metis surj_pair)
  with assms e obtain url where url: "w = Inr url"
    "send_result env ns (env_text env ''SB_RESULTS_QUEUE'' ''engine-results'') (result_body env run_id cid False (artifacts_of url)) cid
       (trace_props run_id cid tp) s1 = (s', Inr ())"
    by (cases w) (simp_all add: answer_run_def trace_props_def)
  from w url(1) have s1: "fs_blobs s1 url = Some (json_dumps (JObj (build_output env run_id)))" "fs_sent s1 = fs_sent s" "url \<noteq> []"
    by (auto simp: write_output_artifact_def artifact_url_def Let_def split: sum.splits)
  from url(2) have "fs_blobs s' = fs_blobs s1" by (auto simp: send_result_def split: sum.splits)
  with s1 send_result_sent[OF url(2)] that show thesis by auto
qed

lemma build_output_printed: "floats_read pf env \<Longrightarrow> printed pf (JObj (build_output env (JStr r)))"
proof -
  assume f: "floats_read pf env"
  have z: "float_text ''0.0''" by code_simp
  from f have s: "float_text (fk_repr env (score_at env i)) \<and>
      pf (fk_repr env (score_at env i)) = Some (JFloat (score_at env i) (fk_repr env (score_at env i)))" if "i \<in> {3, 4, 5, 6}" for i
    using that by (auto simp: floats_read_def)
  from f have "pf ''0.0'' = Some (JFloat 0 ''0.0'')" by (simp add: floats_read_def)
  with z s show ?thesis by (simp add: build_output_def float_json_def)
qed

definition engine_artifact :: "string \<Rightarrow> json" where
  "engine_artifact url = JObj [(''name'', JStr ''output.json''), (''blob_uri'', JStr url),
     (''mime'', JStr ''application/json''), (''size_bytes'', JNull), (''sha256'', JNull)]"

lemma engine_result:
  assumes "engine_answered ienv fenv c tr"
  shows "\<exists>url. dget (tr_result tr) ''status'' = JStr ''Succeeded'' \<and> dget (tr_result tr) ''artifacts'' = JList [engine_artifact url] \<and>
    read_output_artifact fenv [engine_artifact url] = Some (build_output (ec_env c) (JStr (msg_run_id (ec_message c))))"
proof -
  let ?env = "ec_env c" and ?r = "msg_run_id (ec_message c)" and ?c = "msg_correlation_id (ec_message c)"
  note a = assms[unfolded engine_answered_def Let_def]
  have "py_or (JStr ?c) (JStr []) = JStr ?c" by (simp add: py_or_def)
  with a obtain tp where run: "answer_run ?env (JStr ?r) (JStr ?c) tp (ec_before c) = (ec_after c, Inr ())"
    by (auto simp: fake_engine_run_def dump_run_message_def Let_def split: if_splits)
  from a have nofail: "env_float ?env ''FAKE_FAILURE_RATE'' 0 \<le> fk_random ?env 2" by blast
  obtain url r where r: "fs_sent (ec_after c) = fs_sent (ec_before c) @ [r]"
    "fe_body r = JObj (result_body ?env (JStr ?r) (JStr ?c) False (artifacts_of url))"
    "fs_blobs (ec_after c) url = Some (json_dumps (JObj (build_output ?env (JStr ?r))))" "url \<noteq> []"
    by (rule answer_run_success[OF run nofail])
  let ?b = "result_body ?env (JStr ?r) (JStr ?c) False (artifacts_of url)"
  have arts: "artifacts_of url = JNull \<or> (\<exists>u. artifacts_of url = artifacts_of u)" by blast
  from a r(1,2) have "Inr (ec_accepted c) = validate_run_result ?b"
    by (auto simp: sb_accept_def normalize_completion_payload_def ie_loads_def result_body_read[OF arts]
        result_body_accepted(1)[OF arts])
  then have m: "rm_status (ec_accepted c) = ''Succeeded''"
    "rm_artifacts (ec_accepted c) = Some [\<lparr>ai_name = ''output.json'', ai_blob_uri = url, ai_mime = Some ''application/json'',
       ai_size_bytes = None, ai_sha256 = None\<rparr>]"
    by (simp_all add: validate_run_result_def result_body_def req_str_def req_int_def opt_str_def opt_artifacts_def
        artifacts_of_def opt_int_def)
  from a have tr: "tr_result tr = sb_payload (ec_accepted c) (ec_trace c)" by blast
  have "dget (tr_result tr) ''status'' = JStr ''Succeeded''" "dget (tr_result tr) ''artifacts'' = JList [engine_artifact url]"
    by (simp_all add: tr sb_payload_def dump_run_result_def m dump_artifact_def engine_artifact_def)
  moreover have "read_output_artifact fenv [engine_artifact url] = Some (build_output ?env (JStr ?r))"
  proof (rule prose_is_ignored[of _ "[(''name'', JStr ''output.json''), (''blob_uri'', JStr url), (''mime'', JStr ''application/json''),
        (''size_bytes'', JNull), (''sha256'', JNull)]" _ "[]" _ "[]"])
    show "select_artifact [engine_artifact url] = Some (JObj [(''name'', JStr ''output.json''), (''blob_uri'', JStr url),
        (''mime'', JStr ''application/json''), (''size_bytes'', JNull), (''sha256'', JNull)])"
      using r(4) by (simp add: select_artifact_def engine_artifact_def)
    show "printed (fz_float fenv) (JObj (build_output ?env (JStr ?r)))" using a by (intro build_output_printed) blast
  qed (use a r(3) in auto)
  ultimately show ?thesis by blast
qed

subsection \<open>All runs of an application\<close>

lemma score_at_double: "fl64 (score_at env i) = score_at env i"
  by (simp add: score_at_def round2_def binary64.idem)

definition engine_signal :: "fake_env \<Rightarrow> cv_signal" where
  "engine_signal env = \<lparr>sg_score = Some (score_at env 3), sg_met = (met_at env 7 \<and> met_at env 8),
     sg_decision = (if met_at env 7 \<and> met_at env 8 then ''Approve'' else ''Reject'')\<rparr>"

lemma engine_outputs:
  assumes "list_all2 (engine_answered ienv fenv) cs trs"
  shows "\<exists>outs srcs. collect_outputs fenv (map (run_payload_of cv) trs) = Inr (outs, srcs) \<and>
    map_res extract_cv_signal outs = Inr (map (\<lambda>c. Some (engine_signal (ec_env c))) cs) \<and>
    list_all succeeded (map (run_payload_of cv) trs)"
  using assms
proof (induction rule: list_all2_induct)
  case (Cons c cs tr trs)
  from engine_result[OF Cons(1)] obtain url where u: "dget (tr_result tr) ''status'' = JStr ''Succeeded''"
    "dget (tr_result tr) ''artifacts'' = JList [engine_artifact url]"
    "read_output_artifact fenv [engine_artifact url] = Some (build_output (ec_env c) (JStr (msg_run_id (ec_message c))))" by blast
  from Cons(3) obtain outs srcs where "collect_outputs fenv (map (run_payload_of cv) trs) = Inr (outs, srcs)"
    "map_res extract_cv_signal outs = Inr (map (\<lambda>c. Some (engine_signal (ec_env c))) cs)"
    "list_all succeeded (map (run_payload_of cv) trs)" by blast
  moreover have "extract_cv_signal (build_output (ec_env c) x) = Inr (Some (engine_signal (ec_env c)))" for x
    by (simp add: build_output_signal engine_signal_def score_at_double)
  moreover have "rp_artifacts (run_payload_of cv tr) = JList [engine_artifact url]" "succeeded (run_payload_of cv tr)"
    by (simp_all add: run_payload_of_def Let_def u(1,2) succeeded_def)
  ultimately show ?case by (simp add: py_or_def u(3))
qed simp

text \<open>C38: the scores the engine drew are the scores the client gets: when every run of a CV was
  answered by the fake engine, the block of the CV in the final document has an aggregate whose
  final score is the median of the drawn scores, whose must-have verdict is that of all runs,
  whose decision is the most common of theirs, and which counts every run; every value went
  through the JSON text of the artifact and of the result on the way.\<close>

theorem engine_scores_delivered:
  assumes "list_all2 (engine_answered ienv fenv) cs (app_runs results (cv_applicationId cv))" and "cs \<noteq> []"
  shows "\<exists>b a. cv_block_of fenv results cv = Inr b \<and> cb_aggregated b = Some a \<and>
    ca_finalScore a = Some (median (map (\<lambda>c. score_at (ec_env c) 3) cs)) \<and>
    ca_mustHaveResult a = list_all (\<lambda>c. met_at (ec_env c) 7 \<and> met_at (ec_env c) 8) cs \<and>
    ca_finalDecision a = most_common (fz_set_iter fenv)
      (map (\<lambda>c. if met_at (ec_env c) 7 \<and> met_at (ec_env c) 8 then ''Approve'' else ''Reject'') cs) \<and>
    ca_runsCount a = length cs"
proof -
  let ?runs = "map (run_payload_of cv) (app_runs results (cv_applicationId cv))"
  let ?sigs = "map (\<lambda>c. Some (engine_signal (ec_env c))) cs"
  obtain outs srcs where o: "collect_outputs fenv ?runs = Inr (outs, srcs)" "map_res extract_cv_signal outs = Inr ?sigs"
    "list_all succeeded ?runs" using engine_outputs[OF assms(1)] by blast
  have len: "length outs = length cs" using map_res_length[OF o(2)] by simp
  with assms(2) have ne: "outs \<noteq> []" by auto
  have f: "filter succeeded ?runs = ?runs" using o(3) by (simp only: filter_id_conv list_all_iff)
  from assms have ner: "?runs \<noteq> []" by (auto dest: list_all2_lengthD)
  have parsed: "List.map_filter (\<lambda>s. s) ?sigs = map (\<lambda>c. engine_signal (ec_env c)) cs"
    by (simp add: List.map_filter_def comp_def)
  have scores: "cv_scores ?sigs = map (\<lambda>c. score_at (ec_env c) 3) cs"
    by (simp add: cv_scores_def List.map_filter_def comp_def engine_signal_def)
  obtain a where a: "aggregate_cv_scoring (fz_set_iter fenv) outs srcs = Inr (Some a)"
    using ne o(2) parsed assms(2) by (auto simp: aggregate_cv_scoring_def Let_def)
  then have "aggregate_runs fenv ?runs = Inr (Some a)"
    using ner unfolding aggregate_runs_def f by (simp add: o(1) aggregate_profile)
  then have "\<exists>b. cv_block_of fenv results cv = Inr b \<and> cb_aggregated b = Some a" by (simp add: cv_block_of_def Let_def)
  moreover have "ca_finalScore a = Some (median (cv_scores ?sigs)) \<and> ca_mustHaveResult a = list_all sg_met (List.map_filter (\<lambda>s. s) ?sigs) \<and>
      ca_finalDecision a = most_common (fz_set_iter fenv) (map sg_decision (List.map_filter (\<lambda>s. s) ?sigs)) \<and>
      ca_runsCount a = length (List.map_filter (\<lambda>s. s) ?sigs)"
    using a by (rule aggregate_cv_cases) (use o(2) scores assms(2) in simp)
  ultimately show ?thesis
    unfolding parsed scores by (auto simp: engine_signal_def list.pred_map comp_def)
qed

subsection \<open>A run scored 7\<close>

definition seven_engine :: fake_env where
  "seven_engine = loop_engine\<lparr>fk_repr := (\<lambda>x. ''7.0''),
     fk_float := (\<lambda>n. Some (if n = ''FAKE_SCORE_MIN'' \<or> n = ''FAKE_SCORE_MAX'' then 7
       else if n = ''FAKE_MUST_HAVE_PASS_RATE'' then 1 else 0))\<rparr>"

definition seven_url :: string where
  "seven_url = artifact_url ''BLOB_ACCOUNT'' ''FAKE_ARTIFACT_CONTAINER'' (JStr ''r1'')"

definition seven_after :: fake_state where
  "seven_after = \<lparr>fs_blobs = [seven_url \<mapsto> json_dumps (JObj (build_output seven_engine (JStr ''r1'')))],
     fs_sent = [\<lparr>fe_namespace = ''SB_NAMESPACE'', fe_queue = ''SB_RESULTS_QUEUE'',
       fe_body = JObj (result_body seven_engine (JStr ''r1'') (JStr ''c'') False (artifacts_of seven_url)),
       fe_correlation_id = JStr ''c'', fe_message_id = ''u'', fe_props = trace_props (JStr ''r1'') (JStr ''c'') []\<rparr>]\<rparr>"

definition seven_accepted :: run_result_message where
  "seven_accepted = \<lparr>rm_run_id = ''r1'', rm_status = ''Succeeded'', rm_duration_ms = 5, rm_tokens_prompt = 0,
     rm_tokens_completion = 0, rm_error_message = None, rm_correlation_id = ''c'', rm_traceparent = None,
     rm_artifacts = Some [\<lparr>ai_name = ''output.json'', ai_blob_uri = seven_url, ai_mime = Some ''application/json'',
       ai_size_bytes = None, ai_sha256 = None\<rparr>]\<rparr>"

definition seven_call :: engine_call where
  "seven_call = \<lparr>ec_env = seven_engine, ec_body = json_dumps (dump_run_message loop_message),
     ec_text = json_dumps (dump_run_message loop_message), ec_message = loop_message, ec_props = [],
     ec_before = \<lparr>fs_blobs = Map.empty, fs_sent = []\<rparr>, ec_after = seven_after, ec_accepted = seven_accepted, ec_trace = []\<rparr>"

definition seven_finalize :: finalize_env where
  "seven_finalize = (fin_env JNull)\<lparr>fz_float := (\<lambda>t. Some (JFloat (if t = ''7.0'' then 7 else 0) t)),
     fz_fetch := (\<lambda>u. if u = JStr seven_url then Inr (json_dumps (JObj (build_output seven_engine (JStr ''r1''))))
       else Inl ResourceNotFound)\<rparr>"

definition seven_result :: tagged_result where
  "seven_result = \<lparr>tr_application_id = ''a1'', tr_run_index = 0, tr_result = sb_payload seven_accepted []\<rparr>"

lemma seven_fields:
  "fk_text seven_engine n = Some n" "fk_random seven_engine i = 0" "fk_uuid seven_engine i = ''u''"
  "fk_elapsed seven_engine = 5" "fk_upload seven_engine u = Inr ()" "fk_send seven_engine v = Inr ()"
  "fk_float seven_engine n = Some (if n = ''FAKE_SCORE_MIN'' \<or> n = ''FAKE_SCORE_MAX'' then 7
     else if n = ''FAKE_MUST_HAVE_PASS_RATE'' then 1 else 0)"
  "fk_repr seven_engine x = ''7.0''" "fk_decode seven_engine t = Some t"
  by (simp_all add: seven_engine_def loop_engine_def)

lemma seven_scores: "score_at seven_engine i = 7"
proof -
  have "fl64 0 = 0" "fl64 7 = 7" by code_simp+
  moreover have "round2 7 = 7" by code_simp
  ultimately show ?thesis by (simp add: score_at_def uniform_def env_float_def seven_fields)
qed

lemma seven_answered: "engine_answered loop_intake seven_finalize seven_call seven_result"
proof -
  have zero: "fl64 0 = 0" by code_simp
  have ids: "msg_run_id loop_message = ''r1''" "msg_correlation_id loop_message = ''c''"
    by (simp_all add: loop_message_def build_run_message_def demo_dispatch_input_def str_or_def)
  have fl: "fk_loads env (json_dumps (dump_run_message loop_message)) = Some (dump_run_message loop_message)" for env
    by (simp add: fk_loads_def)
  have run: "fake_engine_run seven_engine (json_dumps (dump_run_message loop_message)) (wire_props [])
      \<lparr>fs_blobs = Map.empty, fs_sent = []\<rparr> = (seven_after, Inr ())"
    by (simp only: fake_engine_run_def seven_fields(9) fl option.case)
      (simp add: dump_run_message_def ids py_or_def wire_props_def prop_get_def env_float_def sleep_time_def uniform_def zero
        answer_run_def environ_def env_text_def send_result_def write_output_artifact_def seven_url_def seven_after_def
        trace_props_def seven_fields Let_def)
  have arts: "artifacts_of seven_url = JNull \<or> (\<exists>u. artifacts_of seven_url = artifacts_of u)" by blast
  let ?b = "result_body seven_engine (JStr ''r1'') (JStr ''c'') False (artifacts_of seven_url)"
  have "validate_run_result ?b = Inr seven_accepted"
    by (simp add: validate_run_result_def result_body_def req_str_def req_int_def opt_str_def opt_artifacts_def
        artifacts_of_def opt_int_def seven_accepted_def seven_fields)
  moreover have d: "ie_decode loop_intake v = Some v" for v by (simp add: loop_intake_def)
  ultimately have acc: "sb_accept loop_intake \<lparr>sb_body = json_dumps (JObj ?b), sb_props = ps\<rparr> = Inr seven_accepted" for ps
    by (simp add: sb_accept_def normalize_completion_payload_def ie_loads_def result_body_read[OF arts]
        result_body_accepted(1)[OF arts])
  have t: "float_text ''7.0''" by code_simp
  have fz: "fz_float seven_finalize t = Some (JFloat (if t = ''7.0'' then 7 else 0) t)"
    "fz_fetch seven_finalize (JStr seven_url) = Inr (json_dumps (JObj (build_output seven_engine (JStr ''r1''))))" for t
    by (simp_all add: seven_finalize_def)
  have after: "fe_body (last (fs_sent seven_after)) = JObj ?b" "fs_blobs seven_after u = Some v \<Longrightarrow>
      u = seven_url \<and> v = json_dumps (JObj (build_output seven_engine (JStr ''r1'')))" for u v
    by (auto simp: seven_after_def split: if_splits)
  have "env_float seven_engine ''FAKE_FAILURE_RATE'' 0 \<le> fk_random seven_engine 2" by (simp add: env_float_def seven_fields)
  moreover have "floats_read (fz_float seven_finalize) seven_engine" by (simp add: floats_read_def seven_scores seven_fields fz t)
  ultimately show ?thesis
    unfolding engine_answered_def Let_def
    using after(2) fz(2) by (auto simp: seven_call_def seven_fields fl ids run acc after(1) d seven_result_def)
qed

theorem engine_scores_delivered_witness:
  "\<exists>b a. cv_block_of seven_finalize [seven_result] fin_cv = Inr b \<and> cb_aggregated b = Some a \<and> ca_finalScore a = Some 7"
proof -
  have "app_runs [seven_result] (cv_applicationId fin_cv) = [seven_result]"
    by (simp add: app_runs_def seven_result_def fin_cv_def)
  then have "list_all2 (engine_answered loop_intake seven_finalize) [seven_call] (app_runs [seven_result] (cv_applicationId fin_cv))"
    using seven_answered by simp
  moreover have "median [7] = 7" by code_simp
  ultimately show ?thesis
    using engine_scores_delivered[of loop_intake seven_finalize "[seven_call]" "[seven_result]" fin_cv]
    by (auto simp: seven_scores seven_call_def)
qed

end
