(* ===== verification/BatchLife.thy ===== *)
theory BatchLife
  imports PlatformProperties ApiProperties
begin

text \<open>
  The life of a batch from its submission to the answer of a poll: the public routes and the
  task hub of \<open>Api\<close> and \<open>DurableHost\<close> on one side, the orchestrator, its activities and
  the result intake of \<open>Platform\<close> on the other. Between them is the Durable runtime, which
  starts the orchestrator with the payload it was given and reports the custom status the
  orchestrator set last and what it returned; \<open>shows_outcome\<close> is that documented behaviour.
\<close>

subsection \<open>From the submission to the orchestrator\<close>




subsection \<open>From the orchestrator to the poll\<close>






subsection \<open>The document has the types the poll wants\<close>






subsection \<open>A submission of one run\<close>

















subsection \<open>The properties\<close>







end
