(* ===== verification/Spec2Isabelle.thy ===== *)
theory Spec2Isabelle
  imports BatchProperties AggregationProperties IntakeProperties FinalizeProperties EndToEnd
    ApiProperties AuthProperties DlqProperties LiveProperties EngineLoop PlatformProperties
    RunMessages Telemetry Config Repository ServerProperties EngineScores BatchLife
begin

text \<open>
  Talent match platform: the back end that assesses batches of CVs.

  \<^bold>\<open>The program.\<close> A client posts a submission to the public API
  (\<^verbatim>\<open>src/api\<close>), which validates it and starts a Durable orchestration on a
  Functions host (\<^verbatim>\<open>src/orchestrator/functions\<close>). The orchestrator
  (\<^verbatim>\<open>fanout/__init__.py\<close>) mints one run id per CV and repetition, stages the
  prompt, dispatches every run to a Service Bus queue, waits for one external event per run,
  keeps a progress document, publishes live events over SignalR (\<^verbatim>\<open>src/runtime/events.py\<close>)
  and ends with an activity that aggregates the outputs (\<^verbatim>\<open>src/runtime/aggregation\<close>)
  and stores the final document. An external engine answers each run over Service Bus or over
  HTTP; the result intake (\<^verbatim>\<open>result_intake/__init__.py\<close>) finds the batch of the run,
  claims the delivery with a marker blob and raises the event. Dead letters can be peeked at and
  replayed (\<^verbatim>\<open>dlq_replay/__init__.py\<close>). A fake engine
  (\<^verbatim>\<open>src/tools/fake-engine\<close>) stands in for the real one.

  \<^bold>\<open>Theories and code.\<close> State of a component is a record, its operations are
  functions that return the new state, exceptions are values of \<^verbatim>\<open>pyerr\<close> on the left
  of a sum.

  \<^item> \<^verbatim>\<open>Prelude, PyValue\<close>: results, the JSON values of Python with truthiness,
    \<^verbatim>\<open>dict.get\<close>, \<^verbatim>\<open>str\<close>, \<^verbatim>\<open>repr\<close>, \<^verbatim>\<open>lower\<close>, \<^verbatim>\<open>strip\<close>.
    \<^verbatim>\<open>JsonText, JsonLaws\<close>: \<^verbatim>\<open>json.dumps\<close> and \<^verbatim>\<open>json.loads\<close>,
    with the round trip, floats included, and the bound on the scanner's fuel. \<^verbatim>\<open>Float64\<close>: rounding of
    a rational to a double.
  \<^item> \<^verbatim>\<open>RunStatus, Progress, ProgressLaws, LiveEvents\<close>: the status vocabulary, the
    progress document and the live events of \<^verbatim>\<open>fanout\<close> and \<^verbatim>\<open>events.py\<close>.
  \<^item> \<^verbatim>\<open>Orchestrator\<close>: \<^verbatim>\<open>batch_orchestrator\<close>, cut at its wait loop into
    \<open>orch_start\<close>, \<open>collect\<close> over the completions of the waiting tasks and \<open>orch_finish\<close>.
    \<^verbatim>\<open>OrchestratorLaws, MatchedResults, ExactBatch, ExactRun, BatchRun, BatchOutcome\<close>
    carry its invariant (the counters are exact, the events are numbered without gaps) from the
    start to the end; \<^verbatim>\<open>Announcements\<close> reads off the live events which applications
    they announce; \<^verbatim>\<open>BatchProperties\<close> states what follows for a batch.
  \<^item> \<^verbatim>\<open>Aggregation, AggregationLaws, AggregationProperties\<close>: both profiles of
    \<^verbatim>\<open>aggregation/shared.py\<close>. \<^verbatim>\<open>Finalize, FinalizeProperties\<close>:
    \<^verbatim>\<open>finalize_batch\<close>. \<^verbatim>\<open>ResultDocument\<close>: its document as JSON, with what
    reads it back from the text. \<^verbatim>\<open>EndToEnd\<close>: the orchestrator with it.
  \<^item> \<^verbatim>\<open>Storage, Contracts, Tracing\<close>: the blob container with a network that may lose a
    request or its answer, the wire models and the trace metadata. \<^verbatim>\<open>Intake, IntakeLaws, IntakeProperties\<close>: both paths of the result intake;
    the locale \<open>delivery_path\<close> is what one path promises of markers and events.
  \<^item> \<^verbatim>\<open>Dispatch, DispatchProperties\<close>: \<^verbatim>\<open>prepare_prompt_blob\<close> and
    \<^verbatim>\<open>dispatch_run\<close>. \<^verbatim>\<open>RunMessages\<close>: the whole message
    contract of \<^verbatim>\<open>sb_contracts.py\<close> as the engine reads it.
  \<^item> \<^verbatim>\<open>ExternalEvents, Platform, PlatformLaws, PlatformProperties\<close>: the composition.
    \<open>reached\<close> is the state of the container, the queue and the raised events after any
    sequence of activities and intake deliveries; the locale \<open>event_source\<close> is what an
    orchestration needs of the events, interpreted on those states. \<^verbatim>\<open>BatchLife\<close>: from
    the submission on the API over those states to the answer of a poll.
  \<^item> \<^verbatim>\<open>DurableHost, Problems, Submission, Api, ApiLaws, ApiProperties\<close>: the routes of
    the Functions host, the problem documents, the request models, the Durable client and the
    public routes. \<^verbatim>\<open>Auth, AuthProperties\<close>: the token check.
    \<^verbatim>\<open>Server, ServerProperties\<close>: the whole API as one function of a request, with the
    middleware, the dependency and the handlers around the routes and the JSON of the answers.
  \<^item> \<^verbatim>\<open>DlqReplay, DlqProperties\<close>: the dead letter routes over the broker's queues.
    \<^verbatim>\<open>LiveProjection, LiveProperties\<close>: the SignalR projection and its token.
    \<^verbatim>\<open>FakeEngine, EngineLoop, EngineScores\<close>: the fake engine, the loop dispatch, engine,
    intake, and the way of a score from the engine's draw to the final document.
  \<^item> \<^verbatim>\<open>Config\<close>: the settings and what each component gets of them.
    \<^verbatim>\<open>Telemetry\<close>: the log lines and the start-up. \<^verbatim>\<open>Repository\<close>:
    \<^verbatim>\<open>db/repository.py\<close> over two tables, with the pagination parameters.

  \<^bold>\<open>What the lemmas show.\<close> Of the whole: an accepted submission is answered by
  the poll, and the poll and a cancellation follow the state of the orchestrator. Of a batch: once
  every run is dispatched and reported, whatever else arrives, in whatever order and with whatever
  losses that do not hit the marker or the event of one of its runs (\<open>keeps_runs\<close>), it comes to
  \<^verbatim>\<open>finalize_batch\<close> with one result per run, and completes unless that activity raises, for
  which a malformed output or an upload without an answer is needed; nothing that arrives breaks
  it before; its wait loop ends; its counters and
  event numbers are exact all along and no application is announced twice; its document depends on the answers only and is read back from
  the stored text. Of the intake: at most one event per run on both paths, whatever the network
  does. Of the aggregation: bounds and order independence, in double precision. Of the engine: the
  scores it draws are the scores the document has. Of the API: idempotent submission, every branch
  of poll and cancel, an unreachable host, no change without a token. Of a log record: one line,
  read back as it was. Of the dead letters: conservation. Several lemmas state where the code does
  less than it means to: two CVs with one application id, a result of an unknown run, a failed raise
  or a lost answer to a claim, a dispatch that is not retried, a tie between decisions, a run that
  did not succeed, a replayed camelCase result.

  \<^bold>\<open>Parameters.\<close> What is not in the repository is an argument, with what is assumed of
  it in the statement: the blob download and the broker's receive (\<open>receive_law\<close>), pydantic's
  reading of UUIDs, URLs and integers, python-jose and HMAC, clocks (indexed by the step), message
  ids and \<^verbatim>\<open>uuid5\<close>, random draws (indexed by their place), the iteration order of a set
  of strings, which of several tasks waiting for one event name the Durable runtime completes
  (\<open>picks_one\<close>), how it carries the payload (\<open>carries\<close>) and reports status and
  output of an instance (\<open>shows_outcome\<close>), the network of each call (\<open>network\<close>), what the
  response models make of a stored document \<^verbatim>\<open>finalize_batch\<close> did not write, UTF-8 decoding, the decimal
  text of a float in JSON, and the order in which a database returns rows (\<open>order_law\<close>).

  \<^bold>\<open>Bounds.\<close> Strings are lists of code points 0 to 255; floats are finite doubles; Python's
  integers are unbounded. All functions are total. Only the JSON scanner has fuel, twice the
  length of the text, which \<open>scan_enough\<close> shows to be enough. \<^verbatim>\<open>set_custom_status\<close>
  keeps a reference to the progress dict, which the code goes on changing; the model's
  \<open>o_custom\<close> changes at the calls only, which is what the runtime stores. A call of the blob
  container is answered, lost on its way, or carried out with its answer lost; retries inside the SDK
  are one call. The download of an input document and of an output artifact is a parameter that may
  raise.

  \<^bold>\<open>Not modelled.\<close> The registration of the blueprints (\<^verbatim>\<open>function_app.py\<close>),
  the documentation pages of the FastAPI application, the spans, metrics and log calls of the
  components, tests and infrastructure; \<^verbatim>\<open>_coerce_str\<close> of the intake, which nothing
  calls, and the bearer scheme of \<^verbatim>\<open>_get_token\<close>, which is FastAPI's; an answer of the host with
  a status below 500 whose body is no JSON, which the modelled host does not send, and a verdict
  \<^verbatim>\<open>None\<close> in an aggregate, which \<^verbatim>\<open>finalize_batch\<close> does not write. Nothing imports \<^verbatim>\<open>db/repository.py\<close>, and it imports modules that
  do not exist: the connection, the schema, the retry decorator and the run models are parameters
  of \<^verbatim>\<open>Repository\<close>.
\<close>

end
